theory Spec2Isabelle
  imports Complex_Main
begin

section \<open>The store and the loops of the C code\<close>

text \<open>
  The integrators of \<^verbatim>\<open>bovy_symplecticode.c\<close> work on \<^verbatim>\<open>double *\<close> buffers by pointer
  arithmetic, and the caller's buffers, the output buffer and the scratch buffers are all
  visible to the callbacks. The model is therefore a flat store: an address is an integer
  (counting in units of one \<^verbatim>\<open>double\<close>), \<^verbatim>\<open>*(p+i)\<close> is \<open>m (p + i)\<close> and an assignment through
  a pointer is a function update. A \<^verbatim>\<open>double\<close> is a real number: rounding, infinities and
  NaN are not modelled. Where the code divides by a value that may be zero, the place is
  marked; C's \<^verbatim>\<open>int\<close> and \<^verbatim>\<open>long\<close> are unbounded integers. The C parameter
  \<^verbatim>\<open>dim\<close> is written \<open>ndim\<close> (\<open>dim\<close> is a constant of the library).
\<close>

type_synonym addr = int
type_synonym mem = "addr \<Rightarrow> real"

text \<open>\<^verbatim>\<open>for (ii = lo; ii < n; ii++) body\<close>, the state being whatever the body updates.\<close>

function for_loop :: "int \<Rightarrow> int \<Rightarrow> (int \<Rightarrow> 's \<Rightarrow> 's) \<Rightarrow> 's \<Rightarrow> 's" where
  "for_loop ii n body s = (if ii < n then for_loop (ii + 1) n body (body ii s) else s)"
  by pat_completeness auto
termination
  by (relation "measure (\<lambda>(ii, n, body, s). nat (n - ii))") auto

declare for_loop.simps [simp del]

subsection \<open>Vector primitives (lines 64-86)\<close>

text \<open>\<^verbatim>\<open>for (ii=0; ii < dim; ii++) (*qn++)= (*q++) +dt * (*p++);\<close>\<close>

definition leapfrog_leapq :: "int \<Rightarrow> addr \<Rightarrow> addr \<Rightarrow> real \<Rightarrow> addr \<Rightarrow> mem \<Rightarrow> mem" where
  "leapfrog_leapq ndim q p dt qn m =
     for_loop 0 ndim (\<lambda>ii m. m(qn + ii := m (q + ii) + dt * m (p + ii))) m"

text \<open>\<^verbatim>\<open>for (ii=0; ii< dim; ii++) (*pn++)= (*p++) + dt * (*a++);\<close>\<close>

definition leapfrog_leapp :: "int \<Rightarrow> addr \<Rightarrow> real \<Rightarrow> addr \<Rightarrow> addr \<Rightarrow> mem \<Rightarrow> mem" where
  "leapfrog_leapp ndim p dt a pn m =
     for_loop 0 ndim (\<lambda>ii m. m(pn + ii := m (p + ii) + dt * m (a + ii))) m"

text \<open>
  \<^verbatim>\<open>save_qp\<close> walks \<^verbatim>\<open>result\<close> forward: after the first loop it stands \<open>ndim\<close> entries further
  (when \<open>ndim\<close> is negative neither loop runs).
\<close>

definition save_qp :: "int \<Rightarrow> addr \<Rightarrow> addr \<Rightarrow> addr \<Rightarrow> mem \<Rightarrow> mem" where
  "save_qp ndim qo po result m =
     (let m = for_loop 0 ndim (\<lambda>ii m. m(result + ii := m (qo + ii))) m;
          result = result + (if 0 \<le> ndim then ndim else 0)
      in for_loop 0 ndim (\<lambda>ii m. m(result + ii := m (po + ii))) m)"

text \<open>
  \<^verbatim>\<open>save_result\<close>: copy, then \<^verbatim>\<open>*(result+2) /= *result\<close> when \<^verbatim>\<open>construct_Lz\<close>. For
  \<^verbatim>\<open>*result\<close> zero the C quotient is not finite; the model has HOL's \<open>x / 0\<close> there.
\<close>

definition save_result :: "int \<Rightarrow> addr \<Rightarrow> addr \<Rightarrow> bool \<Rightarrow> mem \<Rightarrow> mem" where
  "save_result ndim yo result construct_Lz m =
     (let m = for_loop 0 ndim (\<lambda>ii m. m(result + ii := m (yo + ii))) m
      in if construct_Lz then m(result + 2 := m (result + 2) / m result) else m)"

subsection \<open>The cancellation flag and the loop over output intervals\<close>

text \<open>
  The state of a running integrator: the store, the local \<^verbatim>\<open>to\<close>, the walking \<^verbatim>\<open>result\<close>
  pointer, \<^verbatim>\<open>*err\<close> and the global \<^verbatim>\<open>interrupted\<close>.
\<close>

record run_state =
  st_mem :: mem
  st_to :: real
  st_result :: addr
  st_err :: int
  st_interrupted :: int

text \<open>The signal handler (lines 43-46): \<^verbatim>\<open>interrupted= 1;\<close>\<close>

definition handle_sigint :: "run_state \<Rightarrow> run_state" where
  "handle_sigint s = s\<lparr>st_interrupted := 1\<rparr>"

text \<open>
  The loop \<^verbatim>\<open>for (ii=0; ii < (nt-1); ii++)\<close> of the three integrators (lines 153-174,
  258-293, 384-491) has one skeleton: poll \<^verbatim>\<open>interrupted\<close>; if set, \<^verbatim>\<open>*err= -10\<close>, clear the
  flag and \<^verbatim>\<open>break\<close>; otherwise integrate one output interval and save. The interval is a
  parameter. The asynchronous signal is a schedule \<open>sig\<close>: \<open>sig ii\<close> says that SIGINT is
  delivered (the handler runs) between the previous poll and the poll of iteration \<open>ii\<close>.
\<close>

function output_loop ::
  "(int \<Rightarrow> bool) \<Rightarrow> int \<Rightarrow> (run_state \<Rightarrow> run_state) \<Rightarrow> int \<Rightarrow> run_state \<Rightarrow> run_state" where
  "output_loop sig nt interval ii s =
     (if ii < nt - 1 then
        (let s = (if sig ii then handle_sigint s else s) in
         if st_interrupted s \<noteq> 0 then s\<lparr>st_err := - 10, st_interrupted := 0\<rparr>
         else output_loop sig nt interval (ii + 1) (interval s))
      else s)"
  by pat_completeness auto
termination
  by (relation "measure (\<lambda>(sig, nt, interval, ii, s). nat (nt - 1 - ii))") auto

declare output_loop.simps [simp del]

text \<open>\<^verbatim>\<open>(long) x\<close> for a double \<open>x\<close>: truncation towards zero.\<close>

definition long_of_double :: "real \<Rightarrow> int" where
  "long_of_double x = (if 0 \<le> x then \<lfloor>x\<rfloor> else \<lceil>x\<rceil>)"

subsection \<open>The step-size searches' loop\<close>

definition MAX_DT_REDUCE :: real where
  "MAX_DT_REDUCE = 10000"

text \<open>
  \<^verbatim>\<open>init_dt / dt < _MAX_DT_REDUCE\<close>. For \<open>dt = 0\<close> (which the searches reach only from
  \<open>init_dt = 0\<close>, \<open>dt\<close> being \<open>init_dt\<close> times a power of two) the C quotient is NaN and the
  comparison is false.
\<close>

definition below_max_dt_reduce :: "real \<Rightarrow> real \<Rightarrow> bool" where
  "below_max_dt_reduce init_dt dt = (dt \<noteq> 0 \<and> init_dt / dt < MAX_DT_REDUCE)"

text \<open>
  \<^verbatim>\<open>while ( err > 1. && init_dt / dt < _MAX_DT_REDUCE ) { dt/= 2.; ... }\<close> (lines 533-557,
  605-657, 722-877): the same skeleton in the three searches, the rest of the body being
  the parameter \<open>iter\<close>, which gets the halved \<open>dt\<close>, the old \<open>err\<close> and the rest of the
  state and returns the new \<open>err\<close> and state. The loop need not end from every state, so
  its result is an option; that the searches do end is a theorem below.
\<close>

partial_function (option) estimate_loop ::
  "(real \<Rightarrow> real \<Rightarrow> 's \<Rightarrow> real \<times> 's) \<Rightarrow> real \<Rightarrow> real \<Rightarrow> real \<Rightarrow> 's \<Rightarrow> (real \<times> 's) option" where
  "estimate_loop iter init_dt dt err s =
     (if err > 1 \<and> below_max_dt_reduce init_dt dt
      then (case iter (dt / 2) err s of (err', s') \<Rightarrow> estimate_loop iter init_dt (dt / 2) err' s')
      else Some (dt, s))"

text \<open>
  One pass of the loop on the triple (\<open>dt\<close>, \<open>err\<close>, rest of the state), and the loop's
  condition on it; \<open>estimate_pass iter ^^ k\<close> is then the state after \<open>k\<close> passes.
\<close>

definition estimate_pass ::
  "(real \<Rightarrow> real \<Rightarrow> 's \<Rightarrow> real \<times> 's) \<Rightarrow> real \<times> real \<times> 's \<Rightarrow> real \<times> real \<times> 's" where
  "estimate_pass iter st =
     (case st of (dt, err, s) \<Rightarrow> (case iter (dt / 2) err s of (err', s') \<Rightarrow> (dt / 2, err', s')))"

definition estimate_continue :: "real \<Rightarrow> real \<times> real \<times> 's \<Rightarrow> bool" where
  "estimate_continue init_dt st =
     (case st of (dt, err, s) \<Rightarrow> err > 1 \<and> below_max_dt_reduce init_dt dt)"

section \<open>The callbacks\<close>

text \<open>
  The caller's functions update the store through the pointers they are given. The
  arguments \<^verbatim>\<open>nargs\<close> and \<^verbatim>\<open>potentialArgs\<close>, which the integrators only pass on, are
  part of the function.
  \<^item> \<^verbatim>\<open>drift(dt, y)\<close>, \<^verbatim>\<open>kick(dt, t, y, nargs, potentialArgs)\<close>;
  \<^item> \<^verbatim>\<open>func(t, q, a, nargs, potentialArgs)\<close>;
  \<^item> \<^verbatim>\<open>tol_scaling(yo, result)\<close>, \<^verbatim>\<open>metric(dim, x, y, result)\<close>.
\<close>

type_synonym drift_fn = "real \<Rightarrow> addr \<Rightarrow> mem \<Rightarrow> mem"
type_synonym kick_fn = "real \<Rightarrow> real \<Rightarrow> addr \<Rightarrow> mem \<Rightarrow> mem"
type_synonym func_fn = "real \<Rightarrow> addr \<Rightarrow> addr \<Rightarrow> mem \<Rightarrow> mem"
type_synonym scaling_fn = "addr \<Rightarrow> addr \<Rightarrow> mem \<Rightarrow> mem"
type_synonym metric_fn = "int \<Rightarrow> addr \<Rightarrow> addr \<Rightarrow> addr \<Rightarrow> mem \<Rightarrow> mem"

section \<open>Leapfrog\<close>

subsection \<open>\<^verbatim>\<open>leapfrog_estimate_step\<close> (lines 505-565)\<close>

text \<open>
  The blocks that \<^verbatim>\<open>malloc\<close> returns (\<open>y11\<close>, \<open>y12\<close>, \<open>delta\<close>, \<open>scaling\<close>, \<open>scale2\<close>) are
  parameters of the model, after those of the C function; \<^verbatim>\<open>free\<close> does not change the
  store. Lines 528-530, the scale:
\<close>

definition leapfrog_estimate_scale ::
  "int \<Rightarrow> addr \<Rightarrow> real \<Rightarrow> real \<Rightarrow> scaling_fn \<Rightarrow> addr \<Rightarrow> addr \<Rightarrow> mem \<Rightarrow> mem" where
  "leapfrog_estimate_scale ndim yo rtol atol tol_scaling scaling scale2 m =
     (let m = tol_scaling yo scaling m
      in for_loop 0 ndim
           (\<lambda>ii m. m(scale2 + ii := (exp atol + exp rtol * m (scaling + ii)) ^ 2)) m)"

text \<open>
  Lines 535-552, the first part of the loop's body after \<^verbatim>\<open>dt/= 2.\<close>: one step of \<open>dt\<close> on
  \<open>y11\<close>, two of \<open>dt/2\<close> on \<open>y12\<close>, and their difference in \<open>delta\<close>.
\<close>

definition leapfrog_estimate_trial ::
  "drift_fn \<Rightarrow> kick_fn \<Rightarrow> int \<Rightarrow> addr \<Rightarrow> real \<Rightarrow> metric_fn \<Rightarrow> addr \<Rightarrow> addr \<Rightarrow> addr
     \<Rightarrow> real \<Rightarrow> mem \<Rightarrow> mem" where
  "leapfrog_estimate_trial drift kick ndim yo to metric y11 y12 delta dt m =
     (let m = for_loop 0 ndim
                (\<lambda>ii m. let m = m(y11 + ii := m (yo + ii)) in m(y12 + ii := m (yo + ii))) m;
          m = drift (dt / 2) y11 m;
          m = kick dt (to + dt / 2) y11 m;
          m = drift (dt / 2) y11 m;
          m = drift (dt / 4) y12 m;
          m = kick (dt / 2) (to + dt / 4) y12 m;
          m = drift (dt / 2) y12 m;
          m = kick (dt / 2) (to + 3 * dt / 4) y12 m;
          m = drift (dt / 4) y12 m;
          m = metric ndim y11 y12 delta m
      in m)"

text \<open>Lines 535-556, the whole body; it sets \<^verbatim>\<open>err= 0.\<close> before summing.\<close>

definition leapfrog_estimate_iter ::
  "drift_fn \<Rightarrow> kick_fn \<Rightarrow> int \<Rightarrow> addr \<Rightarrow> real \<Rightarrow> metric_fn \<Rightarrow> addr \<Rightarrow> addr \<Rightarrow> addr \<Rightarrow> addr
     \<Rightarrow> real \<Rightarrow> real \<Rightarrow> mem \<Rightarrow> real \<times> mem" where
  "leapfrog_estimate_iter drift kick ndim yo to metric y11 y12 delta scale2 dt err m =
     (let m = leapfrog_estimate_trial drift kick ndim yo to metric y11 y12 delta dt m;
          err = 0;
          err = for_loop 0 ndim
                  (\<lambda>ii err. err + m (delta + ii) * m (delta + ii) / m (scale2 + ii)) err;
          err = sqrt (err / real_of_int ndim)
      in (err, m))"

definition leapfrog_estimate_step ::
  "drift_fn \<Rightarrow> kick_fn \<Rightarrow> int \<Rightarrow> addr \<Rightarrow> real \<Rightarrow> addr \<Rightarrow> real \<Rightarrow> real \<Rightarrow> scaling_fn \<Rightarrow> metric_fn
     \<Rightarrow> addr \<Rightarrow> addr \<Rightarrow> addr \<Rightarrow> addr \<Rightarrow> addr \<Rightarrow> mem \<Rightarrow> (real \<times> mem) option" where
  "leapfrog_estimate_step drift kick ndim yo dt t rtol atol tol_scaling metric
       y11 y12 delta scaling scale2 m =
     (let err = 2;
          to = m t;
          init_dt = dt;
          m = leapfrog_estimate_scale ndim yo rtol atol tol_scaling scaling scale2 m;
          dt = dt * 2
      in estimate_loop (leapfrog_estimate_iter drift kick ndim yo to metric y11 y12 delta scale2)
           init_dt dt err m)"

subsection \<open>\<^verbatim>\<open>leapfrog\<close> (lines 116-181)\<close>

text \<open>Lines 159-170: the sub-steps of one output interval.\<close>

definition leapfrog_substeps ::
  "drift_fn \<Rightarrow> kick_fn \<Rightarrow> addr \<Rightarrow> real \<Rightarrow> int \<Rightarrow> real \<Rightarrow> mem \<Rightarrow> real \<times> mem" where
  "leapfrog_substeps drift kick yo dt ndt to m =
     (let m = drift (dt / 2) yo m;
          (to, m) = for_loop 0 (ndt - 1)
                      (\<lambda>jj (to, m).
                          let m = kick dt (to + dt / 2) yo m;
                              m = drift dt yo m;
                              to = to + dt
                          in (to, m)) (to, m);
          m = kick dt (to + dt / 2) yo m;
          m = drift (dt / 2) yo m;
          to = to + dt
      in (to, m))"

text \<open>Lines 159-173: the sub-steps, then \<^verbatim>\<open>save_result\<close> and \<^verbatim>\<open>result+= dim\<close>.\<close>

definition leapfrog_interval ::
  "drift_fn \<Rightarrow> kick_fn \<Rightarrow> int \<Rightarrow> addr \<Rightarrow> real \<Rightarrow> int \<Rightarrow> bool \<Rightarrow> run_state \<Rightarrow> run_state" where
  "leapfrog_interval drift kick ndim yo dt ndt construct_Lz s =
     (let (to, m) = leapfrog_substeps drift kick yo dt ndt (st_to s) (st_mem s);
          m = save_result ndim yo (st_result s) construct_Lz m
      in s\<lparr>st_mem := m, st_to := to, st_result := st_result s + ndim\<rparr>)"

text \<open>
  Lines 128-143: everything before the loop. The result is the step \<open>dt\<close>, the count
  \<open>ndt\<close> and the state at the loop's entry. For \<open>dt = 0\<close> the C quotient \<^verbatim>\<open>init_dt/dt\<close> is
  not finite and its conversion to \<^verbatim>\<open>long\<close> is undefined; the model has \<open>ndt = 0\<close> there.
\<close>

definition leapfrog_init ::
  "drift_fn \<Rightarrow> kick_fn \<Rightarrow> int \<Rightarrow> addr \<Rightarrow> real \<Rightarrow> addr \<Rightarrow> real \<Rightarrow> real \<Rightarrow> scaling_fn \<Rightarrow> metric_fn
     \<Rightarrow> bool \<Rightarrow> addr \<Rightarrow> addr \<Rightarrow> addr \<Rightarrow> addr \<Rightarrow> addr \<Rightarrow> addr \<Rightarrow> int \<Rightarrow> mem
     \<Rightarrow> (real \<times> int \<times> run_state) option" where
  "leapfrog_init drift kick ndim yo dt t rtol atol tol_scaling metric construct_Lz result
       y11 y12 delta scaling scale2 interrupted m =
     (let m = save_result ndim yo result False m;
          result = result + ndim;
          err = 0;
          m = (if construct_Lz then m(yo + 2 := m (yo + 2) * m yo) else m);
          init_dt = m (t + 1) - m t
      in case (if dt = - 9999.99
               then leapfrog_estimate_step drift kick ndim yo init_dt t rtol atol
                      tol_scaling metric y11 y12 delta scaling scale2 m
               else Some (dt, m)) of
           None \<Rightarrow> None
         | Some (dt, m) \<Rightarrow>
             Some (dt, long_of_double (init_dt / dt),
                   \<lparr>st_mem = m, st_to = m t, st_result = result, st_err = err,
                    st_interrupted = interrupted\<rparr>))"

text \<open>
  The whole call. After the C parameters come the blocks the step-size search allocates,
  the signal schedule, the value of \<^verbatim>\<open>interrupted\<close> at entry and the store.
\<close>

definition leapfrog ::
  "drift_fn \<Rightarrow> kick_fn \<Rightarrow> int \<Rightarrow> addr \<Rightarrow> int \<Rightarrow> real \<Rightarrow> addr \<Rightarrow> real \<Rightarrow> real \<Rightarrow> scaling_fn
     \<Rightarrow> metric_fn \<Rightarrow> bool \<Rightarrow> addr \<Rightarrow> addr \<Rightarrow> addr \<Rightarrow> addr \<Rightarrow> addr \<Rightarrow> addr \<Rightarrow> (int \<Rightarrow> bool) \<Rightarrow> int
     \<Rightarrow> mem \<Rightarrow> run_state option" where
  "leapfrog drift kick ndim yo nt dt t rtol atol tol_scaling metric construct_Lz result
       y11 y12 delta scaling scale2 sig interrupted m =
     (case leapfrog_init drift kick ndim yo dt t rtol atol tol_scaling metric construct_Lz
             result y11 y12 delta scaling scale2 interrupted m of
        None \<Rightarrow> None
      | Some (dt, ndt, s) \<Rightarrow>
          Some (output_loop sig nt (leapfrog_interval drift kick ndim yo dt ndt construct_Lz)
                  0 s))"

section \<open>The fourth-order scheme\<close>

text \<open>The coefficients (lines 225-232 and 579-586).\<close>

definition s4_c1 :: real where "s4_c1 = 0.6756035959798289"
definition s4_c4 :: real where "s4_c4 = s4_c1"
definition s4_c41 :: real where "s4_c41 = s4_c4 + s4_c1"
definition s4_c2 :: real where "s4_c2 = - 0.1756035959798288"
definition s4_c3 :: real where "s4_c3 = s4_c2"
definition s4_d1 :: real where "s4_d1 = 1.3512071919596578"
definition s4_d3 :: real where "s4_d3 = s4_d1"
definition s4_d2 :: real where "s4_d2 = - 1.7024143839193153"

subsection \<open>\<^verbatim>\<open>symplec4_estimate_step\<close> (lines 567-665)\<close>

text \<open>Lines 600-602, the scale.\<close>

definition symplec4_estimate_scale ::
  "int \<Rightarrow> addr \<Rightarrow> real \<Rightarrow> real \<Rightarrow> scaling_fn \<Rightarrow> addr \<Rightarrow> addr \<Rightarrow> mem \<Rightarrow> mem" where
  "symplec4_estimate_scale ndim yo rtol atol tol_scaling scaling scale2 m =
     (let m = tol_scaling yo scaling m
      in for_loop 0 ndim
           (\<lambda>ii m. m(scale2 + ii := (exp atol + exp rtol * m (scaling + ii)) ^ 2)) m)"

text \<open>
  Lines 607-653, the first part of the loop's body after \<^verbatim>\<open>dt/= 2.\<close>: one step of \<open>dt\<close> on
  \<open>y11\<close>, two of \<open>dt/2\<close> on \<open>y12\<close>, and their difference in \<open>delta\<close>.
\<close>

definition symplec4_estimate_trial ::
  "drift_fn \<Rightarrow> kick_fn \<Rightarrow> int \<Rightarrow> addr \<Rightarrow> addr \<Rightarrow> metric_fn \<Rightarrow> addr \<Rightarrow> addr \<Rightarrow> addr
     \<Rightarrow> real \<Rightarrow> mem \<Rightarrow> mem" where
  "symplec4_estimate_trial drift kick ndim yo t metric y11 y12 delta dt m =
     (let to = m t;
          m = for_loop 0 ndim
                (\<lambda>ii m. let m = m(y11 + ii := m (yo + ii)) in m(y12 + ii := m (yo + ii))) m;
          m = drift (s4_c1 * dt) y11 m;
          to = to + s4_c1 * dt;
          m = kick (s4_d1 * dt) to y11 m;
          m = drift (s4_c2 * dt) y11 m;
          to = to + s4_c2 * dt;
          m = kick (s4_d2 * dt) to y11 m;
          m = drift (s4_c3 * dt) y11 m;
          to = to + s4_c3 * dt;
          m = kick (s4_d3 * dt) to y11 m;
          m = drift (s4_c4 * dt) y11 m;
          to = to - dt;
          dt2 = dt / 2;
          m = drift (s4_c1 * dt2) y12 m;
          to = to + s4_c1 * dt2;
          m = kick (s4_d1 * dt2) to y12 m;
          m = drift (s4_c2 * dt2) y12 m;
          to = to + s4_c2 * dt2;
          m = kick (s4_d2 * dt2) to y12 m;
          m = drift (s4_c3 * dt2) y12 m;
          to = to + s4_c3 * dt2;
          m = kick (s4_d3 * dt2) to y12 m;
          m = drift (s4_c41 * dt2) y12 m;
          to = to + s4_c41 * dt2;
          m = kick (s4_d1 * dt2) to y12 m;
          m = drift (s4_c2 * dt2) y12 m;
          to = to + s4_c2 * dt2;
          m = kick (s4_d2 * dt2) to y12 m;
          m = drift (s4_c3 * dt2) y12 m;
          to = to + s4_c3 * dt2;
          m = kick (s4_d3 * dt2) to y12 m;
          m = drift (s4_c4 * dt2) y12 m;
          m = metric ndim y11 y12 delta m
      in m)"

text \<open>
  Lines 607-656, the whole body. Here \<^verbatim>\<open>err\<close> is not set to zero before the sum (lines
  653-656): the sum starts from the \<open>err\<close> of the pass before.
\<close>

definition symplec4_estimate_iter ::
  "drift_fn \<Rightarrow> kick_fn \<Rightarrow> int \<Rightarrow> addr \<Rightarrow> addr \<Rightarrow> metric_fn \<Rightarrow> addr \<Rightarrow> addr \<Rightarrow> addr \<Rightarrow> addr
     \<Rightarrow> real \<Rightarrow> real \<Rightarrow> mem \<Rightarrow> real \<times> mem" where
  "symplec4_estimate_iter drift kick ndim yo t metric y11 y12 delta scale2 dt err m =
     (let m = symplec4_estimate_trial drift kick ndim yo t metric y11 y12 delta dt m;
          err = for_loop 0 ndim
                  (\<lambda>ii err. err + m (delta + ii) * m (delta + ii) / m (scale2 + ii)) err;
          err = sqrt (err / real_of_int ndim)
      in (err, m))"

definition symplec4_estimate_step ::
  "drift_fn \<Rightarrow> kick_fn \<Rightarrow> int \<Rightarrow> addr \<Rightarrow> real \<Rightarrow> addr \<Rightarrow> real \<Rightarrow> real \<Rightarrow> scaling_fn \<Rightarrow> metric_fn
     \<Rightarrow> addr \<Rightarrow> addr \<Rightarrow> addr \<Rightarrow> addr \<Rightarrow> addr \<Rightarrow> mem \<Rightarrow> (real \<times> mem) option" where
  "symplec4_estimate_step drift kick ndim yo dt t rtol atol tol_scaling metric
       y11 y12 delta scaling scale2 m =
     (let err = 2;
          init_dt = dt;
          m = symplec4_estimate_scale ndim yo rtol atol tol_scaling scaling scale2 m;
          dt = dt * 2
      in estimate_loop (symplec4_estimate_iter drift kick ndim yo t metric y11 y12 delta scale2)
           init_dt dt err m)"

subsection \<open>\<^verbatim>\<open>symplec4\<close> (lines 212-300)\<close>

text \<open>Lines 264-289: the sub-steps of one output interval.\<close>

definition symplec4_substeps ::
  "drift_fn \<Rightarrow> kick_fn \<Rightarrow> addr \<Rightarrow> real \<Rightarrow> int \<Rightarrow> real \<Rightarrow> mem \<Rightarrow> real \<times> mem" where
  "symplec4_substeps drift kick yo dt ndt to m =
     (let m = drift (s4_c1 * dt) yo m;
          to = to + s4_c1 * dt;
          (to, m) = for_loop 0 (ndt - 1)
                      (\<lambda>jj (to, m).
                          let m = kick (s4_d1 * dt) to yo m;
                              m = drift (s4_c2 * dt) yo m;
                              to = to + s4_c2 * dt;
                              m = kick (s4_d2 * dt) to yo m;
                              m = drift (s4_c3 * dt) yo m;
                              to = to + s4_c3 * dt;
                              m = kick (s4_d3 * dt) to yo m;
                              m = drift (s4_c41 * dt) yo m;
                              to = to + s4_c41 * dt
                          in (to, m)) (to, m);
          m = kick (s4_d1 * dt) to yo m;
          m = drift (s4_c2 * dt) yo m;
          to = to + s4_c2 * dt;
          m = kick (s4_d2 * dt) to yo m;
          m = drift (s4_c3 * dt) yo m;
          to = to + s4_c3 * dt;
          m = kick (s4_d3 * dt) to yo m;
          m = drift (s4_c4 * dt) yo m;
          to = to + s4_c4 * dt
      in (to, m))"

definition symplec4_interval ::
  "drift_fn \<Rightarrow> kick_fn \<Rightarrow> int \<Rightarrow> addr \<Rightarrow> real \<Rightarrow> int \<Rightarrow> bool \<Rightarrow> run_state \<Rightarrow> run_state" where
  "symplec4_interval drift kick ndim yo dt ndt construct_Lz s =
     (let (to, m) = symplec4_substeps drift kick yo dt ndt (st_to s) (st_mem s);
          m = save_result ndim yo (st_result s) construct_Lz m
      in s\<lparr>st_mem := m, st_to := to, st_result := st_result s + ndim\<rparr>)"

text \<open>Lines 234-248: everything before the loop.\<close>

definition symplec4_init ::
  "drift_fn \<Rightarrow> kick_fn \<Rightarrow> int \<Rightarrow> addr \<Rightarrow> real \<Rightarrow> addr \<Rightarrow> real \<Rightarrow> real \<Rightarrow> scaling_fn \<Rightarrow> metric_fn
     \<Rightarrow> bool \<Rightarrow> addr \<Rightarrow> addr \<Rightarrow> addr \<Rightarrow> addr \<Rightarrow> addr \<Rightarrow> addr \<Rightarrow> int \<Rightarrow> mem
     \<Rightarrow> (real \<times> int \<times> run_state) option" where
  "symplec4_init drift kick ndim yo dt t rtol atol tol_scaling metric construct_Lz result
       y11 y12 delta scaling scale2 interrupted m =
     (let m = save_result ndim yo result False m;
          result = result + ndim;
          err = 0;
          m = (if construct_Lz then m(yo + 2 := m (yo + 2) * m yo) else m);
          init_dt = m (t + 1) - m t
      in case (if dt = - 9999.99
               then symplec4_estimate_step drift kick ndim yo init_dt t rtol atol
                      tol_scaling metric y11 y12 delta scaling scale2 m
               else Some (dt, m)) of
           None \<Rightarrow> None
         | Some (dt, m) \<Rightarrow>
             Some (dt, long_of_double (init_dt / dt),
                   \<lparr>st_mem = m, st_to = m t, st_result = result, st_err = err,
                    st_interrupted = interrupted\<rparr>))"

definition symplec4 ::
  "drift_fn \<Rightarrow> kick_fn \<Rightarrow> int \<Rightarrow> addr \<Rightarrow> int \<Rightarrow> real \<Rightarrow> addr \<Rightarrow> real \<Rightarrow> real \<Rightarrow> scaling_fn
     \<Rightarrow> metric_fn \<Rightarrow> bool \<Rightarrow> addr \<Rightarrow> addr \<Rightarrow> addr \<Rightarrow> addr \<Rightarrow> addr \<Rightarrow> addr \<Rightarrow> (int \<Rightarrow> bool) \<Rightarrow> int
     \<Rightarrow> mem \<Rightarrow> run_state option" where
  "symplec4 drift kick ndim yo nt dt t rtol atol tol_scaling metric construct_Lz result
       y11 y12 delta scaling scale2 sig interrupted m =
     (case symplec4_init drift kick ndim yo dt t rtol atol tol_scaling metric construct_Lz
             result y11 y12 delta scaling scale2 interrupted m of
        None \<Rightarrow> None
      | Some (dt, ndt, s) \<Rightarrow>
          Some (output_loop sig nt (symplec4_interval drift kick ndim yo dt ndt construct_Lz)
                  0 s))"

section \<open>The sixth-order scheme\<close>

text \<open>The coefficients (lines 335-349 and 674-688).\<close>

definition s6_c1 :: real where "s6_c1 = 0.392256805238780"
definition s6_c8 :: real where "s6_c8 = s6_c1"
definition s6_c2 :: real where "s6_c2 = 0.510043411918458"
definition s6_c7 :: real where "s6_c7 = s6_c2"
definition s6_c3 :: real where "s6_c3 = - 0.471053385409758"
definition s6_c6 :: real where "s6_c6 = s6_c3"
definition s6_c4 :: real where "s6_c4 = 0.0687531682525198"
definition s6_c5 :: real where "s6_c5 = s6_c4"
definition s6_d1 :: real where "s6_d1 = 0.784513610477560"
definition s6_d7 :: real where "s6_d7 = s6_d1"
definition s6_d2 :: real where "s6_d2 = 0.235573213359357"
definition s6_d6 :: real where "s6_d6 = s6_d2"
definition s6_d3 :: real where "s6_d3 = - 1.17767998417887"
definition s6_d5 :: real where "s6_d5 = s6_d3"
definition s6_d4 :: real where "s6_d4 = 1.31518632068391"

subsection \<open>\<^verbatim>\<open>symplec6_estimate_step\<close> (lines 667-890)\<close>

text \<open>
  One term of the error sum (lines 871-872): \<^verbatim>\<open>exp(2.*log(fabs(x))-2.*s)\<close>. For \<open>x = 0\<close>
  the C logarithm is minus infinity and the exponential is zero.
\<close>

definition symplec6_err_term :: "real \<Rightarrow> real \<Rightarrow> real" where
  "symplec6_err_term x s = (if x = 0 then 0 else exp (2 * ln \<bar>x\<bar> - 2 * s))"

text \<open>Lines 704-719: the maxima and the scale.\<close>

definition symplec6_estimate_scale ::
  "int \<Rightarrow> addr \<Rightarrow> addr \<Rightarrow> real \<Rightarrow> real \<Rightarrow> addr \<Rightarrow> mem \<Rightarrow> mem" where
  "symplec6_estimate_scale ndim qo po rtol atol scale m =
     (let max_val_q = \<bar>m qo\<bar>;
          max_val_q = for_loop 1 ndim
                        (\<lambda>ii max_val_q.
                            if \<bar>m (qo + ii)\<bar> > max_val_q then \<bar>m (qo + ii)\<bar> else max_val_q)
                        max_val_q;
          max_val_p = \<bar>m po\<bar>;
          max_val_p = for_loop 1 ndim
                        (\<lambda>ii max_val_p.
                            if \<bar>m (po + ii)\<bar> > max_val_p then \<bar>m (po + ii)\<bar> else max_val_p)
                        max_val_p;
          c = max atol (rtol * max_val_q);
          s = ln (exp (atol - c) + exp (rtol * max_val_q - c)) + c;
          m = for_loop 0 ndim (\<lambda>ii m. m(scale + ii := s)) m;
          c = max atol (rtol * max_val_p);
          s = ln (exp (atol - c) + exp (rtol * max_val_p - c)) + c;
          m = for_loop 0 ndim (\<lambda>ii m. m(scale + ii + ndim := s)) m
      in m)"

text \<open>
  Lines 724-876, the body of the loop after \<^verbatim>\<open>dt/= 2.\<close>; the local \<^verbatim>\<open>to\<close> lives across
  the iterations and is part of the loop's state.
\<close>

definition symplec6_estimate_iter ::
  "func_fn \<Rightarrow> int \<Rightarrow> addr \<Rightarrow> addr \<Rightarrow> addr \<Rightarrow> addr \<Rightarrow> addr \<Rightarrow> addr \<Rightarrow> addr \<Rightarrow> addr \<Rightarrow> addr \<Rightarrow> addr
     \<Rightarrow> real \<Rightarrow> real \<Rightarrow> real \<times> mem \<Rightarrow> real \<times> real \<times> mem" where
  "symplec6_estimate_iter func ndim qo po q11 q12 p11 p12 qtmp ptmp a scale dt err tm =
     (let (to, m) = tm;
          m = leapfrog_leapq ndim qo po (s6_c1 * dt) q12 m;
          to = to + s6_c1 * dt;
          m = func to q12 a m;
          m = leapfrog_leapp ndim po (s6_d1 * dt) a p12 m;
          m = leapfrog_leapq ndim q12 p12 (s6_c2 * dt) qtmp m;
          to = to + s6_c2 * dt;
          m = func to qtmp a m;
          m = leapfrog_leapp ndim p12 (s6_d2 * dt) a ptmp m;
          m = leapfrog_leapq ndim qtmp ptmp (s6_c3 * dt) q12 m;
          to = to + s6_c3 * dt;
          m = func to q12 a m;
          m = leapfrog_leapp ndim ptmp (s6_d3 * dt) a p12 m;
          m = leapfrog_leapq ndim q12 p12 (s6_c4 * dt) qtmp m;
          to = to + s6_c4 * dt;
          m = func to qtmp a m;
          m = leapfrog_leapp ndim p12 (s6_d4 * dt) a ptmp m;
          m = leapfrog_leapq ndim qtmp ptmp (s6_c5 * dt) q12 m;
          to = to + s6_c5 * dt;
          m = func to q12 a m;
          m = leapfrog_leapp ndim ptmp (s6_d5 * dt) a p12 m;
          m = leapfrog_leapq ndim q12 p12 (s6_c6 * dt) qtmp m;
          to = to + s6_c6 * dt;
          m = func to qtmp a m;
          m = leapfrog_leapp ndim p12 (s6_d6 * dt) a ptmp m;
          m = leapfrog_leapq ndim qtmp ptmp (s6_c7 * dt) q12 m;
          to = to + s6_c7 * dt;
          m = func to q12 a m;
          m = leapfrog_leapp ndim ptmp (s6_d7 * dt) a p11 m;
          m = leapfrog_leapq ndim q12 p11 (s6_c8 * dt) q11 m;
          to = to + s6_c8 * dt;
          to = to - dt;
          m = leapfrog_leapq ndim qo po (s6_c1 * dt / 2) q12 m;
          to = to + s6_c1 * dt / 2;
          m = func to q12 a m;
          m = leapfrog_leapp ndim po (s6_d1 * dt / 2) a p12 m;
          m = leapfrog_leapq ndim q12 p12 (s6_c2 * dt / 2) qtmp m;
          to = to + s6_c2 * dt / 2;
          m = func to qtmp a m;
          m = leapfrog_leapp ndim p12 (s6_d2 * dt / 2) a ptmp m;
          m = leapfrog_leapq ndim qtmp ptmp (s6_c3 * dt / 2) q12 m;
          to = to + s6_c3 * dt / 2;
          m = func to q12 a m;
          m = leapfrog_leapp ndim ptmp (s6_d3 * dt / 2) a p12 m;
          m = leapfrog_leapq ndim q12 p12 (s6_c4 * dt / 2) qtmp m;
          to = to + s6_c4 * dt / 2;
          m = func to qtmp a m;
          m = leapfrog_leapp ndim p12 (s6_d4 * dt / 2) a ptmp m;
          m = leapfrog_leapq ndim qtmp ptmp (s6_c5 * dt / 2) q12 m;
          to = to + s6_c5 * dt / 2;
          m = func to q12 a m;
          m = leapfrog_leapp ndim ptmp (s6_d5 * dt / 2) a p12 m;
          m = leapfrog_leapq ndim q12 p12 (s6_c6 * dt / 2) qtmp m;
          to = to + s6_c6 * dt / 2;
          m = func to qtmp a m;
          m = leapfrog_leapp ndim p12 (s6_d6 * dt / 2) a ptmp m;
          m = leapfrog_leapq ndim qtmp ptmp (s6_c7 * dt / 2) q12 m;
          to = to + s6_c7 * dt / 2;
          m = func to q12 a m;
          m = leapfrog_leapp ndim ptmp (s6_d7 * dt / 2) a p12 m;
          m = leapfrog_leapq ndim q12 p12 ((s6_c1 + s6_c8) * dt / 2) qtmp m;
          to = to + (s6_c1 + s6_c8) * dt / 2;
          m = func to qtmp a m;
          m = leapfrog_leapp ndim p12 (s6_d1 * dt / 2) a ptmp m;
          m = leapfrog_leapq ndim qtmp ptmp (s6_c2 * dt / 2) q12 m;
          to = to + s6_c2 * dt / 2;
          m = func to q12 a m;
          m = leapfrog_leapp ndim ptmp (s6_d2 * dt / 2) a p12 m;
          m = leapfrog_leapq ndim q12 p12 (s6_c3 * dt / 2) qtmp m;
          to = to + s6_c3 * dt / 2;
          m = func to qtmp a m;
          m = leapfrog_leapp ndim p12 (s6_d3 * dt / 2) a ptmp m;
          m = leapfrog_leapq ndim qtmp ptmp (s6_c4 * dt / 2) q12 m;
          to = to + s6_c4 * dt / 2;
          m = func to q12 a m;
          m = leapfrog_leapp ndim ptmp (s6_d4 * dt / 2) a p12 m;
          m = leapfrog_leapq ndim q12 p12 (s6_c5 * dt / 2) qtmp m;
          to = to + s6_c5 * dt / 2;
          m = func to qtmp a m;
          m = leapfrog_leapp ndim p12 (s6_d5 * dt / 2) a ptmp m;
          m = leapfrog_leapq ndim qtmp ptmp (s6_c6 * dt / 2) q12 m;
          to = to + s6_c6 * dt / 2;
          m = func to q12 a m;
          m = leapfrog_leapp ndim ptmp (s6_d6 * dt / 2) a p12 m;
          m = leapfrog_leapq ndim q12 p12 (s6_c7 * dt / 2) qtmp m;
          to = to + s6_c7 * dt / 2;
          m = func to qtmp a m;
          m = leapfrog_leapp ndim p12 (s6_d7 * dt / 2) a ptmp m;
          m = leapfrog_leapq ndim qtmp ptmp (s6_c8 * dt / 2) q12 m;
          to = to + s6_c8 * dt / 2;
          m = for_loop 0 ndim (\<lambda>ii m. m(p12 + ii := m (ptmp + ii))) m;
          err = 0;
          err = for_loop 0 ndim
                  (\<lambda>ii err.
                      let err = err + symplec6_err_term (m (q11 + ii) - m (q12 + ii))
                                        (m (scale + ii))
                      in err + symplec6_err_term (m (p11 + ii) - m (p12 + ii))
                                 (m (scale + ii + ndim))) err;
          err = sqrt (err / 2 / real_of_int ndim);
          to = to - dt
      in (err, to, m))"

definition symplec6_estimate_step ::
  "func_fn \<Rightarrow> int \<Rightarrow> addr \<Rightarrow> addr \<Rightarrow> real \<Rightarrow> addr \<Rightarrow> real \<Rightarrow> real
     \<Rightarrow> addr \<Rightarrow> addr \<Rightarrow> addr \<Rightarrow> addr \<Rightarrow> addr \<Rightarrow> addr \<Rightarrow> addr \<Rightarrow> addr \<Rightarrow> mem \<Rightarrow> (real \<times> mem) option" where
  "symplec6_estimate_step func ndim qo po dt t rtol atol q11 q12 p11 p12 qtmp ptmp a scale m =
     (let err = 2;
          to = m t;
          init_dt = dt;
          m = symplec6_estimate_scale ndim qo po rtol atol scale m;
          dt = dt * 2
      in case estimate_loop
                (symplec6_estimate_iter func ndim qo po q11 q12 p11 p12 qtmp ptmp a scale)
                init_dt dt err (to, m) of
           None \<Rightarrow> None
         | Some (dt, to, m) \<Rightarrow> Some (dt, m))"

subsection \<open>\<^verbatim>\<open>symplec6\<close> (lines 326-503)\<close>

text \<open>Lines 395-436, the stages that the inner loop and the last step share (445-482).\<close>

definition symplec6_stages ::
  "func_fn \<Rightarrow> int \<Rightarrow> real \<Rightarrow> addr \<Rightarrow> addr \<Rightarrow> addr \<Rightarrow> addr \<Rightarrow> addr \<Rightarrow> real \<Rightarrow> mem \<Rightarrow> real \<times> mem" where
  "symplec6_stages func ndim dt qo po q12 p12 a to m =
     (let m = func to q12 a m;
          m = leapfrog_leapp ndim po (s6_d1 * dt) a p12 m;
          m = leapfrog_leapq ndim q12 p12 (s6_c2 * dt) qo m;
          to = to + s6_c2 * dt;
          m = func to qo a m;
          m = leapfrog_leapp ndim p12 (s6_d2 * dt) a po m;
          m = leapfrog_leapq ndim qo po (s6_c3 * dt) q12 m;
          to = to + s6_c3 * dt;
          m = func to q12 a m;
          m = leapfrog_leapp ndim po (s6_d3 * dt) a p12 m;
          m = leapfrog_leapq ndim q12 p12 (s6_c4 * dt) qo m;
          to = to + s6_c4 * dt;
          m = func to qo a m;
          m = leapfrog_leapp ndim p12 (s6_d4 * dt) a po m;
          m = leapfrog_leapq ndim qo po (s6_c5 * dt) q12 m;
          to = to + s6_c5 * dt;
          m = func to q12 a m;
          m = leapfrog_leapp ndim po (s6_d5 * dt) a p12 m;
          m = leapfrog_leapq ndim q12 p12 (s6_c6 * dt) qo m;
          to = to + s6_c6 * dt;
          m = func to qo a m;
          m = leapfrog_leapp ndim p12 (s6_d6 * dt) a po m;
          m = leapfrog_leapq ndim qo po (s6_c7 * dt) q12 m;
          to = to + s6_c7 * dt;
          m = func to q12 a m;
          m = leapfrog_leapp ndim po (s6_d7 * dt) a p12 m
      in (to, m))"

text \<open>Lines 390-487: the sub-steps of one output interval.\<close>

definition symplec6_substeps ::
  "func_fn \<Rightarrow> int \<Rightarrow> real \<Rightarrow> int \<Rightarrow> addr \<Rightarrow> addr \<Rightarrow> addr \<Rightarrow> addr \<Rightarrow> addr \<Rightarrow> real \<Rightarrow> mem \<Rightarrow> real \<times> mem" where
  "symplec6_substeps func ndim dt ndt qo po q12 p12 a to m =
     (let m = leapfrog_leapq ndim qo po (s6_c1 * dt) q12 m;
          to = to + s6_c1 * dt;
          (to, m) = for_loop 0 (ndt - 1)
                      (\<lambda>jj (to, m).
                          let (to, m) = symplec6_stages func ndim dt qo po q12 p12 a to m;
                              m = leapfrog_leapq ndim q12 p12 ((s6_c8 + s6_c1) * dt) qo m;
                              to = to + (s6_c8 + s6_c1) * dt;
                              m = for_loop 0 ndim
                                    (\<lambda>kk m. let m = m(q12 + kk := m (qo + kk))
                                             in m(po + kk := m (p12 + kk))) m
                          in (to, m)) (to, m);
          (to, m) = symplec6_stages func ndim dt qo po q12 p12 a to m;
          m = leapfrog_leapq ndim q12 p12 (s6_c8 * dt) qo m;
          to = to + s6_c8 * dt;
          m = for_loop 0 ndim (\<lambda>kk m. m(po + kk := m (p12 + kk))) m
      in (to, m))"

definition symplec6_interval ::
  "func_fn \<Rightarrow> int \<Rightarrow> real \<Rightarrow> int \<Rightarrow> addr \<Rightarrow> addr \<Rightarrow> addr \<Rightarrow> addr \<Rightarrow> addr \<Rightarrow> run_state \<Rightarrow> run_state" where
  "symplec6_interval func ndim dt ndt qo po q12 p12 a s =
     (let (to, m) = symplec6_substeps func ndim dt ndt qo po q12 p12 a (st_to s) (st_mem s);
          m = save_qp ndim qo po (st_result s) m
      in s\<lparr>st_mem := m, st_to := to, st_result := st_result s + 2 * ndim\<rparr>)"

text \<open>
  Lines 350-374: everything before the loop. The blocks \<open>qo\<close>, \<open>po\<close>, \<open>q12\<close>, \<open>p12\<close>, \<open>a\<close>
  that \<^verbatim>\<open>symplec6\<close> allocates and the eight that its step-size search allocates (\<open>e_q11\<close>
  to \<open>e_scale\<close>) are parameters.
\<close>

definition symplec6_init ::
  "func_fn \<Rightarrow> int \<Rightarrow> addr \<Rightarrow> real \<Rightarrow> addr \<Rightarrow> real \<Rightarrow> real \<Rightarrow> addr
     \<Rightarrow> addr \<Rightarrow> addr \<Rightarrow> addr \<Rightarrow> addr \<Rightarrow> addr
     \<Rightarrow> addr \<Rightarrow> addr \<Rightarrow> addr \<Rightarrow> addr \<Rightarrow> addr \<Rightarrow> addr \<Rightarrow> addr \<Rightarrow> addr
     \<Rightarrow> int \<Rightarrow> mem \<Rightarrow> (real \<times> int \<times> run_state) option" where
  "symplec6_init func ndim yo dt t rtol atol result qo po q12 p12 a
       e_q11 e_q12 e_p11 e_p12 e_qtmp e_ptmp e_a e_scale interrupted m =
     (let m = for_loop 0 ndim
                (\<lambda>ii m. let m = m(qo + ii := m (yo + ii))
                         in m(po + ii := m (yo + ndim + ii))) m;
          m = save_qp ndim qo po result m;
          result = result + 2 * ndim;
          err = 0;
          init_dt = m (t + 1) - m t
      in case (if dt = - 9999.99
               then symplec6_estimate_step func ndim qo po init_dt t rtol atol
                      e_q11 e_q12 e_p11 e_p12 e_qtmp e_ptmp e_a e_scale m
               else Some (dt, m)) of
           None \<Rightarrow> None
         | Some (dt, m) \<Rightarrow>
             Some (dt, long_of_double (init_dt / dt),
                   \<lparr>st_mem = m, st_to = m t, st_result = result, st_err = err,
                    st_interrupted = interrupted\<rparr>))"

definition symplec6 ::
  "func_fn \<Rightarrow> int \<Rightarrow> addr \<Rightarrow> int \<Rightarrow> real \<Rightarrow> addr \<Rightarrow> real \<Rightarrow> real \<Rightarrow> addr
     \<Rightarrow> addr \<Rightarrow> addr \<Rightarrow> addr \<Rightarrow> addr \<Rightarrow> addr
     \<Rightarrow> addr \<Rightarrow> addr \<Rightarrow> addr \<Rightarrow> addr \<Rightarrow> addr \<Rightarrow> addr \<Rightarrow> addr \<Rightarrow> addr
     \<Rightarrow> (int \<Rightarrow> bool) \<Rightarrow> int \<Rightarrow> mem \<Rightarrow> run_state option" where
  "symplec6 func ndim yo nt dt t rtol atol result qo po q12 p12 a
       e_q11 e_q12 e_p11 e_p12 e_qtmp e_ptmp e_a e_scale sig interrupted m =
     (case symplec6_init func ndim yo dt t rtol atol result qo po q12 p12 a
             e_q11 e_q12 e_p11 e_p12 e_qtmp e_ptmp e_a e_scale interrupted m of
        None \<Rightarrow> None
      | Some (dt, ndt, s) \<Rightarrow>
          Some (output_loop sig nt (symplec6_interval func ndim dt ndt qo po q12 p12 a) 0 s))"

section \<open>The store when the search is called\<close>

text \<open>The store before the search is called (lines 130-133 and 235-238; 357-364).\<close>

definition before_search :: "int \<Rightarrow> addr \<Rightarrow> addr \<Rightarrow> bool \<Rightarrow> mem \<Rightarrow> mem" where
  "before_search ndim yo result construct_Lz m =
     (let m = save_result ndim yo result False m
      in if construct_Lz then m(yo + 2 := m (yo + 2) * m yo) else m)"

definition symplec6_before_search :: "int \<Rightarrow> addr \<Rightarrow> addr \<Rightarrow> addr \<Rightarrow> addr \<Rightarrow> mem \<Rightarrow> mem" where
  "symplec6_before_search ndim yo result qo po m =
     save_qp ndim qo po result
       (for_loop 0 ndim
          (\<lambda>ii m. let m = m(qo + ii := m (yo + ii)) in m(po + ii := m (yo + ndim + ii))) m)"

section \<open>Contracts of the callbacks and of the caller's buffers\<close>

text \<open>
  The specification (section 6) asks of every callback that it changes nothing outside
  the vectors it is given. \<open>writes_only f S\<close>: the store transformer \<open>f\<close> leaves every
  address outside \<open>S\<close> as it was.
\<close>

definition writes_only :: "(mem \<Rightarrow> mem) \<Rightarrow> addr set \<Rightarrow> bool" where
  "writes_only f S \<longleftrightarrow> (\<forall>m x. x \<notin> S \<longrightarrow> f m x = m x)"

definition drift_kick_frame :: "int \<Rightarrow> drift_fn \<Rightarrow> kick_fn \<Rightarrow> bool" where
  "drift_kick_frame ndim drift kick \<longleftrightarrow>
     (\<forall>dt y. writes_only (drift dt y) {y..<y + ndim}) \<and>
     (\<forall>dt t y. writes_only (kick dt t y) {y..<y + ndim})"

definition func_frame :: "int \<Rightarrow> func_fn \<Rightarrow> bool" where
  "func_frame ndim func \<longleftrightarrow> (\<forall>t q a. writes_only (func t q a) {a..<a + ndim})"

definition scaling_frame :: "int \<Rightarrow> scaling_fn \<Rightarrow> bool" where
  "scaling_frame ndim tol_scaling \<longleftrightarrow>
     (\<forall>yo res. writes_only (tol_scaling yo res) {res..<res + ndim})"

definition metric_frame :: "metric_fn \<Rightarrow> bool" where
  "metric_frame metric \<longleftrightarrow>
     (\<forall>ndim x y res. writes_only (metric ndim x y res) {res..<res + ndim})"

text \<open>
  The specification also asks that a callback be deterministic in its inputs: what
  \<^verbatim>\<open>drift\<close> and \<^verbatim>\<open>kick\<close> leave in the vector \<open>y\<close> depends on the store only through \<open>y\<close>,
  and what \<^verbatim>\<open>metric\<close> leaves in \<open>res\<close> only through \<open>x\<close> and \<open>y\<close> (for a \<open>res\<close> that overlaps
  neither).
\<close>

definition drift_kick_local :: "int \<Rightarrow> drift_fn \<Rightarrow> kick_fn \<Rightarrow> bool" where
  "drift_kick_local ndim drift kick \<longleftrightarrow>
     (\<forall>dt y m m'. (\<forall>i. 0 \<le> i \<and> i < ndim \<longrightarrow> m (y + i) = m' (y + i)) \<longrightarrow>
        (\<forall>i. 0 \<le> i \<and> i < ndim \<longrightarrow> drift dt y m (y + i) = drift dt y m' (y + i))) \<and>
     (\<forall>dt t y m m'. (\<forall>i. 0 \<le> i \<and> i < ndim \<longrightarrow> m (y + i) = m' (y + i)) \<longrightarrow>
        (\<forall>i. 0 \<le> i \<and> i < ndim \<longrightarrow> kick dt t y m (y + i) = kick dt t y m' (y + i)))"

text \<open>The blocks of \<open>n\<close> entries at \<open>p\<close> and of \<open>k\<close> entries at \<open>q\<close> do not overlap.\<close>

definition apart :: "addr \<Rightarrow> int \<Rightarrow> addr \<Rightarrow> int \<Rightarrow> bool" where
  "apart p n q k \<longleftrightarrow> p + n \<le> q \<or> q + k \<le> p"

definition metric_local :: "metric_fn \<Rightarrow> bool" where
  "metric_local metric \<longleftrightarrow>
     (\<forall>ndim x y res m m'. apart res ndim x ndim \<and> apart res ndim y ndim \<and>
        (\<forall>i. 0 \<le> i \<and> i < ndim \<longrightarrow> m (x + i) = m' (x + i) \<and> m (y + i) = m' (y + i)) \<longrightarrow>
        (\<forall>i. 0 \<le> i \<and> i < ndim \<longrightarrow>
           metric ndim x y res m (res + i) = metric ndim x y res m' (res + i)))"

text \<open>
  The blocks that a function allocates do not overlap the block of \<open>n\<close> entries at \<open>p\<close>:
  for the searches of schemes 1 and 2, for \<^verbatim>\<open>symplec6\<close> and for its search.
\<close>

definition estimate_blocks_apart ::
  "int \<Rightarrow> addr \<Rightarrow> addr \<Rightarrow> addr \<Rightarrow> addr \<Rightarrow> addr \<Rightarrow> addr \<Rightarrow> int \<Rightarrow> bool" where
  "estimate_blocks_apart ndim y11 y12 delta scaling scale2 p n \<longleftrightarrow>
     apart y11 ndim p n \<and> apart y12 ndim p n \<and> apart delta ndim p n \<and>
     apart scaling ndim p n \<and> apart scale2 ndim p n"

definition symplec6_blocks_apart ::
  "int \<Rightarrow> addr \<Rightarrow> addr \<Rightarrow> addr \<Rightarrow> addr \<Rightarrow> addr \<Rightarrow> addr \<Rightarrow> int \<Rightarrow> bool" where
  "symplec6_blocks_apart ndim qo po q12 p12 a p n \<longleftrightarrow>
     apart qo ndim p n \<and> apart po ndim p n \<and> apart q12 ndim p n \<and>
     apart p12 ndim p n \<and> apart a ndim p n"

definition symplec6_estimate_blocks_apart ::
  "int \<Rightarrow> addr \<Rightarrow> addr \<Rightarrow> addr \<Rightarrow> addr \<Rightarrow> addr \<Rightarrow> addr \<Rightarrow> addr \<Rightarrow> addr \<Rightarrow> addr \<Rightarrow> int \<Rightarrow> bool" where
  "symplec6_estimate_blocks_apart ndim q11 q12 p11 p12 qtmp ptmp a scale p n \<longleftrightarrow>
     apart q11 ndim p n \<and> apart q12 ndim p n \<and> apart p11 ndim p n \<and> apart p12 ndim p n \<and>
     apart qtmp ndim p n \<and> apart ptmp ndim p n \<and> apart a ndim p n \<and>
     apart scale (2 * ndim) p n"

text \<open>The five blocks of a search of scheme 1 or 2 overlap neither one another nor \<open>yo\<close>.\<close>

definition estimate_blocks_separate ::
  "int \<Rightarrow> addr \<Rightarrow> addr \<Rightarrow> addr \<Rightarrow> addr \<Rightarrow> addr \<Rightarrow> addr \<Rightarrow> bool" where
  "estimate_blocks_separate ndim yo y11 y12 delta scaling scale2 \<longleftrightarrow>
     estimate_blocks_apart ndim y11 y12 delta scaling scale2 yo ndim \<and>
     apart y11 ndim y12 ndim \<and> apart y11 ndim delta ndim \<and> apart y11 ndim scaling ndim \<and>
     apart y11 ndim scale2 ndim \<and> apart y12 ndim delta ndim \<and> apart y12 ndim scaling ndim \<and>
     apart y12 ndim scale2 ndim \<and> apart delta ndim scaling ndim \<and> apart delta ndim scale2 ndim \<and>
     apart scaling ndim scale2 ndim"

section \<open>What the specification says, and example callbacks\<close>

text \<open>
  The error of section 4.4: the mean over the components of the squared difference
  divided by the squared tolerance; this is its sum, read from the store that \<^verbatim>\<open>metric\<close>
  left.
\<close>

definition scaled_square_sum :: "int \<Rightarrow> addr \<Rightarrow> addr \<Rightarrow> mem \<Rightarrow> real" where
  "scaled_square_sum ndim delta scale2 m =
     (\<Sum>i\<in>{0..<ndim}. m (delta + i) * m (delta + i) / m (scale2 + i))"


text \<open>
  The search of section 4.4 of the specification: start from twice the initial guess and
  halve until the error that the pass \<open>iter\<close> returns is at most 1 or the cap is reached;
  the result is the \<open>dt\<close> reached then, after \<open>k\<close> passes, which is the initial guess times
  \<open>2\<close> to the power \<open>1 - k\<close>. The projection \<open>rest\<close> picks what the search hands back of
  its state. Whether the error that \<open>iter\<close> returns is the normalized error of the pass is
  a matter of \<open>iter\<close>.
\<close>

definition halving_search_spec ::
  "(real \<Rightarrow> real \<Rightarrow> 's \<Rightarrow> real \<times> 's) \<Rightarrow> real \<Rightarrow> 's \<Rightarrow> ('s \<Rightarrow> 'r) \<Rightarrow> (real \<times> 'r) option \<Rightarrow> bool" where
  "halving_search_spec iter init_dt s rest r \<longleftrightarrow>
     (\<exists>k\<le>15. \<exists>dt' err' s'.
        (estimate_pass iter ^^ k) (init_dt * 2, 2, s) = (dt', err', s') \<and>
        r = Some (dt', rest s') \<and>
        dt' = init_dt * 2 powr (1 - real k) \<and>
        \<not> (err' > 1 \<and> below_max_dt_reduce init_dt dt') \<and>
        (\<forall>j<k. estimate_continue init_dt ((estimate_pass iter ^^ j) (init_dt * 2, 2, s))))"

text \<open>
  The leapfrog interval of section 4.2 of the specification, in its words: a half drift,
  then \<open>ndt - 1\<close> times a kick at the midpoint of the sub-step and a full drift, then a
  last kick and a half drift. A sub-step is a call of \<^verbatim>\<open>drift\<close> or of \<^verbatim>\<open>kick\<close> on \<open>yo\<close>.
\<close>

datatype substep = Drift real | Kick real real

fun apply_substep :: "drift_fn \<Rightarrow> kick_fn \<Rightarrow> addr \<Rightarrow> substep \<Rightarrow> mem \<Rightarrow> mem" where
  "apply_substep drift kick yo (Drift dt) m = drift dt yo m"
| "apply_substep drift kick yo (Kick dt t) m = kick dt t yo m"

definition apply_substeps :: "drift_fn \<Rightarrow> kick_fn \<Rightarrow> addr \<Rightarrow> substep list \<Rightarrow> mem \<Rightarrow> mem" where
  "apply_substeps drift kick yo steps m = fold (apply_substep drift kick yo) steps m"

definition leapfrog_spec_substeps :: "real \<Rightarrow> real \<Rightarrow> int \<Rightarrow> substep list" where
  "leapfrog_spec_substeps dt to ndt =
     [Drift (dt / 2)] @
     concat (map (\<lambda>j. [Kick dt (to + real j * dt + dt / 2), Drift dt]) [0..<nat (ndt - 1)]) @
     [Kick dt (to + real (nat (ndt - 1)) * dt + dt / 2), Drift (dt / 2)]"

text \<open>
  The time at which a leapfrog interval that starts at \<open>to\<close> ends: \<open>dt\<close> is added once for
  every kick.
\<close>

definition leapfrog_interval_end :: "real \<Rightarrow> int \<Rightarrow> real \<Rightarrow> real" where
  "leapfrog_interval_end dt ndt to = to + real (nat (ndt - 1)) * dt + dt"

text \<open>
  The interval of the fourth-order scheme (section 4.3 of the specification): an
  elementary step is the drifts \<open>c1\<close>, \<open>c2\<close>, \<open>c3\<close>, \<open>c4\<close> with the kicks \<open>d1\<close>, \<open>d2\<close>, \<open>d3\<close>
  between them, each kick at the time the drifts before it have reached; the last drift
  of a step and the first of the next are fused into one drift \<open>c4 + c1\<close>. After the
  first drift an interval is \<open>ndt - 1\<close> blocks that end with the fused drift and one
  block that ends with the drift \<open>c4\<close>.
\<close>

definition symplec4_spec_block :: "real \<Rightarrow> real \<Rightarrow> real \<Rightarrow> substep list" where
  "symplec4_spec_block dt c_last tk =
     [Kick (s4_d1 * dt) tk, Drift (s4_c2 * dt),
      Kick (s4_d2 * dt) (tk + s4_c2 * dt), Drift (s4_c3 * dt),
      Kick (s4_d3 * dt) (tk + s4_c2 * dt + s4_c3 * dt), Drift (c_last * dt)]"

definition symplec4_spec_substeps :: "real \<Rightarrow> real \<Rightarrow> int \<Rightarrow> substep list" where
  "symplec4_spec_substeps dt to ndt =
     [Drift (s4_c1 * dt)] @
     concat (map (\<lambda>j. symplec4_spec_block dt s4_c41
                        (to + s4_c1 * dt + real j * ((s4_c2 + s4_c3 + s4_c41) * dt)))
               [0..<nat (ndt - 1)]) @
     symplec4_spec_block dt s4_c4
       (to + s4_c1 * dt + real (nat (ndt - 1)) * ((s4_c2 + s4_c3 + s4_c41) * dt))"

definition symplec4_interval_end :: "real \<Rightarrow> int \<Rightarrow> real \<Rightarrow> real" where
  "symplec4_interval_end dt ndt to =
     to + s4_c1 * dt + real (nat (ndt - 1)) * ((s4_c2 + s4_c3 + s4_c41) * dt)
        + s4_c2 * dt + s4_c3 * dt + s4_c4 * dt"

text \<open>
  The sub-steps of \<open>n\<close> consecutive intervals, the first starting at \<open>to\<close> and each of the
  others at the time \<open>next_to\<close> gives for the end of the one before.
\<close>

definition intervals_substeps ::
  "(real \<Rightarrow> substep list) \<Rightarrow> (real \<Rightarrow> real) \<Rightarrow> real \<Rightarrow> nat \<Rightarrow> substep list" where
  "intervals_substeps steps next_to to n = concat (map (\<lambda>j. steps ((next_to ^^ j) to)) [0..<n])"



text \<open>
  A harmonic oscillator (\<open>y = [q, p]\<close>, acceleration \<open>- q\<close>) as \<^verbatim>\<open>drift\<close>/\<^verbatim>\<open>kick\<close> pair and
  as \<^verbatim>\<open>func\<close>, a scaling that is 1 in the first two components, and the componentwise
  difference as metric: concrete callbacks on which the theorems are tried.
\<close>

definition osc_drift :: drift_fn where
  "osc_drift dt y m = m(y := m y + dt * m (y + 1))"

definition osc_kick :: kick_fn where
  "osc_kick dt t y m = m(y + 1 := m (y + 1) - dt * m y)"

definition osc_func :: func_fn where
  "osc_func t q a m = m(a := - m q)"

definition unit_scaling :: scaling_fn where
  "unit_scaling yo res m = (m(res := 1))(res + 1 := 1)"

definition diff_metric :: metric_fn where
  "diff_metric ndim x y res m = for_loop 0 ndim (\<lambda>ii m. m(res + ii := m (x + ii) - m (y + ii))) m"

text \<open>
  The oscillator's pair \<open>(q, p)\<close> stored at \<open>y\<close>, its drift and kick as maps of the pair,
  and one step of the fourth-order scheme as lines 607-626 apply it to \<open>y11\<close>, two steps
  of half the size as lines 630-652 apply them to \<open>y12\<close> (the argument \<open>dt2\<close> is the halved
  step).
\<close>

definition qp_at :: "addr \<Rightarrow> mem \<Rightarrow> real \<times> real" where
  "qp_at y m = (m y, m (y + 1))"

definition osc_drift_qp :: "real \<Rightarrow> real \<times> real \<Rightarrow> real \<times> real" where
  "osc_drift_qp dt y = (fst y + dt * snd y, snd y)"

definition osc_kick_qp :: "real \<Rightarrow> real \<times> real \<Rightarrow> real \<times> real" where
  "osc_kick_qp dt y = (fst y, snd y - dt * fst y)"

definition osc_symplec4_one :: "real \<Rightarrow> real \<times> real \<Rightarrow> real \<times> real" where
  "osc_symplec4_one dt y =
     osc_drift_qp (s4_c4 * dt) (osc_kick_qp (s4_d3 * dt) (osc_drift_qp (s4_c3 * dt)
       (osc_kick_qp (s4_d2 * dt) (osc_drift_qp (s4_c2 * dt) (osc_kick_qp (s4_d1 * dt)
         (osc_drift_qp (s4_c1 * dt) y))))))"

definition osc_symplec4_two :: "real \<Rightarrow> real \<times> real \<Rightarrow> real \<times> real" where
  "osc_symplec4_two dt2 y =
     osc_drift_qp (s4_c4 * dt2) (osc_kick_qp (s4_d3 * dt2) (osc_drift_qp (s4_c3 * dt2)
       (osc_kick_qp (s4_d2 * dt2) (osc_drift_qp (s4_c2 * dt2) (osc_kick_qp (s4_d1 * dt2)
         (osc_drift_qp (s4_c41 * dt2) (osc_kick_qp (s4_d3 * dt2) (osc_drift_qp (s4_c3 * dt2)
           (osc_kick_qp (s4_d2 * dt2) (osc_drift_qp (s4_c2 * dt2) (osc_kick_qp (s4_d1 * dt2)
             (osc_drift_qp (s4_c1 * dt2) y))))))))))))"

text \<open>
  A store for the examples: zero everywhere but \<open>yo[0] = 1\<close> at address 0 (the oscillator
  at \<open>q = 1\<close>, \<open>p = 0\<close>) and \<open>t[1] = 1\<close> at address 11 (output times \<open>0\<close> and \<open>1\<close> at 10).
\<close>

definition osc_store :: mem where
  "osc_store = (\<lambda>x. 0)(0 := 1, 11 := 1)"

text \<open>The oscillator at rest at the origin, with output times \<open>0\<close> and \<open>1\<close> at address 10.\<close>

definition rest_store :: mem where
  "rest_store = (\<lambda>x. 0)(11 := 1)"

text \<open>Signal schedules: SIGINT before the poll of interval \<open>k\<close> only, and never.\<close>

definition sigint_at :: "int \<Rightarrow> int \<Rightarrow> bool" where
  "sigint_at k ii \<longleftrightarrow> ii = k"

definition no_sigint :: "int \<Rightarrow> bool" where
  "no_sigint ii \<longleftrightarrow> False"

section \<open>Properties\<close>

lemma for_loop_done: "n \<le> ii \<Longrightarrow> for_loop ii n body s = s"
  by (simp add: for_loop.simps)

lemma for_loop_step: "ii < n \<Longrightarrow> for_loop ii n body s = for_loop (ii + 1) n body (body ii s)"
  by (subst for_loop.simps) simp

lemma for_loop_invariant:
  assumes "I s" and "\<And>jj s. ii \<le> jj \<Longrightarrow> jj < n \<Longrightarrow> I s \<Longrightarrow> I (body jj s)"
  shows "I (for_loop ii n body s)"
  using assms
proof (induction ii n body s rule: for_loop.induct)
  case (1 ii n body s)
  show ?case
  proof (cases "ii < n")
    case True
    have "I (for_loop (ii + 1) n body (body ii s))"
      by (rule "1.IH") (use True "1.prems" in auto)
    with True show ?thesis by (simp add: for_loop_step)
  next
    case False
    with "1.prems" show ?thesis by (simp add: for_loop_done)
  qed
qed

subsection \<open>Loops that write one entry per iteration\<close>

lemma for_loop_other:
  assumes "\<And>jj m. ii \<le> jj \<Longrightarrow> jj < n \<Longrightarrow> body jj m x = m x"
  shows "for_loop ii n body m x = (m::mem) x"
  by (rule for_loop_invariant [where I = "\<lambda>m'. m' x = m x"]) (simp_all add: assms)

lemma for_loop_write:
  assumes "lo \<le> i" and "i < n"
    and "\<And>j m v. lo \<le> j \<Longrightarrow> j < i \<Longrightarrow> g i (m(dst + j := v)) = g i m"
  shows "for_loop lo n (\<lambda>ii m. m(dst + ii := g ii m)) m (dst + i) = g i (m::mem)"
  using assms
proof (induction lo n "\<lambda>ii (m::mem). m(dst + ii := g ii m)" m rule: for_loop.induct)
  case (1 lo n m)
  let ?body = "\<lambda>ii (m::mem). m(dst + ii := g ii m)"
  from "1.prems" have lt: "lo < n" by simp
  show ?case
  proof (cases "i = lo")
    case True
    have "for_loop (lo + 1) n ?body (?body lo m) (dst + lo) = ?body lo m (dst + lo)"
      by (rule for_loop_other) simp
    with lt True show ?thesis by (simp add: for_loop_step)
  next
    case False
    with "1.prems" have "lo + 1 \<le> i" by simp
    then have "for_loop (lo + 1) n ?body (?body lo m) (dst + i) = g i (?body lo m)"
      using "1.prems" lt by (intro "1.hyps") auto
    also have "\<dots> = g i m"
      using "1.prems" False by (intro "1.prems"(3)) auto
    finally show ?thesis using lt by (simp add: for_loop_step)
  qed
qed

lemma leapfrog_leapq_frame:
  "x < qn \<or> qn + ndim \<le> x \<Longrightarrow> leapfrog_leapq ndim q p dt qn m x = m x"
  unfolding leapfrog_leapq_def by (rule for_loop_other) auto

lemma leapfrog_leapq_value:
  assumes "0 \<le> i" "i < ndim"
    and "qn = q \<or> qn + ndim \<le> q \<or> q + ndim \<le> qn"
    and "qn = p \<or> qn + ndim \<le> p \<or> p + ndim \<le> qn"
  shows "leapfrog_leapq ndim q p dt qn m (qn + i) = m (q + i) + dt * m (p + i)"
  unfolding leapfrog_leapq_def
  by (rule for_loop_write [where g = "\<lambda>ii m. m (q + ii) + dt * m (p + ii)"]) (use assms in auto)

lemma leapfrog_leapp_frame:
  "x < pn \<or> pn + ndim \<le> x \<Longrightarrow> leapfrog_leapp ndim p dt a pn m x = m x"
  unfolding leapfrog_leapp_def by (rule for_loop_other) auto

lemma leapfrog_leapp_value:
  assumes "0 \<le> i" "i < ndim"
    and "pn = p \<or> pn + ndim \<le> p \<or> p + ndim \<le> pn"
    and "pn = a \<or> pn + ndim \<le> a \<or> a + ndim \<le> pn"
  shows "leapfrog_leapp ndim p dt a pn m (pn + i) = m (p + i) + dt * m (a + i)"
  unfolding leapfrog_leapp_def
  by (rule for_loop_write [where g = "\<lambda>ii m. m (p + ii) + dt * m (a + ii)"]) (use assms in auto)

subsection \<open>The vector primitives\<close>

text \<open>
  Claim C7. For every \<open>ndim\<close>, \<^verbatim>\<open>leapfrog_leapq\<close> leaves \<open>q[i] + dt * p[i]\<close> in \<open>qn[i]\<close> and
  \<^verbatim>\<open>leapfrog_leapp\<close> leaves \<open>p[i] + dt * a[i]\<close> in \<open>pn[i]\<close>, for every \<open>i\<close> below \<open>ndim\<close>, and
  neither changes the store outside its output vector. The output vector may be one of
  the input vectors (the update in place) or must not overlap them.
\<close>

theorem vector_primitives:
  assumes "qn = q \<or> qn + ndim \<le> q \<or> q + ndim \<le> qn"
    and "qn = p \<or> qn + ndim \<le> p \<or> p + ndim \<le> qn"
    and "pn = p' \<or> pn + ndim \<le> p' \<or> p' + ndim \<le> pn"
    and "pn = a \<or> pn + ndim \<le> a \<or> a + ndim \<le> pn"
  shows "(\<forall>i. 0 \<le> i \<and> i < ndim \<longrightarrow>
            leapfrog_leapq ndim q p dt qn m (qn + i) = m (q + i) + dt * m (p + i)) \<and>
         (\<forall>x. x < qn \<or> qn + ndim \<le> x \<longrightarrow> leapfrog_leapq ndim q p dt qn m x = m x) \<and>
         (\<forall>i. 0 \<le> i \<and> i < ndim \<longrightarrow>
            leapfrog_leapp ndim p' dt a pn m (pn + i) = m (p' + i) + dt * m (a + i)) \<and>
         (\<forall>x. x < pn \<or> pn + ndim \<le> x \<longrightarrow> leapfrog_leapp ndim p' dt a pn m x = m x)"
  using assms
  by (simp add: leapfrog_leapq_value leapfrog_leapq_frame leapfrog_leapp_value leapfrog_leapp_frame)

theorem vector_primitives_witness:
  "leapfrog_leapq 2 0 2 (1/2) 0 (\<lambda>x. real_of_int x) 1 = 1 + 1/2 * 3 \<and>
   leapfrog_leapq 2 0 2 (1/2) 0 (\<lambda>x. real_of_int x) 2 = 2 \<and>
   leapfrog_leapp 2 2 (1/2) 4 6 (\<lambda>x. real_of_int x) 7 = 3 + 1/2 * 5 \<and>
   leapfrog_leapp 2 2 (1/2) 4 6 (\<lambda>x. real_of_int x) 3 = 3"
proof -
  note v = vector_primitives [of 0 0 2 2 6 2 4 "1/2" "\<lambda>x. real_of_int x", simplified]
  from v have "leapfrog_leapq 2 0 2 (1/2) 0 (\<lambda>x. real_of_int x) 1 = 1 + 1/2 * 3"
    by (elim conjE allE [of _ 1]) simp
  moreover from v have "leapfrog_leapq 2 0 2 (1/2) 0 (\<lambda>x. real_of_int x) 2 = 2"
    by (elim conjE allE [of _ 2]) simp
  moreover from v have "leapfrog_leapp 2 2 (1/2) 4 6 (\<lambda>x. real_of_int x) 7 = 3 + 1/2 * 5"
    by (elim conjE allE [of _ 1]) simp
  moreover from v have "leapfrog_leapp 2 2 (1/2) 4 6 (\<lambda>x. real_of_int x) 3 = 3"
    by (elim conjE allE [of _ 3]) simp
  ultimately show ?thesis by blast
qed

subsection \<open>The loop of the step-size searches ends\<close>

lemma estimate_loop_stop:
  "\<not> estimate_continue init_dt (dt, err, s) \<Longrightarrow> estimate_loop iter init_dt dt err s = Some (dt, s)"
  by (subst estimate_loop.simps) (auto simp: estimate_continue_def)

lemma estimate_loop_pass:
  "estimate_continue init_dt (dt, err, s) \<Longrightarrow> estimate_pass iter (dt, err, s) = (dt', err', s') \<Longrightarrow>
     estimate_loop iter init_dt dt err s = estimate_loop iter init_dt dt' err' s'"
  by (subst estimate_loop.simps) (auto simp: estimate_continue_def estimate_pass_def split: prod.splits)

lemma estimate_loop_bounded:
  assumes "dt = 0 \<or> MAX_DT_REDUCE \<le> init_dt / dt * 2 ^ n"
  shows "\<exists>k\<le>n. \<exists>dt' err' s'.
           (estimate_pass iter ^^ k) (dt, err, s) = (dt', err', s') \<and>
           estimate_loop iter init_dt dt err s = Some (dt', s') \<and>
           dt' = dt / 2 ^ k \<and>
           \<not> estimate_continue init_dt (dt', err', s') \<and>
           (\<forall>j<k. estimate_continue init_dt ((estimate_pass iter ^^ j) (dt, err, s)))"
  using assms
proof (induction n arbitrary: dt err s)
  case 0
  then have "\<not> estimate_continue init_dt (dt, err, s)"
    by (auto simp: estimate_continue_def below_max_dt_reduce_def)
  then show ?case by (simp add: estimate_loop_stop)
next
  case (Suc n)
  show ?case
  proof (cases "estimate_continue init_dt (dt, err, s)")
    case False
    then have "(estimate_pass iter ^^ 0) (dt, err, s) = (dt, err, s) \<and>
           estimate_loop iter init_dt dt err s = Some (dt, s) \<and> dt = dt / 2 ^ 0 \<and>
           \<not> estimate_continue init_dt (dt, err, s) \<and>
           (\<forall>j<0::nat. estimate_continue init_dt ((estimate_pass iter ^^ j) (dt, err, s)))"
      by (simp add: estimate_loop_stop)
    then show ?thesis by blast
  next
    case True
    obtain err1 s1 where it: "iter (dt / 2) err s = (err1, s1)" by (cases "iter (dt / 2) err s")
    then have pass: "estimate_pass iter (dt, err, s) = (dt / 2, err1, s1)"
      by (simp add: estimate_pass_def)
    from True have "dt \<noteq> 0" by (simp add: estimate_continue_def below_max_dt_reduce_def)
    with Suc.prems have "MAX_DT_REDUCE \<le> init_dt / (dt / 2) * 2 ^ n" by (simp add: field_simps)
    then have "dt / 2 = 0 \<or> MAX_DT_REDUCE \<le> init_dt / (dt / 2) * 2 ^ n" ..
    from Suc.IH [OF this, of err1 s1]
    obtain k dt' err' s' where k: "k \<le> n"
      and run: "(estimate_pass iter ^^ k) (dt / 2, err1, s1) = (dt', err', s')"
      and res: "estimate_loop iter init_dt (dt / 2) err1 s1 = Some (dt', s')"
      and dt': "dt' = dt / 2 / 2 ^ k"
      and stop: "\<not> estimate_continue init_dt (dt', err', s')"
      and cont: "\<forall>j<k. estimate_continue init_dt ((estimate_pass iter ^^ j) (dt / 2, err1, s1))"
      by blast
    have shift: "(estimate_pass iter ^^ Suc j) (dt, err, s) = (estimate_pass iter ^^ j) (dt / 2, err1, s1)" for j
      by (simp add: funpow_Suc_right pass del: funpow.simps)
    have "\<forall>j<Suc k. estimate_continue init_dt ((estimate_pass iter ^^ j) (dt, err, s))"
    proof (intro allI impI)
      fix j assume "j < Suc k"
      show "estimate_continue init_dt ((estimate_pass iter ^^ j) (dt, err, s))"
      proof (cases j)
        case 0
        with True show ?thesis by simp
      next
        case (Suc j')
        with \<open>j < Suc k\<close> cont shift [of j'] show ?thesis by simp
      qed
    qed
    moreover have "estimate_loop iter init_dt dt err s = Some (dt', s')"
      using estimate_loop_pass [OF True pass] res by simp
    moreover have "(estimate_pass iter ^^ Suc k) (dt, err, s) = (dt', err', s')"
      using shift [of k] run by simp
    moreover have "dt' = dt / 2 ^ Suc k" using dt' by simp
    ultimately have "Suc k \<le> Suc n \<and> (\<exists>dt'' err'' s''.
           (estimate_pass iter ^^ Suc k) (dt, err, s) = (dt'', err'', s'') \<and>
           estimate_loop iter init_dt dt err s = Some (dt'', s'') \<and>
           dt'' = dt / 2 ^ Suc k \<and>
           \<not> estimate_continue init_dt (dt'', err'', s'') \<and>
           (\<forall>j<Suc k. estimate_continue init_dt ((estimate_pass iter ^^ j) (dt, err, s))))"
      using k stop by blast
    then show ?thesis by blast
  qed
qed

text \<open>From the entry of a search (\<open>dt\<close> doubled, \<open>err = 2\<close>) at most fifteen passes are made.\<close>

lemma estimate_loop_entry:
  "\<exists>k\<le>15. \<exists>dt' err' s'.
     (estimate_pass iter ^^ k) (init_dt * 2, 2, s) = (dt', err', s') \<and>
     estimate_loop iter init_dt (init_dt * 2) 2 s = Some (dt', s') \<and>
     dt' = init_dt * 2 / 2 ^ k \<and>
     \<not> estimate_continue init_dt (dt', err', s') \<and>
     (\<forall>j<k. estimate_continue init_dt ((estimate_pass iter ^^ j) (init_dt * 2, 2, s)))"
  by (rule estimate_loop_bounded) (simp add: MAX_DT_REDUCE_def)

lemma estimate_pass_funpow_invariant:
  assumes "I s" and "\<And>dt err s. I s \<Longrightarrow> I (snd (iter dt err s))"
  shows "I (snd (snd ((estimate_pass iter ^^ k) (dt, err, s))))"
proof (induction k)
  case 0
  with assms show ?case by simp
next
  case (Suc k)
  obtain dt' err' s' where st: "(estimate_pass iter ^^ k) (dt, err, s) = (dt', err', s')"
    by (cases "(estimate_pass iter ^^ k) (dt, err, s)")
  with Suc have "I s'" by simp
  then have "I (snd (iter (dt' / 2) err' s'))" by (rule assms(2))
  moreover have "(estimate_pass iter ^^ Suc k) (dt, err, s) = estimate_pass iter (dt', err', s')"
    by (simp add: st)
  moreover have "snd (snd (estimate_pass iter (dt', err', s'))) = snd (iter (dt' / 2) err' s')"
    by (cases "iter (dt' / 2) err' s'") (simp add: estimate_pass_def)
  ultimately show ?case by simp
qed

subsection \<open>The three searches\<close>

lemma two_powr_one_minus: "(2::real) powr (1 - real k) = 2 / 2 ^ k"
  by (simp add: powr_diff powr_realpow)

lemma halving_search_specI:
  "halving_search_spec iter init_dt s rest
     (map_option (\<lambda>(dt, s). (dt, rest s)) (estimate_loop iter init_dt (init_dt * 2) 2 s))"
proof -
  from estimate_loop_entry [of iter init_dt s]
  obtain k dt' err' s' where "k \<le> 15"
    and "(estimate_pass iter ^^ k) (init_dt * 2, 2, s) = (dt', err', s')"
    and "estimate_loop iter init_dt (init_dt * 2) 2 s = Some (dt', s')"
    and "dt' = init_dt * 2 / 2 ^ k"
    and "\<not> estimate_continue init_dt (dt', err', s')"
    and "\<forall>j<k. estimate_continue init_dt ((estimate_pass iter ^^ j) (init_dt * 2, 2, s))"
    by blast
  then show ?thesis
    unfolding halving_search_spec_def
    by (intro exI [of _ k] exI [of _ dt'] exI [of _ err'] exI [of _ s'])
       (simp add: two_powr_one_minus estimate_continue_def)
qed

lemma halving_search_specD:
  assumes "halving_search_spec iter init_dt s rest r"
  shows "\<exists>k\<le>15. \<exists>x. r = Some (init_dt * 2 powr (1 - real k), x)"
proof -
  from assms obtain k dt' s' where "k \<le> 15" "r = Some (dt', rest s')"
    "dt' = init_dt * 2 powr (1 - real k)"
    unfolding halving_search_spec_def by blast
  then show ?thesis by blast
qed

text \<open>
  Each of the three searches doubles the initial step and then halves it pass by pass; it
  stops at the first pass after which the loop's variable \<^verbatim>\<open>err\<close> is at most 1 or the
  quotient \<open>init_dt / dt\<close> has reached \<open>10000\<close>, which happens after at most fifteen passes,
  and returns the \<open>dt\<close> reached, the initial step times \<open>2\<close> to the power \<open>1 - k\<close>. In
  \<^verbatim>\<open>leapfrog_estimate_step\<close> the variable \<^verbatim>\<open>err\<close> is the normalized error of the pass; in
  \<^verbatim>\<open>symplec4_estimate_step\<close> it is not (see the last sections).
\<close>

theorem estimate_step_halving:
  "halving_search_spec
     (leapfrog_estimate_iter drift kick ndim yo (m t) metric y11 y12 delta scale2) dt
     (leapfrog_estimate_scale ndim yo rtol atol tol_scaling scaling scale2 m) (\<lambda>m. m)
     (leapfrog_estimate_step drift kick ndim yo dt t rtol atol tol_scaling metric
        y11 y12 delta scaling scale2 m) \<and>
   halving_search_spec
     (symplec4_estimate_iter drift kick ndim yo t metric y11 y12 delta scale2) dt
     (symplec4_estimate_scale ndim yo rtol atol tol_scaling scaling scale2 m) (\<lambda>m. m)
     (symplec4_estimate_step drift kick ndim yo dt t rtol atol tol_scaling metric
        y11 y12 delta scaling scale2 m) \<and>
   halving_search_spec
     (symplec6_estimate_iter func ndim qo po q11 q12 p11 p12 qtmp ptmp a scale) dt
     (m t, symplec6_estimate_scale ndim qo po rtol atol scale m) snd
     (symplec6_estimate_step func ndim qo po dt t rtol atol q11 q12 p11 p12 qtmp ptmp a scale m)"
proof (intro conjI)
  show "halving_search_spec
     (leapfrog_estimate_iter drift kick ndim yo (m t) metric y11 y12 delta scale2) dt
     (leapfrog_estimate_scale ndim yo rtol atol tol_scaling scaling scale2 m) (\<lambda>m. m)
     (leapfrog_estimate_step drift kick ndim yo dt t rtol atol tol_scaling metric
        y11 y12 delta scaling scale2 m)"
    using halving_search_specI
      [of "leapfrog_estimate_iter drift kick ndim yo (m t) metric y11 y12 delta scale2" dt
          "leapfrog_estimate_scale ndim yo rtol atol tol_scaling scaling scale2 m" "\<lambda>m. m"]
    by (simp add: leapfrog_estimate_step_def option.map_id)
  show "halving_search_spec
     (symplec4_estimate_iter drift kick ndim yo t metric y11 y12 delta scale2) dt
     (symplec4_estimate_scale ndim yo rtol atol tol_scaling scaling scale2 m) (\<lambda>m. m)
     (symplec4_estimate_step drift kick ndim yo dt t rtol atol tol_scaling metric
        y11 y12 delta scaling scale2 m)"
    using halving_search_specI
      [of "symplec4_estimate_iter drift kick ndim yo t metric y11 y12 delta scale2" dt
          "symplec4_estimate_scale ndim yo rtol atol tol_scaling scaling scale2 m" "\<lambda>m. m"]
    by (simp add: symplec4_estimate_step_def option.map_id)
  show "halving_search_spec
     (symplec6_estimate_iter func ndim qo po q11 q12 p11 p12 qtmp ptmp a scale) dt
     (m t, symplec6_estimate_scale ndim qo po rtol atol scale m) snd
     (symplec6_estimate_step func ndim qo po dt t rtol atol q11 q12 p11 p12 qtmp ptmp a scale m)"
    using halving_search_specI
      [of "symplec6_estimate_iter func ndim qo po q11 q12 p11 p12 qtmp ptmp a scale" dt
          "(m t, symplec6_estimate_scale ndim qo po rtol atol scale m)" snd]
    by (auto simp: symplec6_estimate_step_def map_option_case split: option.splits)
qed

theorem estimate_step_halving_witness:
  "(\<exists>k\<le>15. \<exists>m'. leapfrog_estimate_step osc_drift osc_kick 2 0 1 10 0 0 unit_scaling diff_metric
                      20 22 24 26 28 osc_store = Some (1 * 2 powr (1 - real k), m')) \<and>
   (\<exists>k\<le>15. \<exists>m'. symplec4_estimate_step osc_drift osc_kick 2 0 1 10 0 0 unit_scaling diff_metric
                      20 22 24 26 28 osc_store = Some (1 * 2 powr (1 - real k), m')) \<and>
   (\<exists>k\<le>15. \<exists>m'. symplec6_estimate_step osc_func 2 0 2 1 10 0 0 20 22 24 26 28 30 32 34
                      osc_store = Some (1 * 2 powr (1 - real k), m'))"
proof -
  note w = estimate_step_halving [of osc_drift osc_kick 2 0 osc_store 10 diff_metric
          20 22 24 28 1 0 0 unit_scaling 26 osc_func 0 2 20 22 24 26 28 30 32 34]
  show ?thesis
    by (intro conjI halving_search_specD [OF w [THEN conjunct1]]
          halving_search_specD [OF w [THEN conjunct2, THEN conjunct1]]
          halving_search_specD [OF w [THEN conjunct2, THEN conjunct2]])
qed

subsection \<open>The scale of the searches for schemes 1 and 2\<close>

lemma estimate_scale_loop:
  assumes "0 \<le> i" "i < ndim" "scale2 + ndim \<le> scaling \<or> scaling + ndim \<le> scale2"
  shows "for_loop 0 ndim
           (\<lambda>ii m. m(scale2 + ii := (exp atol + exp rtol * m (scaling + ii)) ^ 2)) m (scale2 + i)
         = (exp (atol::real) + exp rtol * (m::mem) (scaling + i)) ^ 2"
  by (rule for_loop_write [where g = "\<lambda>ii (m::mem). (exp atol + exp rtol * m (scaling + ii)) ^ 2"])
     (use assms in auto)

text \<open>
  In \<^verbatim>\<open>leapfrog_estimate_step\<close> and \<^verbatim>\<open>symplec4_estimate_step\<close> the entry \<open>i\<close> of \<open>scale2\<close> is
  the square of \<open>exp atol + exp rtol * scaling\<^sub>i\<close>, where \<open>scaling\<^sub>i\<close> is what \<^verbatim>\<open>tol_scaling\<close>
  wrote for the initial state. (The blocks \<open>scaling\<close> and \<open>scale2\<close> do not overlap.)
\<close>

lemma estimate_scale_value:
  assumes "0 \<le> i" "i < ndim" "scale2 + ndim \<le> scaling \<or> scaling + ndim \<le> scale2"
  shows "leapfrog_estimate_scale ndim yo rtol atol tol_scaling scaling scale2 m (scale2 + i)
           = (exp atol + exp rtol * tol_scaling yo scaling m (scaling + i)) ^ 2 \<and>
         symplec4_estimate_scale ndim yo rtol atol tol_scaling scaling scale2 m (scale2 + i)
           = (exp atol + exp rtol * tol_scaling yo scaling m (scaling + i)) ^ 2"
  using assms
  by (simp add: leapfrog_estimate_scale_def symplec4_estimate_scale_def estimate_scale_loop)

subsection \<open>The leapfrog interval\<close>

lemma apply_substeps_append:
  "apply_substeps drift kick yo (xs @ ys) m =
     apply_substeps drift kick yo ys (apply_substeps drift kick yo xs m)"
  by (simp add: apply_substeps_def)





lemma pairs_Suc:
  "concat (map (\<lambda>j. [Kick dt (to + real j * dt + dt / 2), Drift dt]) [0..<Suc k]) =
     [Kick dt (to + dt / 2), Drift dt] @
     concat (map (\<lambda>j. [Kick dt (to + dt + real j * dt + dt / 2), Drift dt]) [0..<k])"
proof -
  have "[0..<Suc k] = 0 # map Suc [0..<k]"
    by (simp add: upt_conv_Cons map_Suc_upt del: upt_Suc)
  then show ?thesis
    by (simp add: comp_def algebra_simps del: upt_Suc)
qed

lemma leapfrog_inner_loop:
  "for_loop lo (lo + int k)
     (\<lambda>jj (to, m).
         let m = kick dt (to + dt / 2) yo m;
             m = drift dt yo m;
             to = to + dt
         in (to, m)) (to, m) =
   (to + real k * dt,
    apply_substeps drift kick yo
      (concat (map (\<lambda>j. [Kick dt (to + real j * dt + dt / 2), Drift dt]) [0..<k])) m)"
  (is "for_loop _ _ ?body _ = _")
proof (induction k arbitrary: lo to m)
  case 0
  show ?case by (simp add: for_loop_done apply_substeps_def)
next
  case (Suc k)
  let ?m = "drift dt yo (kick dt (to + dt / 2) yo m)"
  have "for_loop lo (lo + int (Suc k)) ?body (to, m)
          = for_loop (lo + 1) (lo + 1 + int k) ?body (to + dt, ?m)"
    by (subst for_loop_step) (simp_all add: add.commute add.left_commute)
  also have "\<dots> = (to + dt + real k * dt,
      apply_substeps drift kick yo
        (concat (map (\<lambda>j. [Kick dt (to + dt + real j * dt + dt / 2), Drift dt]) [0..<k])) ?m)"
    by (rule Suc.IH)
  also have "to + dt + real k * dt = to + real (Suc k) * dt"
    by (simp add: algebra_simps)
  also have "?m = apply_substeps drift kick yo [Kick dt (to + dt / 2), Drift dt] m"
    by (simp add: apply_substeps_def)
  finally show ?case
    by (simp only: pairs_Suc apply_substeps_append)
qed





subsection \<open>The loop over the output intervals\<close>

lemma output_loop_done: "nt - 1 \<le> ii \<Longrightarrow> output_loop sig nt interval ii s = s"
  by (simp add: output_loop.simps)

lemma output_loop_break:
  "ii < nt - 1 \<Longrightarrow> sig ii \<or> st_interrupted s \<noteq> 0 \<Longrightarrow>
     output_loop sig nt interval ii s = s\<lparr>st_err := - 10, st_interrupted := 0\<rparr>"
  by (subst output_loop.simps) (auto simp: handle_sigint_def)

lemma output_loop_step:
  "ii < nt - 1 \<Longrightarrow> \<not> sig ii \<Longrightarrow> st_interrupted s = 0 \<Longrightarrow>
     output_loop sig nt interval ii s = output_loop sig nt interval (ii + 1) (interval s)"
  by (subst output_loop.simps) simp

lemma output_loop_interrupt:
  assumes "st_interrupted s = 0"
    and "\<And>s. st_interrupted (interval s) = st_interrupted s"
    and "\<forall>j. ii \<le> j \<and> j < ii + int n \<longrightarrow> \<not> sig j"
    and "sig (ii + int n)" and "ii + int n < nt - 1"
  shows "output_loop sig nt interval ii s =
           ((interval ^^ n) s)\<lparr>st_err := - 10, st_interrupted := 0\<rparr>"
  using assms(1,3,4,5)
proof (induction n arbitrary: ii s)
  case 0
  then show ?case by (simp add: output_loop_break)
next
  case (Suc n)
  have "output_loop sig nt interval ii s = output_loop sig nt interval (ii + 1) (interval s)"
    using Suc.prems by (intro output_loop_step) auto
  also have "\<dots> = ((interval ^^ n) (interval s))\<lparr>st_err := - 10, st_interrupted := 0\<rparr>"
    using Suc.prems assms(2)
    by (intro Suc.IH) (auto simp: add.assoc)
  finally show ?case by (simp add: funpow_swap1)
qed

lemma output_loop_no_signal:
  assumes "st_interrupted s = 0"
    and "\<And>s. st_interrupted (interval s) = st_interrupted s"
    and "\<forall>j. \<not> sig j"
  shows "output_loop sig nt interval ii s = (interval ^^ nat (nt - 1 - ii)) s"
  using assms(1)
proof (induction "nat (nt - 1 - ii)" arbitrary: ii s)
  case 0
  then show ?case by (simp add: output_loop_done)
next
  case (Suc n)
  then have lt: "ii < nt - 1" and n: "n = nat (nt - 1 - (ii + 1))" by auto
  have "output_loop sig nt interval ii s = output_loop sig nt interval (ii + 1) (interval s)"
    using lt Suc.prems assms(3) by (intro output_loop_step) auto
  also have "\<dots> = (interval ^^ n) (interval s)"
    unfolding n using Suc.prems assms(2) by (intro Suc.hyps(1) n) auto
  finally show ?case using Suc.hyps(2) [symmetric] by (simp add: funpow_swap1)
qed

lemma output_loop_invariant:
  assumes "I ii s"
    and "\<And>jj s. ii \<le> jj \<Longrightarrow> jj < nt - 1 \<Longrightarrow> I jj s \<Longrightarrow> I (jj + 1) (interval s)"
    and "\<And>jj s e i. I jj s \<Longrightarrow> I jj (s\<lparr>st_err := e, st_interrupted := i\<rparr>)"
    and "\<And>jj s. I jj s \<Longrightarrow> Q s"
  shows "Q (output_loop sig nt interval ii s)"
  using assms(1,2)
proof (induction "nat (nt - 1 - ii)" arbitrary: ii s)
  case 0
  then show ?case using assms(4) by (simp add: output_loop_done)
next
  case (Suc n)
  then have lt: "ii < nt - 1" and n: "n = nat (nt - 1 - (ii + 1))" by auto
  show ?case
  proof (cases "sig ii \<or> st_interrupted s \<noteq> 0")
    case True
    have "I ii (s\<lparr>st_err := - 10, st_interrupted := 0\<rparr>)"
      using Suc.prems(1) by (rule assms(3))
    then have "Q (s\<lparr>st_err := - 10, st_interrupted := 0\<rparr>)" by (rule assms(4))
    with lt True show ?thesis by (simp add: output_loop_break)
  next
    case False
    then have eq: "output_loop sig nt interval ii s =
        output_loop sig nt interval (ii + 1) (interval s)"
      using lt by (intro output_loop_step) auto
    have "Q (output_loop sig nt interval (ii + 1) (interval s))"
    proof (rule Suc.hyps(1) [OF n])
      show "I (ii + 1) (interval s)"
        using Suc.prems lt by auto
      show "\<And>jj s. ii + 1 \<le> jj \<Longrightarrow> jj < nt - 1 \<Longrightarrow> I jj s \<Longrightarrow> I (jj + 1) (interval s)"
        using Suc.prems(2) by auto
    qed
    with eq show ?thesis by simp
  qed
qed

lemma funpow_result:
  fixes f :: "run_state \<Rightarrow> run_state"
  assumes "\<And>s. st_result (f s) = st_result s + b"
  shows "st_result ((f ^^ n) s) = st_result s + int n * b"
proof (induction n)
  case 0
  show ?case by simp
next
  case (Suc n)
  have "st_result ((f ^^ Suc n) s) = st_result ((f ^^ n) s) + b"
    by (simp add: assms)
  with Suc show ?case by (simp add: algebra_simps)
qed

lemma funpow_keeps:
  fixes f :: "run_state \<Rightarrow> run_state"
  assumes "\<And>s. st_result (f s) = st_result s + b" and "0 \<le> b"
    and "\<And>s. hi \<le> st_result s \<Longrightarrow> st_mem (f s) x = st_mem s x"
    and "hi \<le> st_result s"
  shows "st_mem ((f ^^ n) s) x = st_mem s x"
proof (induction n)
  case 0
  show ?case by simp
next
  case (Suc n)
  have "0 \<le> int n * b" using assms(2) by simp
  with assms(4) have "hi \<le> st_result ((f ^^ n) s)"
    by (simp add: funpow_result [OF assms(1)])
  then show ?case using Suc assms(3) by simp
qed

subsection \<open>What the sub-steps and the saves leave unchanged\<close>

lemma drift_frame:
  "drift_kick_frame ndim drift kick \<Longrightarrow> x < y \<or> y + ndim \<le> x \<Longrightarrow> drift dt y m x = m x"
  by (auto simp: drift_kick_frame_def writes_only_def)

lemma kick_frame:
  "drift_kick_frame ndim drift kick \<Longrightarrow> x < y \<or> y + ndim \<le> x \<Longrightarrow> kick dt t y m x = m x"
  by (auto simp: drift_kick_frame_def writes_only_def)

lemma func_frameD:
  "func_frame ndim func \<Longrightarrow> x < a \<or> a + ndim \<le> x \<Longrightarrow> func t q a m x = m x"
  by (auto simp: func_frame_def writes_only_def)

lemma scaling_frameD:
  "scaling_frame ndim tol_scaling \<Longrightarrow> x < res \<or> res + ndim \<le> x \<Longrightarrow> tol_scaling yo res m x = m x"
  by (auto simp: scaling_frame_def writes_only_def)

lemma metric_frameD:
  "metric_frame metric \<Longrightarrow> x < res \<or> res + ndim \<le> x \<Longrightarrow> metric ndim y1 y2 res m x = m x"
  by (auto simp: metric_frame_def writes_only_def)

lemma copy_loop_frame:
  "x < dst \<or> dst + n \<le> x \<Longrightarrow> for_loop 0 n (\<lambda>ii m. m(dst + ii := g ii m)) m x = (m::mem) x"
  by (rule for_loop_other) auto

lemma copy2_loop_frame:
  assumes "x < d1 \<or> d1 + n \<le> x" "x < d2 \<or> d2 + n \<le> x"
  shows "for_loop 0 n (\<lambda>ii m. let m = m(d1 + ii := g ii m) in m(d2 + ii := h ii m)) m x = (m::mem) x"
  by (rule for_loop_other) (use assms in \<open>auto simp: Let_def\<close>)

lemma copy2_loop_frame':
  assumes "x < d1 \<or> d1 + n \<le> x" "x < d2 \<or> d2 + n \<le> x"
  shows "for_loop 0 n (\<lambda>ii m. m(d1 + ii := g ii m, d2 + ii := h ii m)) m x = (m::mem) x"
  by (rule for_loop_other) (use assms in auto)

lemma save_result_frame:
  "x < result \<or> result + ndim \<le> x \<Longrightarrow> x \<noteq> result + 2 \<Longrightarrow>
     save_result ndim yo result construct_Lz m x = m x"
  by (auto simp: save_result_def Let_def copy_loop_frame)

lemma save_result_value:
  assumes "0 \<le> i" "i < ndim" "apart yo ndim result ndim" "construct_Lz \<longrightarrow> 3 \<le> ndim"
  shows "save_result ndim yo result construct_Lz m (result + i) =
           (if construct_Lz \<and> i = 2 then m (yo + 2) / m yo else m (yo + i))"
proof -
  have copy: "for_loop 0 ndim (\<lambda>ii m. m(result + ii := m (yo + ii))) m (result + j) = m (yo + j)"
    if "0 \<le> j" "j < ndim" for j
    by (rule for_loop_write [where g = "\<lambda>ii (m::mem). m (yo + ii)"])
       (use that assms(3) in \<open>auto simp: apart_def\<close>)
  show ?thesis
  proof (cases construct_Lz)
    case False
    with assms copy show ?thesis by (simp add: save_result_def Let_def)
  next
    case True
    with assms(4) have "3 \<le> ndim" by simp
    then have "for_loop 0 ndim (\<lambda>ii m. m(result + ii := m (yo + ii))) m (result + 2) = m (yo + 2)"
      and "for_loop 0 ndim (\<lambda>ii m. m(result + ii := m (yo + ii))) m result = m yo"
      using copy [of 2] copy [of 0] by simp_all
    with True assms copy show ?thesis by (simp add: save_result_def Let_def)
  qed
qed

lemma save_qp_frame:
  "x < result \<or> result + 2 * ndim \<le> x \<Longrightarrow> save_qp ndim qo po result m x = m x"
  by (cases "0 \<le> ndim") (auto simp: save_qp_def Let_def copy_loop_frame for_loop_done)

lemma save_qp_value:
  assumes "0 \<le> i" "i < ndim" "apart qo ndim result (2 * ndim)" "apart po ndim result (2 * ndim)"
  shows "save_qp ndim qo po result m (result + i) = m (qo + i)"
    and "save_qp ndim qo po result m (result + ndim + i) = m (po + i)"
proof -
  let ?m1 = "for_loop 0 ndim (\<lambda>ii m. m(result + ii := m (qo + ii))) m"
  have q: "?m1 (result + i) = m (qo + i)"
    by (rule for_loop_write [where g = "\<lambda>ii (m::mem). m (qo + ii)"])
       (use assms in \<open>auto simp: apart_def\<close>)
  have p1: "?m1 (po + i) = m (po + i)"
    by (rule copy_loop_frame) (use assms in \<open>auto simp: apart_def\<close>)
  have p: "for_loop 0 ndim (\<lambda>ii m. m(result + ndim + ii := m (po + ii))) ?m1 (result + ndim + i)
             = ?m1 (po + i)"
    by (rule for_loop_write [where g = "\<lambda>ii (m::mem). m (po + ii)"])
       (use assms in \<open>auto simp: apart_def\<close>)
  have "for_loop 0 ndim (\<lambda>ii m. m(result + ndim + ii := m (po + ii))) ?m1 (result + i)
             = ?m1 (result + i)"
    by (rule copy_loop_frame) (use assms in auto)
  with q assms show "save_qp ndim qo po result m (result + i) = m (qo + i)"
    by (simp add: save_qp_def Let_def)
  from p p1 assms show "save_qp ndim qo po result m (result + ndim + i) = m (po + i)"
    by (simp add: save_qp_def Let_def)
qed

lemma leapfrog_substeps_frame:
  assumes "drift_kick_frame ndim drift kick" "x < yo \<or> yo + ndim \<le> x"
  shows "snd (leapfrog_substeps drift kick yo dt ndt to m) x = m x"
proof -
  note fr = drift_frame [OF assms] kick_frame [OF assms]
  have "snd (for_loop 0 (ndt - 1)
          (\<lambda>jj (to, m).
              let m = kick dt (to + dt / 2) yo m;
                  m = drift dt yo m;
                  to = to + dt
              in (to, m)) (to, m')) x = m' x" for to m'
    by (rule for_loop_invariant [where I = "\<lambda>tm. snd tm x = m' x"])
       (auto simp: fr Let_def)
  then show ?thesis
    by (simp add: leapfrog_substeps_def split_def fr Let_def)
qed

lemma symplec4_substeps_frame:
  assumes "drift_kick_frame ndim drift kick" "x < yo \<or> yo + ndim \<le> x"
  shows "snd (symplec4_substeps drift kick yo dt ndt to m) x = m x"
proof -
  note fr = drift_frame [OF assms] kick_frame [OF assms]
  have "snd (for_loop 0 (ndt - 1)
          (\<lambda>jj (to, m).
              let m = kick (s4_d1 * dt) to yo m;
                  m = drift (s4_c2 * dt) yo m;
                  to = to + s4_c2 * dt;
                  m = kick (s4_d2 * dt) to yo m;
                  m = drift (s4_c3 * dt) yo m;
                  to = to + s4_c3 * dt;
                  m = kick (s4_d3 * dt) to yo m;
                  m = drift (s4_c41 * dt) yo m;
                  to = to + s4_c41 * dt
              in (to, m)) (to, m')) x = m' x" for to m'
    by (rule for_loop_invariant [where I = "\<lambda>tm. snd tm x = m' x"])
       (auto simp: fr Let_def)
  then show ?thesis
    by (simp add: symplec4_substeps_def split_def fr Let_def)
qed

lemma symplec6_stages_frame:
  assumes "func_frame ndim func"
    and "x < qo \<or> qo + ndim \<le> x" "x < po \<or> po + ndim \<le> x"
    and "x < q12 \<or> q12 + ndim \<le> x" "x < p12 \<or> p12 + ndim \<le> x"
    and "x < a \<or> a + ndim \<le> x"
  shows "snd (symplec6_stages func ndim dt qo po q12 p12 a to m) x = m x"
  using assms(2-)
  by (simp add: symplec6_stages_def Let_def leapfrog_leapq_frame leapfrog_leapp_frame
        func_frameD [OF assms(1)])

lemma symplec6_substeps_frame:
  assumes "func_frame ndim func"
    and "x < qo \<or> qo + ndim \<le> x" "x < po \<or> po + ndim \<le> x"
    and "x < q12 \<or> q12 + ndim \<le> x" "x < p12 \<or> p12 + ndim \<le> x"
    and "x < a \<or> a + ndim \<le> x"
  shows "snd (symplec6_substeps func ndim dt ndt qo po q12 p12 a to m) x = m x"
proof -
  note st = symplec6_stages_frame [OF assms]
  have "snd (for_loop 0 (ndt - 1)
          (\<lambda>jj (to, m).
              let (to, m) = symplec6_stages func ndim dt qo po q12 p12 a to m;
                  m = leapfrog_leapq ndim q12 p12 ((s6_c8 + s6_c1) * dt) qo m;
                  to = to + (s6_c8 + s6_c1) * dt;
                  m = for_loop 0 ndim
                        (\<lambda>kk m. let m = m(q12 + kk := m (qo + kk))
                                 in m(po + kk := m (p12 + kk))) m
              in (to, m)) (to, m')) x = m' x" for to m'
    by (rule for_loop_invariant [where I = "\<lambda>tm. snd tm x = m' x"])
       (use assms(2-) in \<open>simp_all add: split_def Let_def st leapfrog_leapq_frame copy2_loop_frame'\<close>)
  then show ?thesis
    using assms(2-)
    by (simp add: symplec6_substeps_def split_def Let_def st leapfrog_leapq_frame copy_loop_frame)
qed

subsection \<open>The searches return, and write only their own blocks\<close>

lemma estimate_loop_total_invariant:
  assumes "I s" and "\<And>dt err s. I s \<Longrightarrow> I (snd (iter dt err s))"
  shows "\<exists>dt' s'. estimate_loop iter init_dt (init_dt * 2) 2 s = Some (dt', s') \<and> I s'"
proof -
  from estimate_loop_entry [of iter init_dt s]
  obtain k dt' err' s' where run: "(estimate_pass iter ^^ k) (init_dt * 2, 2, s) = (dt', err', s')"
    and res: "estimate_loop iter init_dt (init_dt * 2) 2 s = Some (dt', s')"
    by blast
  have "I (snd (snd ((estimate_pass iter ^^ k) (init_dt * 2, 2, s))))"
    using assms by (rule estimate_pass_funpow_invariant)
  with run res show ?thesis by simp
qed

lemma leapfrog_estimate_scale_frame:
  assumes "scaling_frame ndim tol_scaling"
    and "x < scaling \<or> scaling + ndim \<le> x" "x < scale2 \<or> scale2 + ndim \<le> x"
  shows "leapfrog_estimate_scale ndim yo rtol atol tol_scaling scaling scale2 m x = m x"
  using assms(2-)
  by (simp add: leapfrog_estimate_scale_def Let_def copy_loop_frame scaling_frameD [OF assms(1)])

lemma symplec4_estimate_scale_frame:
  assumes "scaling_frame ndim tol_scaling"
    and "x < scaling \<or> scaling + ndim \<le> x" "x < scale2 \<or> scale2 + ndim \<le> x"
  shows "symplec4_estimate_scale ndim yo rtol atol tol_scaling scaling scale2 m x = m x"
  using assms(2-)
  by (simp add: symplec4_estimate_scale_def Let_def copy_loop_frame scaling_frameD [OF assms(1)])

lemma symplec6_estimate_scale_frame:
  assumes "x < scale \<or> scale + 2 * ndim \<le> x"
  shows "symplec6_estimate_scale ndim qo po rtol atol scale m x = m x"
proof -
  have 1: "for_loop 0 ndim (\<lambda>ii m. m(scale + ii := s)) m' x = m' x" for s and m' :: mem
    by (rule for_loop_other) (use assms in auto)
  have 2: "for_loop 0 ndim (\<lambda>ii m. m(scale + ii + ndim := s)) m' x = m' x" for s and m' :: mem
    by (rule for_loop_other) (use assms in auto)
  show ?thesis
    by (simp add: symplec6_estimate_scale_def Let_def 1 2)
qed

lemma leapfrog_estimate_iter_frame:
  assumes "drift_kick_frame ndim drift kick" "metric_frame metric"
    and "x < y11 \<or> y11 + ndim \<le> x" "x < y12 \<or> y12 + ndim \<le> x"
    and "x < delta \<or> delta + ndim \<le> x"
  shows "snd (leapfrog_estimate_iter drift kick ndim yo to metric y11 y12 delta scale2 dt err m) x
           = m x"
  using assms(3-)
  by (simp add: leapfrog_estimate_iter_def leapfrog_estimate_trial_def Let_def copy2_loop_frame'
        drift_frame [OF assms(1)] kick_frame [OF assms(1)] metric_frameD [OF assms(2)])

lemma symplec4_estimate_iter_frame:
  assumes "drift_kick_frame ndim drift kick" "metric_frame metric"
    and "x < y11 \<or> y11 + ndim \<le> x" "x < y12 \<or> y12 + ndim \<le> x"
    and "x < delta \<or> delta + ndim \<le> x"
  shows "snd (symplec4_estimate_iter drift kick ndim yo t metric y11 y12 delta scale2 dt err m) x
           = m x"
  using assms(3-)
  by (simp add: symplec4_estimate_iter_def symplec4_estimate_trial_def Let_def copy2_loop_frame'
        drift_frame [OF assms(1)] kick_frame [OF assms(1)] metric_frameD [OF assms(2)])

lemma symplec6_estimate_iter_frame:
  assumes "func_frame ndim func"
    and "x < q11 \<or> q11 + ndim \<le> x" "x < q12 \<or> q12 + ndim \<le> x"
    and "x < p11 \<or> p11 + ndim \<le> x" "x < p12 \<or> p12 + ndim \<le> x"
    and "x < qtmp \<or> qtmp + ndim \<le> x" "x < ptmp \<or> ptmp + ndim \<le> x"
    and "x < a \<or> a + ndim \<le> x"
  shows "snd (snd (symplec6_estimate_iter func ndim qo po q11 q12 p11 p12 qtmp ptmp a scale
                     dt err (to, m))) x = m x"
  using assms(2-)
  by (simp add: symplec6_estimate_iter_def Let_def copy_loop_frame
        leapfrog_leapq_frame leapfrog_leapp_frame func_frameD [OF assms(1)])

lemma leapfrog_estimate_step_frame:
  assumes "drift_kick_frame ndim drift kick" "scaling_frame ndim tol_scaling" "metric_frame metric"
    and "\<forall>x\<in>P. (x < y11 \<or> y11 + ndim \<le> x) \<and> (x < y12 \<or> y12 + ndim \<le> x) \<and>
               (x < delta \<or> delta + ndim \<le> x) \<and> (x < scaling \<or> scaling + ndim \<le> x) \<and>
               (x < scale2 \<or> scale2 + ndim \<le> x)"
  shows "\<exists>dt' m'. leapfrog_estimate_step drift kick ndim yo dt t rtol atol tol_scaling metric
                     y11 y12 delta scaling scale2 m = Some (dt', m') \<and> (\<forall>x\<in>P. m' x = m x)"
  unfolding leapfrog_estimate_step_def Let_def
  by (rule estimate_loop_total_invariant)
     (use assms in \<open>simp_all add: leapfrog_estimate_scale_frame leapfrog_estimate_iter_frame\<close>)

lemma symplec4_estimate_step_frame:
  assumes "drift_kick_frame ndim drift kick" "scaling_frame ndim tol_scaling" "metric_frame metric"
    and "\<forall>x\<in>P. (x < y11 \<or> y11 + ndim \<le> x) \<and> (x < y12 \<or> y12 + ndim \<le> x) \<and>
               (x < delta \<or> delta + ndim \<le> x) \<and> (x < scaling \<or> scaling + ndim \<le> x) \<and>
               (x < scale2 \<or> scale2 + ndim \<le> x)"
  shows "\<exists>dt' m'. symplec4_estimate_step drift kick ndim yo dt t rtol atol tol_scaling metric
                     y11 y12 delta scaling scale2 m = Some (dt', m') \<and> (\<forall>x\<in>P. m' x = m x)"
  unfolding symplec4_estimate_step_def Let_def
  by (rule estimate_loop_total_invariant)
     (use assms in \<open>simp_all add: symplec4_estimate_scale_frame symplec4_estimate_iter_frame\<close>)

lemma symplec6_estimate_step_frame:
  assumes "func_frame ndim func"
    and "\<forall>x\<in>P. (x < q11 \<or> q11 + ndim \<le> x) \<and> (x < q12 \<or> q12 + ndim \<le> x) \<and>
               (x < p11 \<or> p11 + ndim \<le> x) \<and> (x < p12 \<or> p12 + ndim \<le> x) \<and>
               (x < qtmp \<or> qtmp + ndim \<le> x) \<and> (x < ptmp \<or> ptmp + ndim \<le> x) \<and>
               (x < a \<or> a + ndim \<le> x) \<and> (x < scale \<or> scale + 2 * ndim \<le> x)"
  shows "\<exists>dt' m'. symplec6_estimate_step func ndim qo po dt t rtol atol
                     q11 q12 p11 p12 qtmp ptmp a scale m = Some (dt', m') \<and> (\<forall>x\<in>P. m' x = m x)"
proof -
  have "\<exists>dt' s'. estimate_loop
          (symplec6_estimate_iter func ndim qo po q11 q12 p11 p12 qtmp ptmp a scale) dt (dt * 2) 2
          (m t, symplec6_estimate_scale ndim qo po rtol atol scale m) = Some (dt', s') \<and>
          (\<forall>x\<in>P. snd s' x = m x)"
  proof (rule estimate_loop_total_invariant)
    show "\<forall>x\<in>P. snd (m t, symplec6_estimate_scale ndim qo po rtol atol scale m) x = m x"
      using assms(2) by (simp add: symplec6_estimate_scale_frame)
    show "\<forall>x\<in>P. snd (snd (symplec6_estimate_iter func ndim qo po q11 q12 p11 p12 qtmp ptmp a scale
                     dt' err s)) x = m x"
      if "\<forall>x\<in>P. snd s x = m x" for dt' err s
      using that assms(2) symplec6_estimate_iter_frame [OF assms(1), of _ q11 q12 p11 p12 qtmp ptmp a
          qo po scale dt' err "fst s" "snd s"]
      by simp
  qed
  then show ?thesis
    by (auto simp: symplec6_estimate_step_def Let_def)
qed

subsection \<open>One output interval, and the state at the loop's entry\<close>

lemma leapfrog_interval_fields [simp]:
  "st_result (leapfrog_interval drift kick ndim yo dt ndt construct_Lz s) = st_result s + ndim"
  "st_err (leapfrog_interval drift kick ndim yo dt ndt construct_Lz s) = st_err s"
  "st_interrupted (leapfrog_interval drift kick ndim yo dt ndt construct_Lz s) = st_interrupted s"
  by (simp_all add: leapfrog_interval_def split_def Let_def)

lemma symplec4_interval_fields [simp]:
  "st_result (symplec4_interval drift kick ndim yo dt ndt construct_Lz s) = st_result s + ndim"
  "st_err (symplec4_interval drift kick ndim yo dt ndt construct_Lz s) = st_err s"
  "st_interrupted (symplec4_interval drift kick ndim yo dt ndt construct_Lz s) = st_interrupted s"
  by (simp_all add: symplec4_interval_def split_def Let_def)

lemma symplec6_interval_fields [simp]:
  "st_result (symplec6_interval func ndim dt ndt qo po q12 p12 a s) = st_result s + 2 * ndim"
  "st_err (symplec6_interval func ndim dt ndt qo po q12 p12 a s) = st_err s"
  "st_interrupted (symplec6_interval func ndim dt ndt qo po q12 p12 a s) = st_interrupted s"
  by (simp_all add: symplec6_interval_def split_def Let_def)

lemma leapfrog_interval_mem:
  "st_mem (leapfrog_interval drift kick ndim yo dt ndt construct_Lz s) =
     save_result ndim yo (st_result s) construct_Lz
       (snd (leapfrog_substeps drift kick yo dt ndt (st_to s) (st_mem s)))"
  by (simp add: leapfrog_interval_def split_def Let_def)

lemma symplec4_interval_mem:
  "st_mem (symplec4_interval drift kick ndim yo dt ndt construct_Lz s) =
     save_result ndim yo (st_result s) construct_Lz
       (snd (symplec4_substeps drift kick yo dt ndt (st_to s) (st_mem s)))"
  by (simp add: symplec4_interval_def split_def Let_def)

lemma symplec6_interval_mem:
  "st_mem (symplec6_interval func ndim dt ndt qo po q12 p12 a s) =
     save_qp ndim qo po (st_result s)
       (snd (symplec6_substeps func ndim dt ndt qo po q12 p12 a (st_to s) (st_mem s)))"
  by (simp add: symplec6_interval_def split_def Let_def)

lemma leapfrog_interval_frame:
  assumes "drift_kick_frame ndim drift kick" "x < yo \<or> yo + ndim \<le> x"
    and "x < st_result s"
  shows "st_mem (leapfrog_interval drift kick ndim yo dt ndt construct_Lz s) x = st_mem s x"
  using assms(3)
  by (simp add: leapfrog_interval_mem save_result_frame leapfrog_substeps_frame [OF assms(1,2)])

lemma symplec4_interval_frame:
  assumes "drift_kick_frame ndim drift kick" "x < yo \<or> yo + ndim \<le> x"
    and "x < st_result s"
  shows "st_mem (symplec4_interval drift kick ndim yo dt ndt construct_Lz s) x = st_mem s x"
  using assms(3)
  by (simp add: symplec4_interval_mem save_result_frame symplec4_substeps_frame [OF assms(1,2)])

lemma symplec6_interval_frame:
  assumes "func_frame ndim func"
    and "x < qo \<or> qo + ndim \<le> x" "x < po \<or> po + ndim \<le> x"
    and "x < q12 \<or> q12 + ndim \<le> x" "x < p12 \<or> p12 + ndim \<le> x"
    and "x < a \<or> a + ndim \<le> x"
    and "x < st_result s \<or> st_result s + 2 * ndim \<le> x"
  shows "st_mem (symplec6_interval func ndim dt ndt qo po q12 p12 a s) x = st_mem s x"
  using assms(7)
  by (simp add: symplec6_interval_mem save_qp_frame symplec6_substeps_frame [OF assms(1-6)])

text \<open>The searches return (no contract of the callbacks is needed for that).\<close>

lemma leapfrog_estimate_step_total:
  "\<exists>dt' m'. leapfrog_estimate_step drift kick ndim yo dt t rtol atol tol_scaling metric
              y11 y12 delta scaling scale2 m = Some (dt', m')"
  using estimate_loop_entry
    [of "leapfrog_estimate_iter drift kick ndim yo (m t) metric y11 y12 delta scale2" dt
        "leapfrog_estimate_scale ndim yo rtol atol tol_scaling scaling scale2 m"]
  by (auto simp: leapfrog_estimate_step_def Let_def)

lemma symplec4_estimate_step_total:
  "\<exists>dt' m'. symplec4_estimate_step drift kick ndim yo dt t rtol atol tol_scaling metric
              y11 y12 delta scaling scale2 m = Some (dt', m')"
  using estimate_loop_entry
    [of "symplec4_estimate_iter drift kick ndim yo t metric y11 y12 delta scale2" dt
        "symplec4_estimate_scale ndim yo rtol atol tol_scaling scaling scale2 m"]
  by (auto simp: symplec4_estimate_step_def Let_def)

lemma symplec6_estimate_step_total:
  "\<exists>dt' m'. symplec6_estimate_step func ndim qo po dt t rtol atol
              q11 q12 p11 p12 qtmp ptmp a scale m = Some (dt', m')"
  using estimate_loop_entry
    [of "symplec6_estimate_iter func ndim qo po q11 q12 p11 p12 qtmp ptmp a scale" dt
        "(m t, symplec6_estimate_scale ndim qo po rtol atol scale m)"]
  by (auto simp: symplec6_estimate_step_def Let_def)

lemma leapfrog_init_total:
  "\<exists>dt' ndt m'. leapfrog_init drift kick ndim yo dt t rtol atol tol_scaling metric construct_Lz
       result y11 y12 delta scaling scale2 interrupted m =
     Some (dt', ndt, \<lparr>st_mem = m', st_to = m' t, st_result = result + ndim, st_err = 0,
                      st_interrupted = interrupted\<rparr>)"
proof (cases "dt = - 9999.99")
  case False
  then show ?thesis by (simp add: leapfrog_init_def Let_def)
next
  case True
  let ?m = "before_search ndim yo result construct_Lz m"
  obtain dt' m' where "leapfrog_estimate_step drift kick ndim yo (?m (t + 1) - ?m t) t rtol atol
      tol_scaling metric y11 y12 delta scaling scale2 ?m = Some (dt', m')"
    using leapfrog_estimate_step_total by blast
  with True show ?thesis
    by (simp add: leapfrog_init_def before_search_def Let_def)
qed

lemma symplec4_init_total:
  "\<exists>dt' ndt m'. symplec4_init drift kick ndim yo dt t rtol atol tol_scaling metric construct_Lz
       result y11 y12 delta scaling scale2 interrupted m =
     Some (dt', ndt, \<lparr>st_mem = m', st_to = m' t, st_result = result + ndim, st_err = 0,
                      st_interrupted = interrupted\<rparr>)"
proof (cases "dt = - 9999.99")
  case False
  then show ?thesis by (simp add: symplec4_init_def Let_def)
next
  case True
  let ?m = "before_search ndim yo result construct_Lz m"
  obtain dt' m' where "symplec4_estimate_step drift kick ndim yo (?m (t + 1) - ?m t) t rtol atol
      tol_scaling metric y11 y12 delta scaling scale2 ?m = Some (dt', m')"
    using symplec4_estimate_step_total by blast
  with True show ?thesis
    by (simp add: symplec4_init_def before_search_def Let_def)
qed

lemma symplec6_init_total:
  "\<exists>dt' ndt m'. symplec6_init func ndim yo dt t rtol atol result qo po q12 p12 a
       e_q11 e_q12 e_p11 e_p12 e_qtmp e_ptmp e_a e_scale interrupted m =
     Some (dt', ndt, \<lparr>st_mem = m', st_to = m' t, st_result = result + 2 * ndim, st_err = 0,
                      st_interrupted = interrupted\<rparr>)"
proof (cases "dt = - 9999.99")
  case False
  then show ?thesis by (simp add: symplec6_init_def Let_def)
next
  case True
  let ?m = "symplec6_before_search ndim yo result qo po m"
  have "\<exists>dt' m'. symplec6_estimate_step func ndim qo po (?m (t + 1) - ?m t) t rtol atol
      e_q11 e_q12 e_p11 e_p12 e_qtmp e_ptmp e_a e_scale ?m = Some (dt', m')"
    by (rule symplec6_estimate_step_total)
  then obtain dt' m' where "symplec6_estimate_step func ndim qo po (?m (t + 1) - ?m t) t rtol atol
      e_q11 e_q12 e_p11 e_p12 e_qtmp e_ptmp e_a e_scale ?m = Some (dt', m')"
    by (elim exE)
  with True show ?thesis
    by (simp add: symplec6_init_def symplec6_before_search_def Let_def)
qed

lemma apart_outside: "apart p n q k \<Longrightarrow> q \<le> x \<Longrightarrow> x < q + k \<Longrightarrow> x < p \<or> p + n \<le> x"
  by (auto simp: apart_def)

lemma leapfrog_init_frame:
  assumes "drift_kick_frame ndim drift kick" "scaling_frame ndim tol_scaling" "metric_frame metric"
    and "estimate_blocks_apart ndim y11 y12 delta scaling scale2 p n"
  shows "\<exists>dt' ndt m'. leapfrog_init drift kick ndim yo dt t rtol atol tol_scaling metric
       construct_Lz result y11 y12 delta scaling scale2 interrupted m =
     Some (dt', ndt, \<lparr>st_mem = m', st_to = m' t, st_result = result + ndim, st_err = 0,
                      st_interrupted = interrupted\<rparr>) \<and>
     (\<forall>x\<in>{p..<p + n}. m' x = before_search ndim yo result construct_Lz m x)"
proof (cases "dt = - 9999.99")
  case False
  then show ?thesis by (simp add: leapfrog_init_def before_search_def Let_def)
next
  case True
  let ?m = "before_search ndim yo result construct_Lz m"
  have "\<forall>x\<in>{p..<p + n}. (x < y11 \<or> y11 + ndim \<le> x) \<and> (x < y12 \<or> y12 + ndim \<le> x) \<and>
               (x < delta \<or> delta + ndim \<le> x) \<and> (x < scaling \<or> scaling + ndim \<le> x) \<and>
               (x < scale2 \<or> scale2 + ndim \<le> x)"
    using assms(4) by (auto simp: estimate_blocks_apart_def dest: apart_outside)
  from leapfrog_estimate_step_frame [OF assms(1-3) this]
  obtain dt' m' where "leapfrog_estimate_step drift kick ndim yo (?m (t + 1) - ?m t) t rtol atol
      tol_scaling metric y11 y12 delta scaling scale2 ?m = Some (dt', m')"
    and "\<forall>x\<in>{p..<p + n}. m' x = ?m x"
    by blast
  with True show ?thesis
    by (simp add: leapfrog_init_def before_search_def Let_def)
qed

lemma symplec4_init_frame:
  assumes "drift_kick_frame ndim drift kick" "scaling_frame ndim tol_scaling" "metric_frame metric"
    and "estimate_blocks_apart ndim y11 y12 delta scaling scale2 p n"
  shows "\<exists>dt' ndt m'. symplec4_init drift kick ndim yo dt t rtol atol tol_scaling metric
       construct_Lz result y11 y12 delta scaling scale2 interrupted m =
     Some (dt', ndt, \<lparr>st_mem = m', st_to = m' t, st_result = result + ndim, st_err = 0,
                      st_interrupted = interrupted\<rparr>) \<and>
     (\<forall>x\<in>{p..<p + n}. m' x = before_search ndim yo result construct_Lz m x)"
proof (cases "dt = - 9999.99")
  case False
  then show ?thesis by (simp add: symplec4_init_def before_search_def Let_def)
next
  case True
  let ?m = "before_search ndim yo result construct_Lz m"
  have "\<forall>x\<in>{p..<p + n}. (x < y11 \<or> y11 + ndim \<le> x) \<and> (x < y12 \<or> y12 + ndim \<le> x) \<and>
               (x < delta \<or> delta + ndim \<le> x) \<and> (x < scaling \<or> scaling + ndim \<le> x) \<and>
               (x < scale2 \<or> scale2 + ndim \<le> x)"
    using assms(4) by (auto simp: estimate_blocks_apart_def dest: apart_outside)
  from symplec4_estimate_step_frame [OF assms(1-3) this]
  obtain dt' m' where "symplec4_estimate_step drift kick ndim yo (?m (t + 1) - ?m t) t rtol atol
      tol_scaling metric y11 y12 delta scaling scale2 ?m = Some (dt', m')"
    and "\<forall>x\<in>{p..<p + n}. m' x = ?m x"
    by blast
  with True show ?thesis
    by (simp add: symplec4_init_def before_search_def Let_def)
qed

lemma symplec6_init_frame:
  assumes "func_frame ndim func"
    and "symplec6_estimate_blocks_apart ndim e_q11 e_q12 e_p11 e_p12 e_qtmp e_ptmp e_a e_scale p n"
  shows "\<exists>dt' ndt m'. symplec6_init func ndim yo dt t rtol atol result qo po q12 p12 a
       e_q11 e_q12 e_p11 e_p12 e_qtmp e_ptmp e_a e_scale interrupted m =
     Some (dt', ndt, \<lparr>st_mem = m', st_to = m' t, st_result = result + 2 * ndim, st_err = 0,
                      st_interrupted = interrupted\<rparr>) \<and>
     (\<forall>x\<in>{p..<p + n}. m' x = symplec6_before_search ndim yo result qo po m x)"
proof (cases "dt = - 9999.99")
  case False
  then show ?thesis by (simp add: symplec6_init_def symplec6_before_search_def Let_def)
next
  case True
  let ?m = "symplec6_before_search ndim yo result qo po m"
  have "\<forall>x\<in>{p..<p + n}. (x < e_q11 \<or> e_q11 + ndim \<le> x) \<and> (x < e_q12 \<or> e_q12 + ndim \<le> x) \<and>
               (x < e_p11 \<or> e_p11 + ndim \<le> x) \<and> (x < e_p12 \<or> e_p12 + ndim \<le> x) \<and>
               (x < e_qtmp \<or> e_qtmp + ndim \<le> x) \<and> (x < e_ptmp \<or> e_ptmp + ndim \<le> x) \<and>
               (x < e_a \<or> e_a + ndim \<le> x) \<and> (x < e_scale \<or> e_scale + 2 * ndim \<le> x)"
    using assms(2) by (auto simp: symplec6_estimate_blocks_apart_def dest: apart_outside)
  from symplec6_estimate_step_frame [OF assms(1) this]
  obtain dt' m' where "symplec6_estimate_step func ndim qo po (?m (t + 1) - ?m t) t rtol atol
      e_q11 e_q12 e_p11 e_p12 e_qtmp e_ptmp e_a e_scale ?m = Some (dt', m')"
    and "\<forall>x\<in>{p..<p + n}. m' x = ?m x"
    by blast
  with True show ?thesis
    by (simp add: symplec6_init_def symplec6_before_search_def Let_def)
qed

subsection \<open>Blocks already written stay as they are\<close>

lemma output_loop_keeps:
  assumes "\<And>s. st_result (f s) = st_result s + b" and "0 \<le> b"
    and "\<And>s x. x \<in> P \<Longrightarrow> hi \<le> st_result s \<Longrightarrow> st_mem (f s) x = st_mem s x"
    and "hi \<le> st_result s"
  shows "\<forall>x\<in>P. st_mem (output_loop sig nt f ii s) x = st_mem s x"
proof (rule output_loop_invariant
    [where I = "\<lambda>jj s'. (\<forall>x\<in>P. st_mem s' x = st_mem s x) \<and> hi \<le> st_result s'"])
  show "(\<forall>x\<in>P. st_mem s x = st_mem s x) \<and> hi \<le> st_result s"
    using assms(4) by simp
  show "(\<forall>x\<in>P. st_mem (f s') x = st_mem s x) \<and> hi \<le> st_result (f s')"
    if "(\<forall>x\<in>P. st_mem s' x = st_mem s x) \<and> hi \<le> st_result s'" for jj s'
    using that assms(1,2,3) by simp
qed simp_all

lemma before_search_block0:
  assumes "0 \<le> i" "i < ndim" "apart yo ndim result ndim" "construct_Lz \<longrightarrow> 3 \<le> ndim"
  shows "before_search ndim yo result construct_Lz m (result + i) = m (yo + i)"
proof -
  have "save_result ndim yo result False m (result + i) = m (yo + i)"
    using assms by (simp add: save_result_value)
  moreover have "yo + 2 \<noteq> result + i" if construct_Lz
    using that assms by (auto simp: apart_def)
  ultimately show ?thesis
    by (auto simp: before_search_def Let_def)
qed

lemma leapfrog_first_block:
  assumes "drift_kick_frame ndim drift kick" "scaling_frame ndim tol_scaling" "metric_frame metric"
    and "apart yo ndim result ndim"
    and "estimate_blocks_apart ndim y11 y12 delta scaling scale2 result ndim"
    and "construct_Lz \<longrightarrow> 3 \<le> ndim"
  shows "\<exists>s. leapfrog drift kick ndim yo nt dt t rtol atol tol_scaling metric construct_Lz result
               y11 y12 delta scaling scale2 sig interrupted m = Some s \<and>
             (\<forall>i. 0 \<le> i \<and> i < ndim \<longrightarrow> st_mem s (result + i) = m (yo + i))"
proof -
  from leapfrog_init_frame [OF assms(1,2,3,5)]
  obtain dt' ndt m' where init: "leapfrog_init drift kick ndim yo dt t rtol atol tol_scaling metric
       construct_Lz result y11 y12 delta scaling scale2 interrupted m =
     Some (dt', ndt, \<lparr>st_mem = m', st_to = m' t, st_result = result + ndim, st_err = 0,
                      st_interrupted = interrupted\<rparr>)"
    and m': "\<forall>x\<in>{result..<result + ndim}. m' x = before_search ndim yo result construct_Lz m x"
    by blast
  let ?s0 = "\<lparr>st_mem = m', st_to = m' t, st_result = result + ndim, st_err = 0,
              st_interrupted = interrupted\<rparr>"
  let ?f = "leapfrog_interval drift kick ndim yo dt' ndt construct_Lz"
  have val: "st_mem (output_loop sig nt ?f 0 ?s0) (result + i) = m (yo + i)"
    if i: "0 \<le> i" "i < ndim" for i
  proof -
    have "\<forall>x\<in>{result..<result + ndim}. st_mem (output_loop sig nt ?f 0 ?s0) x = st_mem ?s0 x"
    proof (rule output_loop_keeps [where b = ndim and hi = "result + ndim"])
      show "st_mem (?f s) x = st_mem s x"
        if "x \<in> {result..<result + ndim}" "result + ndim \<le> st_result s" for s x
        using that assms(4)
        by (intro leapfrog_interval_frame [OF assms(1)]) (auto simp: apart_def)
    qed (use i in simp_all)
    then have "st_mem (output_loop sig nt ?f 0 ?s0) (result + i) = m' (result + i)"
      using i by simp
    also have "\<dots> = before_search ndim yo result construct_Lz m (result + i)"
      using m' i by simp
    also have "\<dots> = m (yo + i)"
      using i assms by (simp add: before_search_block0)
    finally show ?thesis .
  qed
  show ?thesis
    using val by (simp add: leapfrog_def init)
qed

lemma symplec4_first_block:
  assumes "drift_kick_frame ndim drift kick" "scaling_frame ndim tol_scaling" "metric_frame metric"
    and "apart yo ndim result ndim"
    and "estimate_blocks_apart ndim y11 y12 delta scaling scale2 result ndim"
    and "construct_Lz \<longrightarrow> 3 \<le> ndim"
  shows "\<exists>s. symplec4 drift kick ndim yo nt dt t rtol atol tol_scaling metric construct_Lz result
               y11 y12 delta scaling scale2 sig interrupted m = Some s \<and>
             (\<forall>i. 0 \<le> i \<and> i < ndim \<longrightarrow> st_mem s (result + i) = m (yo + i))"
proof -
  from symplec4_init_frame [OF assms(1,2,3,5)]
  obtain dt' ndt m' where init: "symplec4_init drift kick ndim yo dt t rtol atol tol_scaling metric
       construct_Lz result y11 y12 delta scaling scale2 interrupted m =
     Some (dt', ndt, \<lparr>st_mem = m', st_to = m' t, st_result = result + ndim, st_err = 0,
                      st_interrupted = interrupted\<rparr>)"
    and m': "\<forall>x\<in>{result..<result + ndim}. m' x = before_search ndim yo result construct_Lz m x"
    by blast
  let ?s0 = "\<lparr>st_mem = m', st_to = m' t, st_result = result + ndim, st_err = 0,
              st_interrupted = interrupted\<rparr>"
  let ?f = "symplec4_interval drift kick ndim yo dt' ndt construct_Lz"
  have val: "st_mem (output_loop sig nt ?f 0 ?s0) (result + i) = m (yo + i)"
    if i: "0 \<le> i" "i < ndim" for i
  proof -
    have "\<forall>x\<in>{result..<result + ndim}. st_mem (output_loop sig nt ?f 0 ?s0) x = st_mem ?s0 x"
    proof (rule output_loop_keeps [where b = ndim and hi = "result + ndim"])
      show "st_mem (?f s) x = st_mem s x"
        if "x \<in> {result..<result + ndim}" "result + ndim \<le> st_result s" for s x
        using that assms(4)
        by (intro symplec4_interval_frame [OF assms(1)]) (auto simp: apart_def)
    qed (use i in simp_all)
    then have "st_mem (output_loop sig nt ?f 0 ?s0) (result + i) = m' (result + i)"
      using i by simp
    also have "\<dots> = before_search ndim yo result construct_Lz m (result + i)"
      using m' i by simp
    also have "\<dots> = m (yo + i)"
      using i assms by (simp add: before_search_block0)
    finally show ?thesis .
  qed
  show ?thesis
    using val by (simp add: symplec4_def init)
qed

lemma symplec6_copy_loop:
  assumes "lo \<le> i" "i < ndim" "0 \<le> lo"
    and "apart qo ndim yo (2 * ndim)" "apart po ndim yo (2 * ndim)" "apart qo ndim po ndim"
  shows "for_loop lo ndim
           (\<lambda>ii m. let m = m(qo + ii := m (yo + ii)) in m(po + ii := m (yo + ndim + ii))) m (qo + i)
           = (m::mem) (yo + i) \<and>
         for_loop lo ndim
           (\<lambda>ii m. let m = m(qo + ii := m (yo + ii)) in m(po + ii := m (yo + ndim + ii))) m (po + i)
           = m (yo + ndim + i)"
  (is "for_loop _ _ ?body _ _ = _ \<and> _")
  using assms(1,2,3)
proof (induction "nat (i - lo)" arbitrary: lo m)
  case 0
  then have [simp]: "lo = i" by simp
  have o: "for_loop (i + 1) ndim ?body m' x = m' x" if "x = qo + i \<or> x = po + i" for m' x
    by (rule for_loop_other) (use that assms(4-) 0 in \<open>auto simp: Let_def apart_def\<close>)
  have "?body i m (qo + i) = m (yo + i)" "?body i m (po + i) = m (yo + ndim + i)"
    using assms(4-) 0 by (auto simp: Let_def apart_def)
  then show ?case
    using 0 by (simp add: for_loop_step [of i] o del: fun_upd_apply)
next
  case (Suc k)
  then have lt: "lo < i" and k: "k = nat (i - (lo + 1))" by auto
  have keep: "?body lo m (yo + i) = m (yo + i)" "?body lo m (yo + ndim + i) = m (yo + ndim + i)"
    using assms(4-) Suc.prems lt by (auto simp: Let_def apart_def)
  have "for_loop lo ndim ?body m = for_loop (lo + 1) ndim ?body (?body lo m)"
    using lt Suc.prems by (intro for_loop_step) auto
  moreover have "for_loop (lo + 1) ndim ?body (?body lo m) (qo + i) = ?body lo m (yo + i) \<and>
      for_loop (lo + 1) ndim ?body (?body lo m) (po + i) = ?body lo m (yo + ndim + i)"
    using lt Suc.prems by (intro Suc.hyps(1) k) auto
  ultimately show ?case using keep by (simp del: fun_upd_apply)
qed

lemma symplec6_before_search_block0:
  assumes "0 \<le> i" "i < 2 * ndim"
    and "apart qo ndim yo (2 * ndim)" "apart po ndim yo (2 * ndim)" "apart qo ndim po ndim"
    and "apart qo ndim result (2 * ndim)" "apart po ndim result (2 * ndim)"
  shows "symplec6_before_search ndim yo result qo po m (result + i) = m (yo + i)"
proof (cases "i < ndim")
  case True
  have "symplec6_before_search ndim yo result qo po m (result + i) =
      for_loop 0 ndim
        (\<lambda>ii m. let m = m(qo + ii := m (yo + ii)) in m(po + ii := m (yo + ndim + ii))) m (qo + i)"
    unfolding symplec6_before_search_def
    by (rule save_qp_value(1)) (use True assms in auto)
  also have "\<dots> = m (yo + i)"
    using symplec6_copy_loop [OF assms(1) True _ assms(3,4,5), of m] by simp
  finally show ?thesis .
next
  case False
  define j where "j = i - ndim"
  with False assms have j: "0 \<le> j" "j < ndim" and i: "i = ndim + j" by auto
  have "symplec6_before_search ndim yo result qo po m (result + ndim + j) =
      for_loop 0 ndim
        (\<lambda>ii m. let m = m(qo + ii := m (yo + ii)) in m(po + ii := m (yo + ndim + ii))) m (po + j)"
    unfolding symplec6_before_search_def
    by (rule save_qp_value(2)) (use j assms in auto)
  also have "\<dots> = m (yo + ndim + j)"
    using symplec6_copy_loop [OF j(1) j(2) _ assms(3,4,5), of m] by simp
  finally show ?thesis by (simp add: i add.assoc)
qed

lemma symplec6_first_block:
  assumes "func_frame ndim func"
    and "apart qo ndim yo (2 * ndim)" "apart po ndim yo (2 * ndim)" "apart qo ndim po ndim"
    and "symplec6_blocks_apart ndim qo po q12 p12 a result (2 * ndim)"
    and "symplec6_estimate_blocks_apart ndim e_q11 e_q12 e_p11 e_p12 e_qtmp e_ptmp e_a e_scale
           result (2 * ndim)"
  shows "\<exists>s. symplec6 func ndim yo nt dt t rtol atol result qo po q12 p12 a
               e_q11 e_q12 e_p11 e_p12 e_qtmp e_ptmp e_a e_scale sig interrupted m = Some s \<and>
             (\<forall>i. 0 \<le> i \<and> i < 2 * ndim \<longrightarrow> st_mem s (result + i) = m (yo + i))"
proof -
  from symplec6_init_frame [OF assms(1,6)]
  obtain dt' ndt m' where init: "symplec6_init func ndim yo dt t rtol atol result qo po q12 p12 a
       e_q11 e_q12 e_p11 e_p12 e_qtmp e_ptmp e_a e_scale interrupted m =
     Some (dt', ndt, \<lparr>st_mem = m', st_to = m' t, st_result = result + 2 * ndim, st_err = 0,
                      st_interrupted = interrupted\<rparr>)"
    and m': "\<forall>x\<in>{result..<result + 2 * ndim}.
               m' x = symplec6_before_search ndim yo result qo po m x"
    by blast
  let ?s0 = "\<lparr>st_mem = m', st_to = m' t, st_result = result + 2 * ndim, st_err = 0,
              st_interrupted = interrupted\<rparr>"
  let ?f = "symplec6_interval func ndim dt' ndt qo po q12 p12 a"
  have val: "st_mem (output_loop sig nt ?f 0 ?s0) (result + i) = m (yo + i)"
    if i: "0 \<le> i" "i < 2 * ndim" for i
  proof -
    have "\<forall>x\<in>{result..<result + 2 * ndim}.
            st_mem (output_loop sig nt ?f 0 ?s0) x = st_mem ?s0 x"
    proof (rule output_loop_keeps [where b = "2 * ndim" and hi = "result + 2 * ndim"])
      show "st_mem (?f s) x = st_mem s x"
        if "x \<in> {result..<result + 2 * ndim}" "result + 2 * ndim \<le> st_result s" for s x
        using that assms(5)
        by (intro symplec6_interval_frame [OF assms(1)])
           (auto simp: symplec6_blocks_apart_def apart_def)
    qed (use i in simp_all)
    then have "st_mem (output_loop sig nt ?f 0 ?s0) (result + i) = m' (result + i)"
      using i by simp
    also have "\<dots> = symplec6_before_search ndim yo result qo po m (result + i)"
      using m' i by simp
    also have "\<dots> = m (yo + i)"
      using i assms by (simp add: symplec6_before_search_block0 symplec6_blocks_apart_def)
    finally show ?thesis .
  qed
  show ?thesis
    using val by (simp add: symplec6_def init)
qed

subsection \<open>The example callbacks keep their contracts\<close>

lemma osc_drift_kick_frame: "2 \<le> ndim \<Longrightarrow> drift_kick_frame ndim osc_drift osc_kick"
  by (auto simp: drift_kick_frame_def writes_only_def osc_drift_def osc_kick_def)

lemma osc_func_frame: "1 \<le> ndim \<Longrightarrow> func_frame ndim osc_func"
  by (auto simp: func_frame_def writes_only_def osc_func_def)

lemma unit_scaling_frame: "2 \<le> ndim \<Longrightarrow> scaling_frame ndim unit_scaling"
  by (auto simp: scaling_frame_def writes_only_def unit_scaling_def)

lemma diff_metric_frame: "metric_frame diff_metric"
  by (auto simp: metric_frame_def writes_only_def diff_metric_def copy_loop_frame)

subsection \<open>The first output block\<close>

text \<open>
  Claim C10. Whatever the signal schedule, the number of output times and the step, each
  integrator returns with the initial state in the first output block; in \<^verbatim>\<open>leapfrog\<close>
  and \<^verbatim>\<open>symplec4\<close> also when \<^verbatim>\<open>construct_Lz\<close> is set. The callbacks write only the vectors
  they are given, and the caller's \<open>yo\<close> and the allocated blocks do not overlap the
  first output block (nor the blocks \<open>qo\<close>, \<open>po\<close> of \<^verbatim>\<open>symplec6\<close> its \<open>yo\<close> or one another).
\<close>

theorem first_block_is_initial_state:
  assumes "drift_kick_frame ndim drift kick" "scaling_frame ndim tol_scaling"
    and "metric_frame metric" "func_frame ndim func"
    and "apart yo ndim result ndim"
    and "estimate_blocks_apart ndim y11 y12 delta scaling scale2 result ndim"
    and "construct_Lz \<longrightarrow> 3 \<le> ndim"
    and "apart qo ndim yo (2 * ndim)" "apart po ndim yo (2 * ndim)" "apart qo ndim po ndim"
    and "symplec6_blocks_apart ndim qo po q12 p12 a result (2 * ndim)"
    and "symplec6_estimate_blocks_apart ndim e_q11 e_q12 e_p11 e_p12 e_qtmp e_ptmp e_a e_scale
           result (2 * ndim)"
  shows "(\<exists>s. leapfrog drift kick ndim yo nt dt t rtol atol tol_scaling metric construct_Lz result
               y11 y12 delta scaling scale2 sig interrupted m = Some s \<and>
             (\<forall>i. 0 \<le> i \<and> i < ndim \<longrightarrow> st_mem s (result + i) = m (yo + i))) \<and>
         (\<exists>s. symplec4 drift kick ndim yo nt dt t rtol atol tol_scaling metric construct_Lz result
               y11 y12 delta scaling scale2 sig interrupted m = Some s \<and>
             (\<forall>i. 0 \<le> i \<and> i < ndim \<longrightarrow> st_mem s (result + i) = m (yo + i))) \<and>
         (\<exists>s. symplec6 func ndim yo nt dt t rtol atol result qo po q12 p12 a
               e_q11 e_q12 e_p11 e_p12 e_qtmp e_ptmp e_a e_scale sig interrupted m = Some s \<and>
             (\<forall>i. 0 \<le> i \<and> i < 2 * ndim \<longrightarrow> st_mem s (result + i) = m (yo + i)))"
  by (intro conjI leapfrog_first_block symplec4_first_block symplec6_first_block assms)

theorem first_block_is_initial_state_witness:
  "(\<exists>s. leapfrog osc_drift osc_kick 3 0 3 (- 9999.99) 10 0 0 unit_scaling diff_metric True 40
          20 23 26 29 32 (sigint_at 0) 0 osc_store = Some s \<and>
        st_mem s 40 = 1 \<and> st_mem s 41 = 0 \<and> st_mem s 42 = 0) \<and>
   (\<exists>s. symplec4 osc_drift osc_kick 3 0 3 (- 9999.99) 10 0 0 unit_scaling diff_metric True 40
          20 23 26 29 32 (sigint_at 0) 0 osc_store = Some s \<and>
        st_mem s 40 = 1 \<and> st_mem s 41 = 0 \<and> st_mem s 42 = 0) \<and>
   (\<exists>s. symplec6 osc_func 3 0 3 (- 9999.99) 10 0 0 40 50 53 56 59 62
          70 73 76 79 82 85 88 91 (sigint_at 0) 0 osc_store = Some s \<and>
        st_mem s 40 = 1 \<and> st_mem s 41 = 0 \<and> st_mem s 45 = 0)"
proof -
  have h: "drift_kick_frame 3 osc_drift osc_kick" "scaling_frame 3 unit_scaling"
    "metric_frame diff_metric" "func_frame 3 osc_func"
    "apart 0 3 40 3" "estimate_blocks_apart 3 20 23 26 29 32 40 3" "True \<longrightarrow> (3::int) \<le> 3"
    "apart 50 3 0 (2 * 3)" "apart 53 3 0 (2 * 3)" "apart 50 3 53 3"
    "symplec6_blocks_apart 3 50 53 56 59 62 40 (2 * 3)"
    "symplec6_estimate_blocks_apart 3 70 73 76 79 82 85 88 91 40 (2 * 3)"
    by (simp_all add: osc_drift_kick_frame unit_scaling_frame diff_metric_frame osc_func_frame
          apart_def estimate_blocks_apart_def symplec6_blocks_apart_def
          symplec6_estimate_blocks_apart_def)
  note w = first_block_is_initial_state [OF h, of 3 "- 9999.99" 10 0 0 "sigint_at 0" 0 osc_store]
  have v: "st_mem s 40 = 1 \<and> st_mem s 41 = 0 \<and> st_mem s 42 = 0"
    if "\<forall>i. 0 \<le> i \<and> i < 3 \<longrightarrow> st_mem s (40 + i) = osc_store (0 + i)" for s
    using that [rule_format, of 0] that [rule_format, of 1] that [rule_format, of 2]
    by (simp add: osc_store_def)
  have v6: "st_mem s 40 = 1 \<and> st_mem s 41 = 0 \<and> st_mem s 45 = 0"
    if "\<forall>i. 0 \<le> i \<and> i < 2 * 3 \<longrightarrow> st_mem s (40 + i) = osc_store (0 + i)" for s
    using that [rule_format, of 0] that [rule_format, of 1] that [rule_format, of 5]
    by (simp add: osc_store_def)
  from w show ?thesis
    by (elim conjE exE) (intro conjI exI; (assumption | rule v [THEN conjunct1] v [THEN conjunct2, THEN conjunct1] v [THEN conjunct2, THEN conjunct2] v6 [THEN conjunct1] v6 [THEN conjunct2, THEN conjunct1] v6 [THEN conjunct2, THEN conjunct2]); assumption)
qed

subsection \<open>Cancellation\<close>

lemma funpow_flags:
  fixes f :: "run_state \<Rightarrow> run_state"
  assumes "\<And>s. st_interrupted (f s) = st_interrupted s" "\<And>s. st_err (f s) = st_err s"
  shows "st_interrupted ((f ^^ n) s) = st_interrupted s" "st_err ((f ^^ n) s) = st_err s"
  by (induction n) (simp_all add: assms)

lemma first_sigint_run:
  assumes "st_interrupted s0 = 0" "\<And>s. st_interrupted (f s) = st_interrupted s"
    and "0 \<le> k" "k < nt - 1" "\<forall>j. 0 \<le> j \<and> j < k \<longrightarrow> \<not> sig j" "sig k"
  shows "output_loop sig nt f 0 s0 =
           ((f ^^ nat k) s0)\<lparr>st_err := - 10, st_interrupted := 0\<rparr>"
  by (rule output_loop_interrupt) (use assms in auto)

lemma no_sigint_run:
  assumes "st_interrupted s0 = 0" "\<And>s. st_interrupted (f s) = st_interrupted s"
  shows "output_loop no_sigint nt f 0 s0 = (f ^^ nat (nt - 1)) s0"
  using output_loop_no_signal [of s0 f no_sigint nt 0] assms by (simp add: no_sigint_def)

lemma funpow_prefix:
  fixes f :: "run_state \<Rightarrow> run_state"
  assumes "\<And>s. st_result (f s) = st_result s + b" and "0 \<le> b"
    and "\<And>s. st_result s0 + int k * b \<le> st_result s \<Longrightarrow> st_mem (f s) x = st_mem s x"
    and "k \<le> n"
  shows "st_mem ((f ^^ n) s0) x = st_mem ((f ^^ k) s0) x"
proof -
  from assms(4) have "f ^^ n = f ^^ ((n - k) + k)" by simp
  then have "(f ^^ n) s0 = (f ^^ (n - k)) ((f ^^ k) s0)"
    by (simp only: funpow_add comp_apply)
  moreover have "st_mem ((f ^^ (n - k)) ((f ^^ k) s0)) x = st_mem ((f ^^ k) s0) x"
    by (rule funpow_keeps [where hi = "st_result s0 + int k * b", OF assms(1,2,3)])
       (simp_all add: funpow_result [OF assms(1)])
  ultimately show ?thesis by simp
qed

text \<open>
  The three integrators have the same shape: an entry state and an interval that moves
  \<^verbatim>\<open>result\<close> on by a block and leaves the flags alone.
\<close>

lemma interrupted_run:
  fixes f :: "run_state \<Rightarrow> run_state"
  assumes "st_interrupted s0 = 0" "st_err s0 = 0"
    and "\<And>s. st_interrupted (f s) = st_interrupted s" "\<And>s. st_err (f s) = st_err s"
    and "\<And>s. st_result (f s) = st_result s + b"
    and "0 \<le> k" "k < nt - 1" "\<forall>j. 0 \<le> j \<and> j < k \<longrightarrow> \<not> sig j" "sig k"
    and "\<And>s x. 0 < b \<Longrightarrow> lo \<le> x \<Longrightarrow> x < st_result s0 + k * b \<Longrightarrow>
           st_result s0 + k * b \<le> st_result s \<Longrightarrow> st_mem (f s) x = st_mem s x"
    and "b \<le> 0 \<Longrightarrow> st_result s0 + k * b \<le> lo"
  shows "output_loop sig nt f 0 s0 = ((f ^^ nat k) s0)\<lparr>st_err := - 10, st_interrupted := 0\<rparr>"
    and "st_err (output_loop no_sigint nt f 0 s0) = 0"
    and "\<forall>x. lo \<le> x \<and> x < st_result s0 + k * b \<longrightarrow>
           st_mem ((f ^^ nat k) s0) x = st_mem (output_loop no_sigint nt f 0 s0) x"
proof -
  let ?sk = "(f ^^ nat k) s0"
  show "output_loop sig nt f 0 s0 = ?sk\<lparr>st_err := - 10, st_interrupted := 0\<rparr>"
    using assms(1,3,6,7,8,9) by (rule first_sigint_run)
  have B: "output_loop no_sigint nt f 0 s0 = (f ^^ nat (nt - 1)) s0"
    using assms(1,3) by (rule no_sigint_run)
  have "st_mem ?sk x = st_mem ((f ^^ nat (nt - 1)) s0) x"
    if x: "lo \<le> x" "x < st_result s0 + k * b" for x
  proof (cases "0 < b")
    case True
    have "st_mem ((f ^^ nat (nt - 1)) s0) x = st_mem ?sk x"
    proof (rule funpow_prefix [where b = b])
      show "st_mem (f s) x = st_mem s x" if "st_result s0 + int (nat k) * b \<le> st_result s" for s
        using that x True assms(6) by (intro assms(10)) simp_all
    qed (use True assms(5,6,7) in auto)
    then show ?thesis by simp
  next
    case False
    with assms(11) x show ?thesis by simp
  qed
  then show "\<forall>x. lo \<le> x \<and> x < st_result s0 + k * b \<longrightarrow>
           st_mem ?sk x = st_mem (output_loop no_sigint nt f 0 s0) x"
    by (simp add: B)
  show "st_err (output_loop no_sigint nt f 0 s0) = 0"
    by (simp add: B funpow_flags [OF assms(3,4)] assms(2))
qed

lemma leapfrog_interrupted:
  assumes "drift_kick_frame ndim drift kick"
    and "0 \<le> k" "k < nt - 1" "\<forall>j. 0 \<le> j \<and> j < k \<longrightarrow> \<not> sig j" "sig k"
    and "apart yo ndim result (nt * ndim)"
  shows "\<exists>dt' ndt s0 sB.
           leapfrog_init drift kick ndim yo dt t rtol atol tol_scaling metric construct_Lz result
             y11 y12 delta scaling scale2 0 m = Some (dt', ndt, s0) \<and>
           leapfrog drift kick ndim yo nt dt t rtol atol tol_scaling metric construct_Lz result
             y11 y12 delta scaling scale2 sig 0 m =
             Some (((leapfrog_interval drift kick ndim yo dt' ndt construct_Lz ^^ nat k) s0)
                     \<lparr>st_err := - 10, st_interrupted := 0\<rparr>) \<and>
           leapfrog drift kick ndim yo nt dt t rtol atol tol_scaling metric construct_Lz result
             y11 y12 delta scaling scale2 no_sigint 0 m = Some sB \<and> st_err sB = 0 \<and>
           (\<forall>x. result \<le> x \<and> x < result + (k + 1) * ndim \<longrightarrow>
              st_mem ((leapfrog_interval drift kick ndim yo dt' ndt construct_Lz ^^ nat k) s0) x =
              st_mem sB x)"
proof -
  have "\<exists>dt' ndt m'. leapfrog_init drift kick ndim yo dt t rtol atol tol_scaling metric
       construct_Lz result y11 y12 delta scaling scale2 0 m =
     Some (dt', ndt, \<lparr>st_mem = m', st_to = m' t, st_result = result + ndim, st_err = 0,
                      st_interrupted = 0\<rparr>)"
    by (rule leapfrog_init_total)
  then obtain dt' ndt m' where init: "leapfrog_init drift kick ndim yo dt t rtol atol tol_scaling
       metric construct_Lz result y11 y12 delta scaling scale2 0 m =
     Some (dt', ndt, \<lparr>st_mem = m', st_to = m' t, st_result = result + ndim, st_err = 0,
                      st_interrupted = 0\<rparr>)"
    by (elim exE)
  let ?s0 = "\<lparr>st_mem = m', st_to = m' t, st_result = result + ndim, st_err = 0,
              st_interrupted = 0\<rparr>"
  let ?f = "leapfrog_interval drift kick ndim yo dt' ndt construct_Lz"
  have hi: "st_result ?s0 + k * ndim = result + (k + 1) * ndim"
    by (simp add: algebra_simps)
  have le: "(k + 1) * ndim \<le> nt * ndim" if "0 < ndim"
    using that assms(3) by (intro mult_right_mono) auto
  note run = interrupted_run [where f = ?f and ?s0.0 = ?s0 and b = ndim and lo = result
      and k = k and nt = nt and sig = sig, unfolded hi]
  have frame: "st_mem (?f s) x = st_mem s x"
    if "0 < ndim" "result \<le> x" "x < result + (k + 1) * ndim" "result + (k + 1) * ndim \<le> st_result s"
    for s x
  proof -
    have "x < result + nt * ndim" using that(3) le [OF that(1)] by linarith
    with assms(6) that(2) have "x < yo \<or> yo + ndim \<le> x"
      unfolding apart_def by linarith
    moreover have "x < st_result s" using that by linarith
    ultimately show ?thesis by (rule leapfrog_interval_frame [OF assms(1)])
  qed
  have empty: "result + (k + 1) * ndim \<le> result" if "ndim \<le> 0"
    using that assms(2) by (simp add: mult_nonneg_nonpos)
  show ?thesis
    using run(1) [OF _ _ _ _ _ assms(2-5) frame empty]
      run(2) [OF _ _ _ _ _ assms(2-5) frame empty]
      run(3) [OF _ _ _ _ _ assms(2-5) frame empty]
    by (simp add: leapfrog_def init)
qed

lemma symplec4_interrupted:
  assumes "drift_kick_frame ndim drift kick"
    and "0 \<le> k" "k < nt - 1" "\<forall>j. 0 \<le> j \<and> j < k \<longrightarrow> \<not> sig j" "sig k"
    and "apart yo ndim result (nt * ndim)"
  shows "\<exists>dt' ndt s0 sB.
           symplec4_init drift kick ndim yo dt t rtol atol tol_scaling metric construct_Lz result
             y11 y12 delta scaling scale2 0 m = Some (dt', ndt, s0) \<and>
           symplec4 drift kick ndim yo nt dt t rtol atol tol_scaling metric construct_Lz result
             y11 y12 delta scaling scale2 sig 0 m =
             Some (((symplec4_interval drift kick ndim yo dt' ndt construct_Lz ^^ nat k) s0)
                     \<lparr>st_err := - 10, st_interrupted := 0\<rparr>) \<and>
           symplec4 drift kick ndim yo nt dt t rtol atol tol_scaling metric construct_Lz result
             y11 y12 delta scaling scale2 no_sigint 0 m = Some sB \<and> st_err sB = 0 \<and>
           (\<forall>x. result \<le> x \<and> x < result + (k + 1) * ndim \<longrightarrow>
              st_mem ((symplec4_interval drift kick ndim yo dt' ndt construct_Lz ^^ nat k) s0) x =
              st_mem sB x)"
proof -
  have "\<exists>dt' ndt m'. symplec4_init drift kick ndim yo dt t rtol atol tol_scaling metric
       construct_Lz result y11 y12 delta scaling scale2 0 m =
     Some (dt', ndt, \<lparr>st_mem = m', st_to = m' t, st_result = result + ndim, st_err = 0,
                      st_interrupted = 0\<rparr>)"
    by (rule symplec4_init_total)
  then obtain dt' ndt m' where init: "symplec4_init drift kick ndim yo dt t rtol atol tol_scaling
       metric construct_Lz result y11 y12 delta scaling scale2 0 m =
     Some (dt', ndt, \<lparr>st_mem = m', st_to = m' t, st_result = result + ndim, st_err = 0,
                      st_interrupted = 0\<rparr>)"
    by (elim exE)
  let ?s0 = "\<lparr>st_mem = m', st_to = m' t, st_result = result + ndim, st_err = 0,
              st_interrupted = 0\<rparr>"
  let ?f = "symplec4_interval drift kick ndim yo dt' ndt construct_Lz"
  have hi: "st_result ?s0 + k * ndim = result + (k + 1) * ndim"
    by (simp add: algebra_simps)
  have le: "(k + 1) * ndim \<le> nt * ndim" if "0 < ndim"
    using that assms(3) by (intro mult_right_mono) auto
  note run = interrupted_run [where f = ?f and ?s0.0 = ?s0 and b = ndim and lo = result
      and k = k and nt = nt and sig = sig, unfolded hi]
  have frame: "st_mem (?f s) x = st_mem s x"
    if "0 < ndim" "result \<le> x" "x < result + (k + 1) * ndim" "result + (k + 1) * ndim \<le> st_result s"
    for s x
  proof -
    have "x < result + nt * ndim" using that(3) le [OF that(1)] by linarith
    with assms(6) that(2) have "x < yo \<or> yo + ndim \<le> x"
      unfolding apart_def by linarith
    moreover have "x < st_result s" using that by linarith
    ultimately show ?thesis by (rule symplec4_interval_frame [OF assms(1)])
  qed
  have empty: "result + (k + 1) * ndim \<le> result" if "ndim \<le> 0"
    using that assms(2) by (simp add: mult_nonneg_nonpos)
  show ?thesis
    using run(1) [OF _ _ _ _ _ assms(2-5) frame empty]
      run(2) [OF _ _ _ _ _ assms(2-5) frame empty]
      run(3) [OF _ _ _ _ _ assms(2-5) frame empty]
    by (simp add: symplec4_def init)
qed

lemma symplec6_interrupted:
  assumes "func_frame ndim func"
    and "0 \<le> k" "k < nt - 1" "\<forall>j. 0 \<le> j \<and> j < k \<longrightarrow> \<not> sig j" "sig k"
    and "symplec6_blocks_apart ndim qo po q12 p12 a result (nt * (2 * ndim))"
  shows "\<exists>dt' ndt s0 sB.
           symplec6_init func ndim yo dt t rtol atol result qo po q12 p12 a
             e_q11 e_q12 e_p11 e_p12 e_qtmp e_ptmp e_a e_scale 0 m = Some (dt', ndt, s0) \<and>
           symplec6 func ndim yo nt dt t rtol atol result qo po q12 p12 a
             e_q11 e_q12 e_p11 e_p12 e_qtmp e_ptmp e_a e_scale sig 0 m =
             Some (((symplec6_interval func ndim dt' ndt qo po q12 p12 a ^^ nat k) s0)
                     \<lparr>st_err := - 10, st_interrupted := 0\<rparr>) \<and>
           symplec6 func ndim yo nt dt t rtol atol result qo po q12 p12 a
             e_q11 e_q12 e_p11 e_p12 e_qtmp e_ptmp e_a e_scale no_sigint 0 m = Some sB \<and>
           st_err sB = 0 \<and>
           (\<forall>x. result \<le> x \<and> x < result + (k + 1) * (2 * ndim) \<longrightarrow>
              st_mem ((symplec6_interval func ndim dt' ndt qo po q12 p12 a ^^ nat k) s0) x =
              st_mem sB x)"
proof -
  have "\<exists>dt' ndt m'. symplec6_init func ndim yo dt t rtol atol result qo po q12 p12 a
       e_q11 e_q12 e_p11 e_p12 e_qtmp e_ptmp e_a e_scale 0 m =
     Some (dt', ndt, \<lparr>st_mem = m', st_to = m' t, st_result = result + 2 * ndim, st_err = 0,
                      st_interrupted = 0\<rparr>)"
    by (rule symplec6_init_total)
  then obtain dt' ndt m' where init: "symplec6_init func ndim yo dt t rtol atol result
       qo po q12 p12 a e_q11 e_q12 e_p11 e_p12 e_qtmp e_ptmp e_a e_scale 0 m =
     Some (dt', ndt, \<lparr>st_mem = m', st_to = m' t, st_result = result + 2 * ndim, st_err = 0,
                      st_interrupted = 0\<rparr>)"
    by (elim exE)
  let ?s0 = "\<lparr>st_mem = m', st_to = m' t, st_result = result + 2 * ndim, st_err = 0,
              st_interrupted = 0\<rparr>"
  let ?f = "symplec6_interval func ndim dt' ndt qo po q12 p12 a"
  have hi: "st_result ?s0 + k * (2 * ndim) = result + (k + 1) * (2 * ndim)"
    by (simp add: algebra_simps)
  have le: "(k + 1) * (2 * ndim) \<le> nt * (2 * ndim)" if "0 < 2 * ndim"
    using that assms(3) by (intro mult_right_mono) auto
  note run = interrupted_run [where f = ?f and ?s0.0 = ?s0 and b = "2 * ndim" and lo = result
      and k = k and nt = nt and sig = sig, unfolded hi]
  have frame: "st_mem (?f s) x = st_mem s x"
    if "0 < 2 * ndim" "result \<le> x" "x < result + (k + 1) * (2 * ndim)"
      "result + (k + 1) * (2 * ndim) \<le> st_result s"
    for s x
  proof -
    have x: "x < result + nt * (2 * ndim)" using that(3) le [OF that(1)] by linarith
    have out: "x < p \<or> p + ndim \<le> x" if "apart p ndim result (nt * (2 * ndim))" for p
      using that x \<open>result \<le> x\<close> unfolding apart_def by linarith
    have "x < st_result s \<or> st_result s + 2 * ndim \<le> x" using that by linarith
    then show ?thesis
      using assms(6)
      by (intro symplec6_interval_frame [OF assms(1)] out)
         (simp_all add: symplec6_blocks_apart_def)
  qed
  have empty: "result + (k + 1) * (2 * ndim) \<le> result" if "2 * ndim \<le> 0"
    using that assms(2) by (simp add: mult_nonneg_nonpos)
  show ?thesis
    using run(1) [OF _ _ _ _ _ assms(2-5) frame empty]
      run(2) [OF _ _ _ _ _ assms(2-5) frame empty]
      run(3) [OF _ _ _ _ _ assms(2-5) frame empty]
    by (simp add: symplec6_def init)
qed

text \<open>
  Claim C1. In each integrator, when the flag is first seen set at the poll of interval
  \<open>k\<close> (it was clear at entry, no signal came before the polls of the intervals before
  \<open>k\<close>, one came before that of \<open>k\<close>), the call returns with \<^verbatim>\<open>*err = -10\<close> and the flag
  reset to \<open>0\<close>, in the state reached by exactly \<open>k\<close> intervals from the loop's entry, so
  no sub-step follows the poll; and the blocks \<open>0\<close> to \<open>k\<close> of the output buffer are those
  of the run on the same input that no signal interrupts (which returns \<^verbatim>\<open>*err = 0\<close>).
  The callbacks write only the vectors they are given, and \<open>yo\<close> (for \<^verbatim>\<open>symplec6\<close> its
  five blocks) does not overlap the output buffer.
\<close>

theorem interrupted_at_interval:
  assumes "drift_kick_frame ndim drift kick" "func_frame ndim func"
    and "0 \<le> k" "k < nt - 1" "\<forall>j. 0 \<le> j \<and> j < k \<longrightarrow> \<not> sig j" "sig k"
    and "apart yo ndim result (nt * ndim)"
    and "symplec6_blocks_apart ndim qo po q12 p12 a result (nt * (2 * ndim))"
  shows "(\<exists>dt' ndt s0 sB.
           leapfrog_init drift kick ndim yo dt t rtol atol tol_scaling metric construct_Lz result
             y11 y12 delta scaling scale2 0 m = Some (dt', ndt, s0) \<and>
           leapfrog drift kick ndim yo nt dt t rtol atol tol_scaling metric construct_Lz result
             y11 y12 delta scaling scale2 sig 0 m =
             Some (((leapfrog_interval drift kick ndim yo dt' ndt construct_Lz ^^ nat k) s0)
                     \<lparr>st_err := - 10, st_interrupted := 0\<rparr>) \<and>
           leapfrog drift kick ndim yo nt dt t rtol atol tol_scaling metric construct_Lz result
             y11 y12 delta scaling scale2 no_sigint 0 m = Some sB \<and> st_err sB = 0 \<and>
           (\<forall>x. result \<le> x \<and> x < result + (k + 1) * ndim \<longrightarrow>
              st_mem ((leapfrog_interval drift kick ndim yo dt' ndt construct_Lz ^^ nat k) s0) x =
              st_mem sB x)) \<and>
         (\<exists>dt' ndt s0 sB.
           symplec4_init drift kick ndim yo dt t rtol atol tol_scaling metric construct_Lz result
             y11 y12 delta scaling scale2 0 m = Some (dt', ndt, s0) \<and>
           symplec4 drift kick ndim yo nt dt t rtol atol tol_scaling metric construct_Lz result
             y11 y12 delta scaling scale2 sig 0 m =
             Some (((symplec4_interval drift kick ndim yo dt' ndt construct_Lz ^^ nat k) s0)
                     \<lparr>st_err := - 10, st_interrupted := 0\<rparr>) \<and>
           symplec4 drift kick ndim yo nt dt t rtol atol tol_scaling metric construct_Lz result
             y11 y12 delta scaling scale2 no_sigint 0 m = Some sB \<and> st_err sB = 0 \<and>
           (\<forall>x. result \<le> x \<and> x < result + (k + 1) * ndim \<longrightarrow>
              st_mem ((symplec4_interval drift kick ndim yo dt' ndt construct_Lz ^^ nat k) s0) x =
              st_mem sB x)) \<and>
         (\<exists>dt' ndt s0 sB.
           symplec6_init func ndim yo dt t rtol atol result qo po q12 p12 a
             e_q11 e_q12 e_p11 e_p12 e_qtmp e_ptmp e_a e_scale 0 m = Some (dt', ndt, s0) \<and>
           symplec6 func ndim yo nt dt t rtol atol result qo po q12 p12 a
             e_q11 e_q12 e_p11 e_p12 e_qtmp e_ptmp e_a e_scale sig 0 m =
             Some (((symplec6_interval func ndim dt' ndt qo po q12 p12 a ^^ nat k) s0)
                     \<lparr>st_err := - 10, st_interrupted := 0\<rparr>) \<and>
           symplec6 func ndim yo nt dt t rtol atol result qo po q12 p12 a
             e_q11 e_q12 e_p11 e_p12 e_qtmp e_ptmp e_a e_scale no_sigint 0 m = Some sB \<and>
           st_err sB = 0 \<and>
           (\<forall>x. result \<le> x \<and> x < result + (k + 1) * (2 * ndim) \<longrightarrow>
              st_mem ((symplec6_interval func ndim dt' ndt qo po q12 p12 a ^^ nat k) s0) x =
              st_mem sB x))"
  by (intro conjI leapfrog_interrupted symplec4_interrupted symplec6_interrupted assms)

theorem interrupted_at_interval_witness:
  "(\<exists>sA sB.
      leapfrog osc_drift osc_kick 2 0 3 (1 / 2) 10 0 0 unit_scaling diff_metric False 100
        20 22 24 26 28 (sigint_at 1) 0 osc_store = Some sA \<and>
      leapfrog osc_drift osc_kick 2 0 3 (1 / 2) 10 0 0 unit_scaling diff_metric False 100
        20 22 24 26 28 no_sigint 0 osc_store = Some sB \<and>
      st_err sA = - 10 \<and> st_interrupted sA = 0 \<and> st_err sB = 0 \<and>
      (\<forall>x. 100 \<le> x \<and> x < 104 \<longrightarrow> st_mem sA x = st_mem sB x)) \<and>
   (\<exists>sA sB.
      symplec4 osc_drift osc_kick 2 0 3 (1 / 2) 10 0 0 unit_scaling diff_metric False 100
        20 22 24 26 28 (sigint_at 1) 0 osc_store = Some sA \<and>
      symplec4 osc_drift osc_kick 2 0 3 (1 / 2) 10 0 0 unit_scaling diff_metric False 100
        20 22 24 26 28 no_sigint 0 osc_store = Some sB \<and>
      st_err sA = - 10 \<and> st_interrupted sA = 0 \<and> st_err sB = 0 \<and>
      (\<forall>x. 100 \<le> x \<and> x < 104 \<longrightarrow> st_mem sA x = st_mem sB x)) \<and>
   (\<exists>sA sB.
      symplec6 osc_func 2 0 3 (1 / 2) 10 0 0 100 50 52 54 56 58 70 72 74 76 78 80 82 84
        (sigint_at 1) 0 osc_store = Some sA \<and>
      symplec6 osc_func 2 0 3 (1 / 2) 10 0 0 100 50 52 54 56 58 70 72 74 76 78 80 82 84
        no_sigint 0 osc_store = Some sB \<and>
      st_err sA = - 10 \<and> st_interrupted sA = 0 \<and> st_err sB = 0 \<and>
      (\<forall>x. 100 \<le> x \<and> x < 108 \<longrightarrow> st_mem sA x = st_mem sB x))"
proof -
  have h: "drift_kick_frame 2 osc_drift osc_kick" "func_frame 2 osc_func"
    "(0::int) \<le> 1" "(1::int) < 3 - 1" "\<forall>j. 0 \<le> j \<and> j < 1 \<longrightarrow> \<not> sigint_at 1 j" "sigint_at 1 1"
    "apart 0 2 100 (3 * 2)" "symplec6_blocks_apart 2 50 52 54 56 58 100 (3 * (2 * 2))"
    by (simp_all add: osc_drift_kick_frame osc_func_frame sigint_at_def apart_def
          symplec6_blocks_apart_def)
  note w = interrupted_at_interval [OF h, of "1 / 2" 10 0 0 unit_scaling diff_metric False
      20 22 24 26 28 osc_store 70 72 74 76 78 80 82 84]
  from w show ?thesis
    by (elim conjE exE) simp
qed

subsection \<open>The cylindrical transform\<close>

lemma save_result_only_block:
  assumes "apart yo ndim result ndim" "construct_Lz \<longrightarrow> 3 \<le> ndim"
  shows "(\<forall>i. 0 \<le> i \<and> i < ndim \<longrightarrow> save_result ndim yo result construct_Lz m (yo + i) = m (yo + i)) \<and>
         (\<forall>i. 0 \<le> i \<and> i < ndim \<longrightarrow> save_result ndim yo result construct_Lz m (result + i) =
              (if construct_Lz \<and> i = 2 then m (yo + 2) / m yo else m (yo + i))) \<and>
         (\<forall>x. x < result \<or> result + ndim \<le> x \<longrightarrow>
              save_result ndim yo result construct_Lz m x = m x)"
proof (intro conjI allI impI)
  fix x assume x: "x < result \<or> result + ndim \<le> x"
  have "x \<noteq> result + 2" if construct_Lz
    using that assms(2) x by auto
  then show "save_result ndim yo result construct_Lz m x = m x"
    using x by (cases construct_Lz) (simp_all add: save_result_frame save_result_def Let_def copy_loop_frame)
next
  fix i assume i: "0 \<le> i \<and> i < ndim"
  then show "save_result ndim yo result construct_Lz m (result + i) =
              (if construct_Lz \<and> i = 2 then m (yo + 2) / m yo else m (yo + i))"
    using assms by (intro save_result_value) auto
  have out: "yo + i < result \<or> result + ndim \<le> yo + i"
    using i assms(1) by (auto simp: apart_def)
  have "yo + i \<noteq> result + 2" if construct_Lz
    using that assms(2) out by auto
  then show "save_result ndim yo result construct_Lz m (yo + i) = m (yo + i)"
    using out by (cases construct_Lz) (simp_all add: save_result_frame save_result_def Let_def copy_loop_frame)
qed

text \<open>
  Claim C5. With \<^verbatim>\<open>construct_Lz\<close> set, in every output interval of \<^verbatim>\<open>leapfrog\<close> and of
  \<^verbatim>\<open>symplec4\<close> the division of the third component by the first is made in the output
  block only: after the interval \<open>yo\<close> holds what the sub-steps left there, the block
  holds a copy of it with the third component divided by the first, and nothing outside
  the block differs from what the sub-steps left. (The multiplication of \<open>yo[2]\<close> by \<open>yo[0]\<close>
  before the loop, line 133, is not this division; it is part of claim C9.) The block
  and \<open>yo\<close> do not overlap, and there are at least three components.
\<close>

theorem cylindrical_transform_only_in_output:
  assumes "apart yo ndim (st_result s) ndim" "3 \<le> ndim"
  shows "(\<forall>i. 0 \<le> i \<and> i < ndim \<longrightarrow>
            st_mem (leapfrog_interval drift kick ndim yo dt ndt True s) (yo + i) =
            snd (leapfrog_substeps drift kick yo dt ndt (st_to s) (st_mem s)) (yo + i)) \<and>
         (\<forall>i. 0 \<le> i \<and> i < ndim \<longrightarrow>
            st_mem (leapfrog_interval drift kick ndim yo dt ndt True s) (st_result s + i) =
            (if i = 2
             then snd (leapfrog_substeps drift kick yo dt ndt (st_to s) (st_mem s)) (yo + 2) /
                  snd (leapfrog_substeps drift kick yo dt ndt (st_to s) (st_mem s)) yo
             else snd (leapfrog_substeps drift kick yo dt ndt (st_to s) (st_mem s)) (yo + i))) \<and>
         (\<forall>x. x < st_result s \<or> st_result s + ndim \<le> x \<longrightarrow>
            st_mem (leapfrog_interval drift kick ndim yo dt ndt True s) x =
            snd (leapfrog_substeps drift kick yo dt ndt (st_to s) (st_mem s)) x) \<and>
         (\<forall>i. 0 \<le> i \<and> i < ndim \<longrightarrow>
            st_mem (symplec4_interval drift kick ndim yo dt ndt True s) (yo + i) =
            snd (symplec4_substeps drift kick yo dt ndt (st_to s) (st_mem s)) (yo + i)) \<and>
         (\<forall>i. 0 \<le> i \<and> i < ndim \<longrightarrow>
            st_mem (symplec4_interval drift kick ndim yo dt ndt True s) (st_result s + i) =
            (if i = 2
             then snd (symplec4_substeps drift kick yo dt ndt (st_to s) (st_mem s)) (yo + 2) /
                  snd (symplec4_substeps drift kick yo dt ndt (st_to s) (st_mem s)) yo
             else snd (symplec4_substeps drift kick yo dt ndt (st_to s) (st_mem s)) (yo + i))) \<and>
         (\<forall>x. x < st_result s \<or> st_result s + ndim \<le> x \<longrightarrow>
            st_mem (symplec4_interval drift kick ndim yo dt ndt True s) x =
            snd (symplec4_substeps drift kick yo dt ndt (st_to s) (st_mem s)) x)"
  using save_result_only_block [OF assms(1), of True
          "snd (leapfrog_substeps drift kick yo dt ndt (st_to s) (st_mem s))"]
        save_result_only_block [OF assms(1), of True
          "snd (symplec4_substeps drift kick yo dt ndt (st_to s) (st_mem s))"] assms(2)
  by (simp add: leapfrog_interval_mem symplec4_interval_mem)

theorem cylindrical_transform_only_in_output_witness:
  "st_mem (leapfrog_interval osc_drift osc_kick 3 0 (1 / 2) 2 True
     \<lparr>st_mem = osc_store(2 := 6), st_to = 0, st_result = 40, st_err = 0, st_interrupted = 0\<rparr>) 2 = 6 \<and>
   st_mem (leapfrog_interval osc_drift osc_kick 3 0 (1 / 2) 2 True
     \<lparr>st_mem = osc_store(2 := 6), st_to = 0, st_result = 40, st_err = 0, st_interrupted = 0\<rparr>) 42
     = 6 / (17 / 32) \<and>
   st_mem (symplec4_interval osc_drift osc_kick 3 0 (1 / 2) 2 True
     \<lparr>st_mem = osc_store(2 := 6), st_to = 0, st_result = 40, st_err = 0, st_interrupted = 0\<rparr>) 2 = 6"
proof -
  let ?s = "\<lparr>st_mem = osc_store(2 := 6), st_to = 0, st_result = 40, st_err = 0,
             st_interrupted = 0\<rparr>"
  have h: "apart 0 3 (st_result ?s) 3" "(3::int) \<le> 3"
    by (simp_all add: apart_def)
  note w = cylindrical_transform_only_in_output [OF h, of osc_drift osc_kick "1 / 2" 2]
  have l: "snd (leapfrog_substeps osc_drift osc_kick 0 (1 / 2) 2 0 (osc_store(2 := 6))) 2 = 6"
    "snd (leapfrog_substeps osc_drift osc_kick 0 (1 / 2) 2 0 (osc_store(2 := 6))) 0 = 17 / 32"
    by (simp_all add: leapfrog_substeps_def Let_def osc_drift_def osc_kick_def osc_store_def
          for_loop.simps)
  have s4: "snd (symplec4_substeps osc_drift osc_kick 0 (1 / 2) 2 0 (osc_store(2 := 6))) 2 = 6"
    by (simp add: symplec4_substeps_def Let_def osc_drift_def osc_kick_def osc_store_def
          for_loop.simps)
  from w [THEN conjunct1, rule_format, of 2]
    w [THEN conjunct2, THEN conjunct1, rule_format, of 2]
    w [THEN conjunct2, THEN conjunct2, THEN conjunct2, THEN conjunct1, rule_format, of 2]
  show ?thesis
    by (simp add: l s4)
qed

subsection \<open>The caller's initial-state vector on return\<close>

lemma before_search_yo:
  assumes "0 \<le> i" "i < ndim" "apart yo ndim result ndim" "construct_Lz \<longrightarrow> 3 \<le> ndim"
  shows "before_search ndim yo result construct_Lz m (yo + i) =
           (if construct_Lz \<and> i = 2 then m (yo + 2) * m yo else m (yo + i))"
proof -
  have keep: "save_result ndim yo result False m (yo + j) = m (yo + j)" if "0 \<le> j" "j < ndim" for j
    using that save_result_only_block [OF assms(3), of False m] by simp
  show ?thesis
  proof (cases construct_Lz)
    case False
    with assms keep show ?thesis by (simp add: before_search_def Let_def)
  next
    case True
    with assms(4) have "3 \<le> ndim" by simp
    with keep [of 0] keep [of 2] keep [of i] assms True show ?thesis
      by (simp add: before_search_def Let_def)
  qed
qed

lemma block_inside:
  assumes "apart yo n result (nt * b)" "0 \<le> j" "j + 1 \<le> nt" "0 \<le> b"
  shows "apart yo n (result + j * b) b"
proof -
  have "0 \<le> j * b" using assms(2,4) by simp
  moreover have "(j + 1) * b \<le> nt * b" using assms(3,4) by (intro mult_right_mono) auto
  then have "j * b + b \<le> nt * b" by (simp add: algebra_simps)
  ultimately show ?thesis using assms(1) unfolding apart_def by linarith
qed

lemma symplec6_before_search_frame:
  assumes "x < qo \<or> qo + ndim \<le> x" "x < po \<or> po + ndim \<le> x"
    and "x < result \<or> result + 2 * ndim \<le> x"
  shows "symplec6_before_search ndim yo result qo po m x = m x"
  using assms by (simp add: symplec6_before_search_def save_qp_frame copy2_loop_frame')

lemma symplec6_yo_unchanged:
  assumes "func_frame ndim func" "1 \<le> nt"
    and "apart yo (2 * ndim) result (nt * (2 * ndim))"
    and "symplec6_blocks_apart ndim qo po q12 p12 a yo (2 * ndim)"
    and "symplec6_estimate_blocks_apart ndim e_q11 e_q12 e_p11 e_p12 e_qtmp e_ptmp e_a e_scale
           yo (2 * ndim)"
  shows "\<exists>s. symplec6 func ndim yo nt dt t rtol atol result qo po q12 p12 a
               e_q11 e_q12 e_p11 e_p12 e_qtmp e_ptmp e_a e_scale sig interrupted m = Some s \<and>
             (\<forall>i. 0 \<le> i \<and> i < 2 * ndim \<longrightarrow> st_mem s (yo + i) = m (yo + i))"
proof -
  from symplec6_init_frame [OF assms(1,5)]
  obtain dt' ndt m' where init: "symplec6_init func ndim yo dt t rtol atol result qo po q12 p12 a
       e_q11 e_q12 e_p11 e_p12 e_qtmp e_ptmp e_a e_scale interrupted m =
     Some (dt', ndt, \<lparr>st_mem = m', st_to = m' t, st_result = result + 2 * ndim, st_err = 0,
                      st_interrupted = interrupted\<rparr>)"
    and m': "\<forall>x\<in>{yo..<yo + 2 * ndim}. m' x = symplec6_before_search ndim yo result qo po m x"
    by blast
  let ?s0 = "\<lparr>st_mem = m', st_to = m' t, st_result = result + 2 * ndim, st_err = 0,
              st_interrupted = interrupted\<rparr>"
  let ?f = "symplec6_interval func ndim dt' ndt qo po q12 p12 a"
  let ?P = "{yo..<yo + 2 * ndim}"
  have scratch: "x < p \<or> p + ndim \<le> x" if "x \<in> ?P" "apart p ndim yo (2 * ndim)" for x p
    using that by (auto simp: apart_def)
  have block: "x < result + j * (2 * ndim) \<or> result + j * (2 * ndim) + 2 * ndim \<le> x"
    if "x \<in> ?P" "0 \<le> j" "j + 1 \<le> nt" for x j
  proof -
    from that(1) have "0 \<le> 2 * ndim" by auto
    with assms(3) that(2,3) have "apart yo (2 * ndim) (result + j * (2 * ndim)) (2 * ndim)"
      by (intro block_inside [where nt = nt]) auto
    with that(1) show ?thesis by (auto simp: apart_def)
  qed
  have "\<forall>x\<in>?P. st_mem (output_loop sig nt ?f 0 ?s0) x = m x"
  proof (rule output_loop_invariant
      [where I = "\<lambda>jj s. (\<forall>x\<in>?P. st_mem s x = m x) \<and> st_result s = result + (jj + 1) * (2 * ndim)"])
    show "(\<forall>x\<in>?P. st_mem ?s0 x = m x) \<and> st_result ?s0 = result + (0 + 1) * (2 * ndim)"
    proof (intro conjI ballI)
      fix x assume x: "x \<in> ?P"
      have "symplec6_before_search ndim yo result qo po m x = m x"
        using assms(2,4) scratch [OF x] block [OF x, of 0]
        by (intro symplec6_before_search_frame) (auto simp: symplec6_blocks_apart_def)
      with m' x show "st_mem ?s0 x = m x" by simp
    qed simp
    show "(\<forall>x\<in>?P. st_mem (?f s) x = m x) \<and>
          st_result (?f s) = result + (jj + 1 + 1) * (2 * ndim)"
      if "0 \<le> jj" "jj < nt - 1"
        "(\<forall>x\<in>?P. st_mem s x = m x) \<and> st_result s = result + (jj + 1) * (2 * ndim)" for jj s
    proof (intro conjI ballI)
      fix x assume x: "x \<in> ?P"
      have "st_mem (?f s) x = st_mem s x"
        using assms(4) scratch [OF x] block [OF x, of "jj + 1"] that
        by (intro symplec6_interval_frame [OF assms(1)]) (auto simp: symplec6_blocks_apart_def)
      with that x show "st_mem (?f s) x = m x" by simp
    next
      show "st_result (?f s) = result + (jj + 1 + 1) * (2 * ndim)"
        using that by (simp add: algebra_simps)
    qed
  qed simp_all
  then show ?thesis
    by (simp add: symplec6_def init)
qed

subsection \<open>The error of one pass\<close>

lemma for_loop_sum:
  "for_loop lo n (\<lambda>ii err. err + f ii) e = e + (\<Sum>i\<in>{lo..<n}. f i :: real)"
proof (induction "nat (n - lo)" arbitrary: lo e)
  case 0
  then show ?case by (simp add: for_loop_done)
next
  case (Suc k)
  then have lt: "lo < n" and k: "k = nat (n - (lo + 1))" by auto
  have "{lo..<n} = insert lo {lo + 1..<n}" using lt by auto
  then have "(\<Sum>i\<in>{lo..<n}. f i) = f lo + (\<Sum>i\<in>{lo + 1..<n}. f i)" by simp
  with Suc.hyps(1) [OF k, of "e + f lo"] lt show ?case
    by (simp add: for_loop_step)
qed

lemma leapfrog_estimate_iter_err:
  "leapfrog_estimate_iter drift kick ndim yo to metric y11 y12 delta scale2 dt err m =
     (sqrt (scaled_square_sum ndim delta scale2
              (leapfrog_estimate_trial drift kick ndim yo to metric y11 y12 delta dt m)
            / real_of_int ndim),
      leapfrog_estimate_trial drift kick ndim yo to metric y11 y12 delta dt m)"
  by (simp add: leapfrog_estimate_iter_def Let_def for_loop_sum scaled_square_sum_def)

lemma symplec4_estimate_iter_err:
  "symplec4_estimate_iter drift kick ndim yo t metric y11 y12 delta scale2 dt err m =
     (sqrt ((err + scaled_square_sum ndim delta scale2
                     (symplec4_estimate_trial drift kick ndim yo t metric y11 y12 delta dt m))
            / real_of_int ndim),
      symplec4_estimate_trial drift kick ndim yo t metric y11 y12 delta dt m)"
  by (simp add: symplec4_estimate_iter_def Let_def for_loop_sum scaled_square_sum_def)

lemma rest_scale:
  "symplec4_estimate_scale 2 0 0 0 unit_scaling 26 28 rest_store =
     rest_store(26 := 1, 27 := 1, 28 := 4, 29 := 4)"
  "leapfrog_estimate_scale 2 0 0 0 unit_scaling 26 28 rest_store =
     rest_store(26 := 1, 27 := 1, 28 := 4, 29 := 4)"
  by (simp_all add: symplec4_estimate_scale_def leapfrog_estimate_scale_def unit_scaling_def
        Let_def for_loop.simps cong: let_weak_cong)

lemma rest_trial:
  "symplec4_estimate_trial osc_drift osc_kick 2 0 10 diff_metric 20 22 24 1
     (rest_store(26 := 1, 27 := 1, 28 := 4, 29 := 4)) =
   rest_store(26 := 1, 27 := 1, 28 := 4, 29 := 4)"
  "leapfrog_estimate_trial osc_drift osc_kick 2 0 0 diff_metric 20 22 24 1
     (rest_store(26 := 1, 27 := 1, 28 := 4, 29 := 4)) =
   rest_store(26 := 1, 27 := 1, 28 := 4, 29 := 4)"
  by (simp_all add: symplec4_estimate_trial_def leapfrog_estimate_trial_def Let_def
        for_loop.simps osc_drift_def osc_kick_def diff_metric_def rest_store_def fun_eq_iff
        cong: let_weak_cong)

lemma rest_sum: "scaled_square_sum 2 24 28 (rest_store(26 := 1, 27 := 1, 28 := 4, 29 := 4)) = 0"
  by (simp add: scaled_square_sum_def rest_store_def)

text \<open>
  Claim C3 holds of \<^verbatim>\<open>leapfrog_estimate_step\<close>, whose pass sets \<^verbatim>\<open>err= 0.\<close> before the
  sum (line 553), and fails in \<^verbatim>\<open>symplec4_estimate_step\<close>, whose pass does not: there the
  error of a pass is the root of (the error of the pass before, or the initial \<open>2\<close>, plus
  this pass's sum) over \<open>dim\<close>. For the oscillator at rest every difference is zero:
  the sum is \<open>0\<close>, the error of the first leapfrog pass is \<open>0\<close>, that of the first
  \<^verbatim>\<open>symplec4\<close> pass is the root of \<open>(2 + 0) / 2\<close>.
\<close>

theorem symplec4_estimate_err_carried_over:
  "fst (symplec4_estimate_iter drift kick ndim yo t metric y11 y12 delta scale2 dt err m) =
     sqrt ((err + scaled_square_sum ndim delta scale2
                    (symplec4_estimate_trial drift kick ndim yo t metric y11 y12 delta dt m))
           / real_of_int ndim) \<and>
   fst (leapfrog_estimate_iter drift kick ndim yo to metric y11 y12 delta scale2 dt err m) =
     sqrt (scaled_square_sum ndim delta scale2
             (leapfrog_estimate_trial drift kick ndim yo to metric y11 y12 delta dt m)
           / real_of_int ndim) \<and>
   scaled_square_sum 2 24 28
     (symplec4_estimate_trial osc_drift osc_kick 2 0 10 diff_metric 20 22 24 1
        (symplec4_estimate_scale 2 0 0 0 unit_scaling 26 28 rest_store)) = 0 \<and>
   fst (symplec4_estimate_iter osc_drift osc_kick 2 0 10 diff_metric 20 22 24 28 1 2
          (symplec4_estimate_scale 2 0 0 0 unit_scaling 26 28 rest_store)) = 1 \<and>
   fst (leapfrog_estimate_iter osc_drift osc_kick 2 0 0 diff_metric 20 22 24 28 1 2
          (leapfrog_estimate_scale 2 0 0 0 unit_scaling 26 28 rest_store)) = 0"
  by (simp add: symplec4_estimate_iter_err leapfrog_estimate_iter_err rest_scale rest_trial
        rest_sum)

subsection \<open>The oscillator on the pair \<open>(q, p)\<close>\<close>

lemma qp_osc_drift: "qp_at y (osc_drift dt y m) = osc_drift_qp dt (qp_at y m)"
  by (simp add: qp_at_def osc_drift_def osc_drift_qp_def)

lemma qp_osc_kick: "qp_at y (osc_kick dt t y m) = osc_kick_qp dt (qp_at y m)"
  by (simp add: qp_at_def osc_kick_def osc_kick_qp_def)

lemma qp_osc_drift_other: "y' + 2 \<le> y \<or> y + 2 \<le> y' \<Longrightarrow> qp_at y' (osc_drift dt y m) = qp_at y' m"
  by (auto simp: qp_at_def osc_drift_def)

lemma qp_osc_kick_other: "y' + 2 \<le> y \<or> y + 2 \<le> y' \<Longrightarrow> qp_at y' (osc_kick dt t y m) = qp_at y' m"
  by (auto simp: qp_at_def osc_kick_def)

lemma qp_reset:
  assumes "yo + 2 \<le> y11 \<or> y11 + 2 \<le> yo" "yo + 2 \<le> y12 \<or> y12 + 2 \<le> yo"
    "y11 + 2 \<le> y12 \<or> y12 + 2 \<le> y11"
  shows "qp_at y11 (for_loop 0 2
           (\<lambda>ii m. let m = m(y11 + ii := m (yo + ii)) in m(y12 + ii := m (yo + ii))) m) = qp_at yo m"
    "qp_at y12 (for_loop 0 2
           (\<lambda>ii m. let m = m(y11 + ii := m (yo + ii)) in m(y12 + ii := m (yo + ii))) m) = qp_at yo m"
  using assms by (auto simp: qp_at_def for_loop.simps Let_def)

lemma qp_reset_osc:
  "qp_at 20 (for_loop 0 2 (\<lambda>ii m. m(20 + ii := m ii, 22 + ii := m ii)) m) = qp_at 0 m"
  "qp_at 22 (for_loop 0 2 (\<lambda>ii m. m(20 + ii := m ii, 22 + ii := m ii)) m) = qp_at 0 m"
  by (simp_all add: qp_at_def for_loop.simps)

lemma qp_diff_metric:
  assumes "x + 2 \<le> res \<or> res + 2 \<le> x" "y + 2 \<le> res \<or> res + 2 \<le> y"
  shows "qp_at res (diff_metric 2 x y res m) =
           (fst (qp_at x m) - fst (qp_at y m), snd (qp_at x m) - snd (qp_at y m))"
  using assms by (auto simp: qp_at_def diff_metric_def for_loop.simps)

lemma osc_symplec4_trial_delta:
  "qp_at 24 (symplec4_estimate_trial osc_drift osc_kick 2 0 10 diff_metric 20 22 24 dt m) =
     (fst (osc_symplec4_one dt (qp_at 0 m)) - fst (osc_symplec4_two (dt / 2) (qp_at 0 m)),
      snd (osc_symplec4_one dt (qp_at 0 m)) - snd (osc_symplec4_two (dt / 2) (qp_at 0 m)))"
  by (simp add: symplec4_estimate_trial_def Let_def qp_diff_metric qp_osc_drift qp_osc_kick
        qp_osc_drift_other qp_osc_kick_other qp_reset_osc osc_symplec4_one_def osc_symplec4_two_def)

subsection \<open>The sub-steps of a whole run\<close>

lemma for_loop_nat: "for_loop 0 n body s = for_loop 0 (0 + int (nat n)) body s"
  by (cases "0 \<le> n") (simp_all add: for_loop_done)

lemma leapfrog_substeps_list:
  "leapfrog_substeps drift kick yo dt ndt to m =
     (leapfrog_interval_end dt ndt to,
      apply_substeps drift kick yo (leapfrog_spec_substeps dt to ndt) m)"
proof -
  let ?k = "nat (ndt - 1)"
  let ?pairs = "concat (map (\<lambda>j. [Kick dt (to + real j * dt + dt / 2), Drift dt]) [0..<?k])"
  let ?m1 = "apply_substeps drift kick yo ?pairs (drift (dt / 2) yo m)"
  have "for_loop 0 (ndt - 1)
     (\<lambda>jj (to, m).
         let m = kick dt (to + dt / 2) yo m;
             m = drift dt yo m;
             to = to + dt
         in (to, m)) (to, drift (dt / 2) yo m) = (to + real ?k * dt, ?m1)"
    by (subst for_loop_nat) (rule leapfrog_inner_loop)
  then show ?thesis
    by (simp add: leapfrog_substeps_def leapfrog_interval_end_def leapfrog_spec_substeps_def
          apply_substeps_def)
qed

lemma concat_map_upt_Suc:
  "concat (map f [0..<Suc k]) = f 0 @ concat (map (\<lambda>j. f (Suc j)) [0..<k])"
proof -
  have "[0..<Suc k] = 0 # map Suc [0..<k]"
    by (simp add: upt_conv_Cons map_Suc_upt del: upt_Suc)
  then show ?thesis
    by (simp add: comp_def del: upt_Suc)
qed

lemma symplec4_inner_loop:
  "for_loop lo (lo + int k)
     (\<lambda>jj (to, m).
         let m = kick (s4_d1 * dt) to yo m;
             m = drift (s4_c2 * dt) yo m;
             to = to + s4_c2 * dt;
             m = kick (s4_d2 * dt) to yo m;
             m = drift (s4_c3 * dt) yo m;
             to = to + s4_c3 * dt;
             m = kick (s4_d3 * dt) to yo m;
             m = drift (s4_c41 * dt) yo m;
             to = to + s4_c41 * dt
         in (to, m)) (to, m) =
   (to + real k * ((s4_c2 + s4_c3 + s4_c41) * dt),
    apply_substeps drift kick yo
      (concat (map (\<lambda>j. symplec4_spec_block dt s4_c41
                          (to + real j * ((s4_c2 + s4_c3 + s4_c41) * dt))) [0..<k])) m)"
  (is "for_loop _ _ ?body _ = _")
proof (induction k arbitrary: lo to m)
  case 0
  show ?case by (simp add: for_loop_done apply_substeps_def)
next
  case (Suc k)
  let ?X = "(s4_c2 + s4_c3 + s4_c41) * dt"
  let ?m = "apply_substeps drift kick yo (symplec4_spec_block dt s4_c41 to) m"
  have "for_loop lo (lo + int (Suc k)) ?body (to, m)
          = for_loop (lo + 1) (lo + 1 + int k) ?body (?body lo (to, m))"
    by (subst for_loop_step) (simp_all add: add.commute add.left_commute)
  also have "?body lo (to, m) = (to + ?X, ?m)"
    by (simp add: Let_def apply_substeps_def symplec4_spec_block_def algebra_simps)
  also have "for_loop (lo + 1) (lo + 1 + int k) ?body (to + ?X, ?m) =
      (to + ?X + real k * ?X,
       apply_substeps drift kick yo
         (concat (map (\<lambda>j. symplec4_spec_block dt s4_c41 (to + ?X + real j * ?X)) [0..<k])) ?m)"
    by (rule Suc.IH)
  also have "to + ?X + real k * ?X = to + real (Suc k) * ?X"
    by (simp add: algebra_simps)
  also have "(\<lambda>j. symplec4_spec_block dt s4_c41 (to + ?X + real j * ?X)) =
      (\<lambda>j. symplec4_spec_block dt s4_c41 (to + real (Suc j) * ?X))"
    by (simp add: algebra_simps)
  finally show ?case
    by (simp only: concat_map_upt_Suc [where f = "\<lambda>j. symplec4_spec_block dt s4_c41
          (to + real j * ?X)"] apply_substeps_append) simp
qed

lemma symplec4_substeps_list:
  "symplec4_substeps drift kick yo dt ndt to m =
     (symplec4_interval_end dt ndt to,
      apply_substeps drift kick yo (symplec4_spec_substeps dt to ndt) m)"
proof -
  let ?k = "nat (ndt - 1)"
  let ?X = "(s4_c2 + s4_c3 + s4_c41) * dt"
  let ?blocks = "concat (map (\<lambda>j. symplec4_spec_block dt s4_c41
                                 (to + s4_c1 * dt + real j * ?X)) [0..<?k])"
  let ?m1 = "apply_substeps drift kick yo ?blocks (drift (s4_c1 * dt) yo m)"
  have "for_loop 0 (ndt - 1)
     (\<lambda>jj (to, m).
         let m = kick (s4_d1 * dt) to yo m;
             m = drift (s4_c2 * dt) yo m;
             to = to + s4_c2 * dt;
             m = kick (s4_d2 * dt) to yo m;
             m = drift (s4_c3 * dt) yo m;
             to = to + s4_c3 * dt;
             m = kick (s4_d3 * dt) to yo m;
             m = drift (s4_c41 * dt) yo m;
             to = to + s4_c41 * dt
         in (to, m)) (to + s4_c1 * dt, drift (s4_c1 * dt) yo m) =
     (to + s4_c1 * dt + real ?k * ?X, ?m1)"
    by (subst for_loop_nat) (rule symplec4_inner_loop)
  then show ?thesis
    by (simp add: symplec4_substeps_def symplec4_interval_end_def symplec4_spec_substeps_def
          symplec4_spec_block_def apply_substeps_def Let_def)
qed

lemma apply_substeps_agree:
  assumes "drift_kick_local ndim drift kick"
    and "\<forall>i. 0 \<le> i \<and> i < ndim \<longrightarrow> m (yo + i) = m' (yo + i)"
  shows "\<forall>i. 0 \<le> i \<and> i < ndim \<longrightarrow>
           apply_substeps drift kick yo steps m (yo + i) =
           apply_substeps drift kick yo steps m' (yo + i)"
  using assms(2)
proof (induction steps arbitrary: m m')
  case Nil
  then show ?case by (simp add: apply_substeps_def)
next
  case (Cons x xs)
  have "\<forall>i. 0 \<le> i \<and> i < ndim \<longrightarrow>
          apply_substep drift kick yo x m (yo + i) = apply_substep drift kick yo x m' (yo + i)"
  proof (cases x)
    case (Drift dt)
    from assms(1) Cons.prems
    have "\<forall>i. 0 \<le> i \<and> i < ndim \<longrightarrow> drift dt yo m (yo + i) = drift dt yo m' (yo + i)"
      unfolding drift_kick_local_def by blast
    with Drift show ?thesis by simp
  next
    case (Kick dt t)
    from assms(1) Cons.prems
    have "\<forall>i. 0 \<le> i \<and> i < ndim \<longrightarrow> kick dt t yo m (yo + i) = kick dt t yo m' (yo + i)"
      unfolding drift_kick_local_def by blast
    with Kick show ?thesis by simp
  qed
  from Cons.IH [OF this] show ?case by (simp add: apply_substeps_def)
qed

lemma intervals_substeps_Suc:
  "intervals_substeps steps next_to to (Suc n) =
     intervals_substeps steps next_to to n @ steps ((next_to ^^ n) to)"
  by (simp add: intervals_substeps_def)

lemma intervals_yo:
  fixes f :: "run_state \<Rightarrow> run_state"
  assumes loc: "drift_kick_local ndim drift kick"
    and to: "\<And>s. st_to (f s) = next_to (st_to s)"
    and res: "\<And>s. st_result (f s) = st_result s + ndim"
    and mem: "\<And>s i. apart yo ndim (st_result s) ndim \<Longrightarrow> 0 \<le> i \<Longrightarrow> i < ndim \<Longrightarrow>
               st_mem (f s) (yo + i) =
               apply_substeps drift kick yo (steps (st_to s)) (st_mem s) (yo + i)"
    and ap: "apart yo ndim result (nt * ndim)" and r0: "st_result s0 = result + ndim"
    and n: "int n + 1 \<le> nt"
  shows "st_to ((f ^^ n) s0) = (next_to ^^ n) (st_to s0) \<and>
         (\<forall>i. 0 \<le> i \<and> i < ndim \<longrightarrow> st_mem ((f ^^ n) s0) (yo + i) =
            apply_substeps drift kick yo (intervals_substeps steps next_to (st_to s0) n)
              (st_mem s0) (yo + i))"
  using n
proof (induction n)
  case 0
  show ?case by (simp add: intervals_substeps_def apply_substeps_def)
next
  case (Suc n)
  let ?s = "(f ^^ n) s0"
  let ?A = "apply_substeps drift kick yo (intervals_substeps steps next_to (st_to s0) n) (st_mem s0)"
  from Suc have IH: "st_to ?s = (next_to ^^ n) (st_to s0)"
    "\<forall>i. 0 \<le> i \<and> i < ndim \<longrightarrow> st_mem ?s (yo + i) = ?A (yo + i)"
    by simp_all
  have r: "st_result ?s = result + (int n + 1) * ndim"
    by (simp add: funpow_result [OF res] r0 algebra_simps)
  have "st_mem (f ?s) (yo + i) =
          apply_substeps drift kick yo (steps ((next_to ^^ n) (st_to s0))) ?A (yo + i)"
    if i: "0 \<le> i" "i < ndim" for i
  proof -
    have "apart yo ndim (result + (int n + 1) * ndim) ndim"
      using ap Suc.prems i by (intro block_inside [where nt = nt]) auto
    with r have "st_mem (f ?s) (yo + i) =
        apply_substeps drift kick yo (steps (st_to ?s)) (st_mem ?s) (yo + i)"
      using i by (intro mem) simp_all
    also have "\<dots> = apply_substeps drift kick yo (steps (st_to ?s)) ?A (yo + i)"
      using apply_substeps_agree [OF loc IH(2)] i by blast
    finally show ?thesis by (simp add: IH(1))
  qed
  then show ?case
    by (simp add: to IH(1) intervals_substeps_Suc apply_substeps_append)
qed

lemma leapfrog_interval_yo:
  assumes "apart yo ndim (st_result s) ndim" "construct_Lz \<longrightarrow> 3 \<le> ndim" "0 \<le> i" "i < ndim"
  shows "st_mem (leapfrog_interval drift kick ndim yo dt ndt construct_Lz s) (yo + i) =
           apply_substeps drift kick yo (leapfrog_spec_substeps dt (st_to s) ndt) (st_mem s) (yo + i)"
  using save_result_only_block [OF assms(1,2)] assms(3,4)
  by (simp add: leapfrog_interval_mem leapfrog_substeps_list)

lemma symplec4_interval_yo:
  assumes "apart yo ndim (st_result s) ndim" "construct_Lz \<longrightarrow> 3 \<le> ndim" "0 \<le> i" "i < ndim"
  shows "st_mem (symplec4_interval drift kick ndim yo dt ndt construct_Lz s) (yo + i) =
           apply_substeps drift kick yo (symplec4_spec_substeps dt (st_to s) ndt) (st_mem s) (yo + i)"
  using save_result_only_block [OF assms(1,2)] assms(3,4)
  by (simp add: symplec4_interval_mem symplec4_substeps_list)

lemma leapfrog_interval_to:
  "st_to (leapfrog_interval drift kick ndim yo dt ndt construct_Lz s) =
     leapfrog_interval_end dt ndt (st_to s)"
  by (simp add: leapfrog_interval_def leapfrog_substeps_list)

lemma symplec4_interval_to:
  "st_to (symplec4_interval drift kick ndim yo dt ndt construct_Lz s) =
     symplec4_interval_end dt ndt (st_to s)"
  by (simp add: symplec4_interval_def symplec4_substeps_list)

lemma leapfrog_yo_integrated:
  assumes "drift_kick_frame ndim drift kick" "scaling_frame ndim tol_scaling" "metric_frame metric"
    and "2 \<le> nt" "apart yo ndim result (nt * ndim)"
    and "estimate_blocks_apart ndim y11 y12 delta scaling scale2 yo ndim"
    and "construct_Lz \<longrightarrow> 3 \<le> ndim"
    and "drift_kick_local ndim drift kick"
  shows "\<exists>dt' ndt s0 s.
           leapfrog_init drift kick ndim yo dt t rtol atol tol_scaling metric construct_Lz result
             y11 y12 delta scaling scale2 0 m = Some (dt', ndt, s0) \<and>
           (\<forall>i. 0 \<le> i \<and> i < ndim \<longrightarrow> st_mem s0 (yo + i) =
              (if construct_Lz \<and> i = 2 then m (yo + 2) * m yo else m (yo + i))) \<and>
           leapfrog drift kick ndim yo nt dt t rtol atol tol_scaling metric construct_Lz result
             y11 y12 delta scaling scale2 no_sigint 0 m = Some s \<and>
           (\<forall>i. 0 \<le> i \<and> i < ndim \<longrightarrow> st_mem s (yo + i) =
              apply_substeps drift kick yo
                (intervals_substeps (\<lambda>to. leapfrog_spec_substeps dt' to ndt)
                   (leapfrog_interval_end dt' ndt) (st_to s0) (nat (nt - 1)))
                (st_mem s0) (yo + i)) \<and>
           (\<forall>i. 0 \<le> i \<and> i < ndim \<longrightarrow> st_mem s (result + (nt - 1) * ndim + i) =
              (if construct_Lz \<and> i = 2 then st_mem s (yo + 2) / st_mem s yo
               else st_mem s (yo + i)))"
proof -
  from leapfrog_init_frame [OF assms(1,2,3,6)]
  obtain dt' ndt m' where init: "leapfrog_init drift kick ndim yo dt t rtol atol tol_scaling metric
       construct_Lz result y11 y12 delta scaling scale2 0 m =
     Some (dt', ndt, \<lparr>st_mem = m', st_to = m' t, st_result = result + ndim, st_err = 0,
                      st_interrupted = 0\<rparr>)"
    and m': "\<forall>x\<in>{yo..<yo + ndim}. m' x = before_search ndim yo result construct_Lz m x"
    by blast
  let ?s0 = "\<lparr>st_mem = m', st_to = m' t, st_result = result + ndim, st_err = 0,
              st_interrupted = 0\<rparr>"
  let ?f = "leapfrog_interval drift kick ndim yo dt' ndt construct_Lz"
  let ?s' = "(?f ^^ nat (nt - 2)) ?s0"
  have run: "output_loop no_sigint nt ?f 0 ?s0 = ?f ?s'"
  proof -
    have "nat (nt - 1) = Suc (nat (nt - 2))" using assms(4) by simp
    then show ?thesis by (simp add: no_sigint_run)
  qed
  have res: "st_result ?s' = result + (nt - 1) * ndim"
    using assms(4) by (simp add: funpow_result [where b = ndim] algebra_simps)
  have entry: "st_mem ?s0 (yo + i) =
      (if construct_Lz \<and> i = 2 then m (yo + 2) * m yo else m (yo + i))"
    if i: "0 \<le> i" "i < ndim" for i
  proof -
    have "apart yo ndim (result + 0 * ndim) ndim"
      using assms(4,5) i by (intro block_inside [where nt = nt]) auto
    then show ?thesis using m' i assms(7) by (simp add: before_search_yo)
  qed
  have last: "st_mem (?f ?s') (result + (nt - 1) * ndim + i) =
      (if construct_Lz \<and> i = 2 then st_mem (?f ?s') (yo + 2) / st_mem (?f ?s') yo
       else st_mem (?f ?s') (yo + i))"
    if i: "0 \<le> i" "i < ndim" for i
  proof -
    have "apart yo ndim (result + (nt - 1) * ndim) ndim"
      using assms(4,5) i by (intro block_inside [where nt = nt]) auto
    moreover define ms where
      "ms = snd (leapfrog_substeps drift kick yo dt' ndt (st_to ?s') (st_mem ?s'))"
    moreover define mf where
      "mf = save_result ndim yo (result + (nt - 1) * ndim) construct_Lz ms"
    ultimately have sr: "\<forall>i. 0 \<le> i \<and> i < ndim \<longrightarrow> mf (yo + i) = ms (yo + i)"
      "\<forall>i. 0 \<le> i \<and> i < ndim \<longrightarrow> mf (result + (nt - 1) * ndim + i) =
              (if construct_Lz \<and> i = 2 then ms (yo + 2) / ms yo else ms (yo + i))"
      using save_result_only_block [of yo ndim "result + (nt - 1) * ndim" construct_Lz ms] assms(7)
      by simp_all
    have mf: "st_mem (?f ?s') = mf"
      by (simp add: leapfrog_interval_mem res mf_def ms_def)
    have "mf (yo + 2) = ms (yo + 2) \<and> mf yo = ms yo" if construct_Lz
      using that assms(7) sr(1) [rule_format, of 0] sr(1) [rule_format, of 2] by simp
    with sr(1) [rule_format, of i] sr(2) [rule_format, of i] i
    show ?thesis
      unfolding mf by auto
  qed
  have "nat (nt - 1) = Suc (nat (nt - 2))" using assms(4) by simp
  then have run': "?f ?s' = (?f ^^ nat (nt - 1)) ?s0" by simp
  have "int (nat (nt - 1)) + 1 \<le> nt" using assms(4) by simp
  from intervals_yo [of ndim drift kick ?f "leapfrog_interval_end dt' ndt" yo
      "\<lambda>to. leapfrog_spec_substeps dt' to ndt" result nt ?s0 "nat (nt - 1)",
      OF assms(8) leapfrog_interval_to _ _ assms(5) _ this]
  have whole: "\<forall>i. 0 \<le> i \<and> i < ndim \<longrightarrow> st_mem (?f ?s') (yo + i) =
      apply_substeps drift kick yo
        (intervals_substeps (\<lambda>to. leapfrog_spec_substeps dt' to ndt)
           (leapfrog_interval_end dt' ndt) (st_to ?s0) (nat (nt - 1)))
        (st_mem ?s0) (yo + i)"
    unfolding run' using assms(7) by (simp add: leapfrog_interval_yo)
  show ?thesis
    using entry last whole by (simp add: leapfrog_def init run)
qed


lemma symplec4_yo_integrated:
  assumes "drift_kick_frame ndim drift kick" "scaling_frame ndim tol_scaling" "metric_frame metric"
    and "2 \<le> nt" "apart yo ndim result (nt * ndim)"
    and "estimate_blocks_apart ndim y11 y12 delta scaling scale2 yo ndim"
    and "construct_Lz \<longrightarrow> 3 \<le> ndim"
    and "drift_kick_local ndim drift kick"
  shows "\<exists>dt' ndt s0 s.
           symplec4_init drift kick ndim yo dt t rtol atol tol_scaling metric construct_Lz result
             y11 y12 delta scaling scale2 0 m = Some (dt', ndt, s0) \<and>
           (\<forall>i. 0 \<le> i \<and> i < ndim \<longrightarrow> st_mem s0 (yo + i) =
              (if construct_Lz \<and> i = 2 then m (yo + 2) * m yo else m (yo + i))) \<and>
           symplec4 drift kick ndim yo nt dt t rtol atol tol_scaling metric construct_Lz result
             y11 y12 delta scaling scale2 no_sigint 0 m = Some s \<and>
           (\<forall>i. 0 \<le> i \<and> i < ndim \<longrightarrow> st_mem s (yo + i) =
              apply_substeps drift kick yo
                (intervals_substeps (\<lambda>to. symplec4_spec_substeps dt' to ndt)
                   (symplec4_interval_end dt' ndt) (st_to s0) (nat (nt - 1)))
                (st_mem s0) (yo + i)) \<and>
           (\<forall>i. 0 \<le> i \<and> i < ndim \<longrightarrow> st_mem s (result + (nt - 1) * ndim + i) =
              (if construct_Lz \<and> i = 2 then st_mem s (yo + 2) / st_mem s yo
               else st_mem s (yo + i)))"
proof -
  from symplec4_init_frame [OF assms(1,2,3,6)]
  obtain dt' ndt m' where init: "symplec4_init drift kick ndim yo dt t rtol atol tol_scaling metric
       construct_Lz result y11 y12 delta scaling scale2 0 m =
     Some (dt', ndt, \<lparr>st_mem = m', st_to = m' t, st_result = result + ndim, st_err = 0,
                      st_interrupted = 0\<rparr>)"
    and m': "\<forall>x\<in>{yo..<yo + ndim}. m' x = before_search ndim yo result construct_Lz m x"
    by blast
  let ?s0 = "\<lparr>st_mem = m', st_to = m' t, st_result = result + ndim, st_err = 0,
              st_interrupted = 0\<rparr>"
  let ?f = "symplec4_interval drift kick ndim yo dt' ndt construct_Lz"
  let ?s' = "(?f ^^ nat (nt - 2)) ?s0"
  have run: "output_loop no_sigint nt ?f 0 ?s0 = ?f ?s'"
  proof -
    have "nat (nt - 1) = Suc (nat (nt - 2))" using assms(4) by simp
    then show ?thesis by (simp add: no_sigint_run)
  qed
  have res: "st_result ?s' = result + (nt - 1) * ndim"
    using assms(4) by (simp add: funpow_result [where b = ndim] algebra_simps)
  have entry: "st_mem ?s0 (yo + i) =
      (if construct_Lz \<and> i = 2 then m (yo + 2) * m yo else m (yo + i))"
    if i: "0 \<le> i" "i < ndim" for i
  proof -
    have "apart yo ndim (result + 0 * ndim) ndim"
      using assms(4,5) i by (intro block_inside [where nt = nt]) auto
    then show ?thesis using m' i assms(7) by (simp add: before_search_yo)
  qed
  have last: "st_mem (?f ?s') (result + (nt - 1) * ndim + i) =
      (if construct_Lz \<and> i = 2 then st_mem (?f ?s') (yo + 2) / st_mem (?f ?s') yo
       else st_mem (?f ?s') (yo + i))"
    if i: "0 \<le> i" "i < ndim" for i
  proof -
    have "apart yo ndim (result + (nt - 1) * ndim) ndim"
      using assms(4,5) i by (intro block_inside [where nt = nt]) auto
    moreover define ms where
      "ms = snd (symplec4_substeps drift kick yo dt' ndt (st_to ?s') (st_mem ?s'))"
    moreover define mf where
      "mf = save_result ndim yo (result + (nt - 1) * ndim) construct_Lz ms"
    ultimately have sr: "\<forall>i. 0 \<le> i \<and> i < ndim \<longrightarrow> mf (yo + i) = ms (yo + i)"
      "\<forall>i. 0 \<le> i \<and> i < ndim \<longrightarrow> mf (result + (nt - 1) * ndim + i) =
              (if construct_Lz \<and> i = 2 then ms (yo + 2) / ms yo else ms (yo + i))"
      using save_result_only_block [of yo ndim "result + (nt - 1) * ndim" construct_Lz ms] assms(7)
      by simp_all
    have mf: "st_mem (?f ?s') = mf"
      by (simp add: symplec4_interval_mem res mf_def ms_def)
    have "mf (yo + 2) = ms (yo + 2) \<and> mf yo = ms yo" if construct_Lz
      using that assms(7) sr(1) [rule_format, of 0] sr(1) [rule_format, of 2] by simp
    with sr(1) [rule_format, of i] sr(2) [rule_format, of i] i
    show ?thesis
      unfolding mf by auto
  qed
  have "nat (nt - 1) = Suc (nat (nt - 2))" using assms(4) by simp
  then have run': "?f ?s' = (?f ^^ nat (nt - 1)) ?s0" by simp
  have "int (nat (nt - 1)) + 1 \<le> nt" using assms(4) by simp
  from intervals_yo [of ndim drift kick ?f "symplec4_interval_end dt' ndt" yo
      "\<lambda>to. symplec4_spec_substeps dt' to ndt" result nt ?s0 "nat (nt - 1)",
      OF assms(8) symplec4_interval_to _ _ assms(5) _ this]
  have whole: "\<forall>i. 0 \<le> i \<and> i < ndim \<longrightarrow> st_mem (?f ?s') (yo + i) =
      apply_substeps drift kick yo
        (intervals_substeps (\<lambda>to. symplec4_spec_substeps dt' to ndt)
           (symplec4_interval_end dt' ndt) (st_to ?s0) (nat (nt - 1)))
        (st_mem ?s0) (yo + i)"
    unfolding run' using assms(7) by (simp add: symplec4_interval_yo)
  show ?thesis
    using entry last whole by (simp add: symplec4_def init run)
qed

lemma osc_drift_kick_local: "2 \<le> ndim \<Longrightarrow> drift_kick_local ndim osc_drift osc_kick"
proof -
  assume n: "2 \<le> ndim"
  have "m y = m' y \<and> m (y + 1) = m' (y + 1)"
    if "\<forall>i. 0 \<le> i \<and> i < ndim \<longrightarrow> m (y + i) = m' (y + i)" for m m' :: mem and y
    using that [rule_format, of 0] that [rule_format, of 1] n by simp
  then show ?thesis
    unfolding drift_kick_local_def osc_drift_def osc_kick_def
    by (intro conjI allI impI) (simp_all, metis+)
qed

lemma apply_substeps_frame:
  assumes "drift_kick_frame ndim drift kick" "x < yo \<or> yo + ndim \<le> x"
  shows "apply_substeps drift kick yo steps m x = m x"
proof (induction steps arbitrary: m)
  case Nil
  show ?case by (simp add: apply_substeps_def)
next
  case (Cons s steps)
  have "apply_substep drift kick yo s m x = m x"
    using assms by (cases s) (simp_all add: drift_frame kick_frame)
  with Cons [of "apply_substep drift kick yo s m"] show ?case
    by (simp add: apply_substeps_def)
qed

lemma qp_apply_substeps_osc:
  "qp_at y (apply_substeps osc_drift osc_kick y (Drift dt # steps) m) =
     qp_at y (apply_substeps osc_drift osc_kick y steps (osc_drift dt y m))"
  "qp_at y (apply_substeps osc_drift osc_kick y (Kick dt t # steps) m) =
     qp_at y (apply_substeps osc_drift osc_kick y steps (osc_kick dt t y m))"
  "qp_at y (apply_substeps osc_drift osc_kick y [] m) = qp_at y m"
  by (simp_all add: apply_substeps_def)

text \<open>
  Claim C9. \<^verbatim>\<open>symplec6\<close> returns with the caller's \<open>yo\<close> as it was, whatever the signals.
  \<^verbatim>\<open>leapfrog\<close> and \<^verbatim>\<open>symplec4\<close> work on \<open>yo\<close> itself. At the loop's entry \<open>yo\<close> is the
  initial state, with \<open>yo[2]\<close> multiplied by \<open>yo[0]\<close> when \<^verbatim>\<open>construct_Lz\<close> is set. On return
  from a run that no signal interrupts, \<open>yo\<close> is what the calls of \<^verbatim>\<open>drift\<close> and \<^verbatim>\<open>kick\<close>
  of the \<open>nt - 1\<close> output intervals, made in order on the state at the loop's entry, leave
  of it: the sub-steps of the scheme, interval after interval, each interval starting at
  the time at which the one before ended. The last output block is the copy of this \<open>yo\<close>
  (with the third component divided by the first when \<^verbatim>\<open>construct_Lz\<close> is set). The
  callbacks write only the vectors they are given, what \<^verbatim>\<open>drift\<close> and \<^verbatim>\<open>kick\<close> leave in a
  vector depends on the store through this vector only, and \<open>yo\<close> overlaps neither the
  output buffer nor the allocated blocks.
\<close>

theorem yo_on_return:
  assumes "drift_kick_frame ndim drift kick" "scaling_frame ndim tol_scaling"
    and "metric_frame metric" "func_frame ndim func"
    and "drift_kick_local ndim drift kick"
    and "2 \<le> nt" "apart yo ndim result (nt * ndim)"
    and "estimate_blocks_apart ndim y11 y12 delta scaling scale2 yo ndim"
    and "construct_Lz \<longrightarrow> 3 \<le> ndim"
    and "apart yo (2 * ndim) result (nt * (2 * ndim))"
    and "symplec6_blocks_apart ndim qo po q12 p12 a yo (2 * ndim)"
    and "symplec6_estimate_blocks_apart ndim e_q11 e_q12 e_p11 e_p12 e_qtmp e_ptmp e_a e_scale
           yo (2 * ndim)"
  shows "(\<exists>s. symplec6 func ndim yo nt dt t rtol atol result qo po q12 p12 a
               e_q11 e_q12 e_p11 e_p12 e_qtmp e_ptmp e_a e_scale sig interrupted m = Some s \<and>
             (\<forall>i. 0 \<le> i \<and> i < 2 * ndim \<longrightarrow> st_mem s (yo + i) = m (yo + i))) \<and>
         (\<exists>dt' ndt s0 s.
           leapfrog_init drift kick ndim yo dt t rtol atol tol_scaling metric construct_Lz result
             y11 y12 delta scaling scale2 0 m = Some (dt', ndt, s0) \<and>
           (\<forall>i. 0 \<le> i \<and> i < ndim \<longrightarrow> st_mem s0 (yo + i) =
              (if construct_Lz \<and> i = 2 then m (yo + 2) * m yo else m (yo + i))) \<and>
           leapfrog drift kick ndim yo nt dt t rtol atol tol_scaling metric construct_Lz result
             y11 y12 delta scaling scale2 no_sigint 0 m = Some s \<and>
           (\<forall>i. 0 \<le> i \<and> i < ndim \<longrightarrow> st_mem s (yo + i) =
              apply_substeps drift kick yo
                (intervals_substeps (\<lambda>to. leapfrog_spec_substeps dt' to ndt)
                   (leapfrog_interval_end dt' ndt) (st_to s0) (nat (nt - 1)))
                (st_mem s0) (yo + i)) \<and>
           (\<forall>i. 0 \<le> i \<and> i < ndim \<longrightarrow> st_mem s (result + (nt - 1) * ndim + i) =
              (if construct_Lz \<and> i = 2 then st_mem s (yo + 2) / st_mem s yo
               else st_mem s (yo + i)))) \<and>
         (\<exists>dt' ndt s0 s.
           symplec4_init drift kick ndim yo dt t rtol atol tol_scaling metric construct_Lz result
             y11 y12 delta scaling scale2 0 m = Some (dt', ndt, s0) \<and>
           (\<forall>i. 0 \<le> i \<and> i < ndim \<longrightarrow> st_mem s0 (yo + i) =
              (if construct_Lz \<and> i = 2 then m (yo + 2) * m yo else m (yo + i))) \<and>
           symplec4 drift kick ndim yo nt dt t rtol atol tol_scaling metric construct_Lz result
             y11 y12 delta scaling scale2 no_sigint 0 m = Some s \<and>
           (\<forall>i. 0 \<le> i \<and> i < ndim \<longrightarrow> st_mem s (yo + i) =
              apply_substeps drift kick yo
                (intervals_substeps (\<lambda>to. symplec4_spec_substeps dt' to ndt)
                   (symplec4_interval_end dt' ndt) (st_to s0) (nat (nt - 1)))
                (st_mem s0) (yo + i)) \<and>
           (\<forall>i. 0 \<le> i \<and> i < ndim \<longrightarrow> st_mem s (result + (nt - 1) * ndim + i) =
              (if construct_Lz \<and> i = 2 then st_mem s (yo + 2) / st_mem s yo
               else st_mem s (yo + i))))"
proof -
  from assms(6) have "1 \<le> nt" by simp
  then show ?thesis
    by (intro conjI symplec6_yo_unchanged leapfrog_yo_integrated symplec4_yo_integrated assms)
qed

theorem yo_on_return_witness:
  "(\<exists>s. symplec6 osc_func 3 0 2 1 10 0 0 100 50 53 56 59 62 70 73 76 79 82 85 88 91
          no_sigint 0 (osc_store(0 := 2, 2 := 6)) = Some s \<and>
        st_mem s 0 = 2 \<and> st_mem s 2 = 6) \<and>
   (\<exists>s. leapfrog osc_drift osc_kick 3 0 2 1 10 0 0 unit_scaling diff_metric True 100
          20 23 26 29 32 no_sigint 0 (osc_store(0 := 2, 2 := 6)) = Some s \<and>
        st_mem s 0 = 1 \<and> st_mem s 1 = - 2 \<and> st_mem s 2 = 12 \<and>
        st_mem s 103 = 1 \<and> st_mem s 104 = - 2 \<and> st_mem s 105 = 12) \<and>
   (\<exists>s. symplec4 osc_drift osc_kick 3 0 2 1 10 0 0 unit_scaling diff_metric True 100
          20 23 26 29 32 no_sigint 0 (osc_store(0 := 2, 2 := 6)) = Some s \<and>
        (st_mem s 0, st_mem s 1) = osc_symplec4_one 1 (2, 0) \<and> st_mem s 2 = 12 \<and>
        st_mem s 105 = 12 / st_mem s 0)"
proof -
  let ?M = "osc_store(0 := 2, 2 := 6)"
  let ?M' = "osc_store(0 := 2, 100 := 2, 101 := 0, 102 := 6, 2 := 12)"
  let ?s0 = "\<lparr>st_mem = ?M', st_to = 0, st_result = 103, st_err = 0, st_interrupted = 0\<rparr>"
  have h: "drift_kick_frame 3 osc_drift osc_kick" "scaling_frame 3 unit_scaling"
    "metric_frame diff_metric" "func_frame 3 osc_func" "drift_kick_local 3 osc_drift osc_kick"
    "(2::int) \<le> 2" "apart 0 3 100 (2 * 3)" "estimate_blocks_apart 3 20 23 26 29 32 0 3"
    "True \<longrightarrow> (3::int) \<le> 3" "apart 0 (2 * 3) 100 (2 * (2 * 3))"
    "symplec6_blocks_apart 3 50 53 56 59 62 0 (2 * 3)"
    "symplec6_estimate_blocks_apart 3 70 73 76 79 82 85 88 91 0 (2 * 3)"
    by (simp_all add: osc_drift_kick_frame unit_scaling_frame diff_metric_frame osc_func_frame
          osc_drift_kick_local apart_def estimate_blocks_apart_def symplec6_blocks_apart_def
          symplec6_estimate_blocks_apart_def)
  note w = yo_on_return [OF h, where dt = 1 and t = 10 and rtol = 0 and atol = 0
      and sig = no_sigint and interrupted = 0 and m = ?M]
  from w obtain s6 where s6: "symplec6 osc_func 3 0 2 1 10 0 0 100 50 53 56 59 62
      70 73 76 79 82 85 88 91 no_sigint 0 ?M = Some s6"
    and y6: "\<forall>i. 0 \<le> i \<and> i < 2 * 3 \<longrightarrow> st_mem s6 (0 + i) = ?M (0 + i)"
    by blast
  have il: "leapfrog_init osc_drift osc_kick 3 0 1 10 0 0 unit_scaling diff_metric True 100
      20 23 26 29 32 0 ?M = Some (1, 1, ?s0)"
    by (simp add: leapfrog_init_def save_result_def Let_def for_loop.simps long_of_double_def
          osc_store_def fun_upd_twist cong: let_weak_cong)
  have i4: "symplec4_init osc_drift osc_kick 3 0 1 10 0 0 unit_scaling diff_metric True 100
      20 23 26 29 32 0 ?M = Some (1, 1, ?s0)"
    by (simp add: symplec4_init_def save_result_def Let_def for_loop.simps long_of_double_def
          osc_store_def fun_upd_twist cong: let_weak_cong)
  from w [THEN conjunct2, THEN conjunct1] obtain sl where
    sl: "leapfrog osc_drift osc_kick 3 0 2 1 10 0 0 unit_scaling
      diff_metric True 100 20 23 26 29 32 no_sigint 0 ?M = Some sl"
    and yl: "\<forall>i. 0 \<le> i \<and> i < 3 \<longrightarrow> st_mem sl (0 + i) =
              apply_substeps osc_drift osc_kick 0
                (intervals_substeps (\<lambda>to. leapfrog_spec_substeps 1 to 1)
                   (leapfrog_interval_end 1 1) (st_to ?s0) (nat (2 - 1)))
                (st_mem ?s0) (0 + i)"
    and bl: "\<forall>i. 0 \<le> i \<and> i < 3 \<longrightarrow> st_mem sl (100 + (2 - 1) * 3 + i) =
              (if True \<and> i = 2 then st_mem sl (0 + 2) / st_mem sl 0 else st_mem sl (0 + i))"
    unfolding il by (elim exE conjE) simp
  from w [THEN conjunct2, THEN conjunct2] obtain s4 where
    s4: "symplec4 osc_drift osc_kick 3 0 2 1 10 0 0 unit_scaling
      diff_metric True 100 20 23 26 29 32 no_sigint 0 ?M = Some s4"
    and y4: "\<forall>i. 0 \<le> i \<and> i < 3 \<longrightarrow> st_mem s4 (0 + i) =
              apply_substeps osc_drift osc_kick 0
                (intervals_substeps (\<lambda>to. symplec4_spec_substeps 1 to 1)
                   (symplec4_interval_end 1 1) (st_to ?s0) (nat (2 - 1)))
                (st_mem ?s0) (0 + i)"
    and b4: "\<forall>i. 0 \<le> i \<and> i < 3 \<longrightarrow> st_mem s4 (100 + (2 - 1) * 3 + i) =
              (if True \<and> i = 2 then st_mem s4 (0 + 2) / st_mem s4 0 else st_mem s4 (0 + i))"
    unfolding i4 by (elim exE conjE) simp
  have "st_mem s6 0 = 2 \<and> st_mem s6 2 = 6"
    using y6 [rule_format, of 0] y6 [rule_format, of 2] by (simp add: osc_store_def)
  moreover have l: "st_mem sl 0 = 1 \<and> st_mem sl 1 = - 2 \<and> st_mem sl 2 = 12"
    using yl [rule_format, of 0] yl [rule_format, of 1] yl [rule_format, of 2]
    by (simp add: intervals_substeps_def leapfrog_spec_substeps_def apply_substeps_def
          osc_drift_def osc_kick_def osc_store_def)
  moreover have "st_mem sl 103 = 1 \<and> st_mem sl 104 = - 2 \<and> st_mem sl 105 = 12"
    using bl [rule_format, of 0] bl [rule_format, of 1] bl [rule_format, of 2] l by simp
  moreover have "(st_mem s4 0, st_mem s4 1) = osc_symplec4_one 1 (2, 0) \<and> st_mem s4 2 = 12"
  proof
    let ?L = "intervals_substeps (\<lambda>to. symplec4_spec_substeps 1 to 1)
                (symplec4_interval_end 1 1) 0 (nat (2 - 1))"
    have "(st_mem s4 0, st_mem s4 1) = qp_at 0 (apply_substeps osc_drift osc_kick 0 ?L ?M')"
      using y4 [rule_format, of 0] y4 [rule_format, of 1] by (simp add: qp_at_def)
    also have "\<dots> = osc_symplec4_one 1 (qp_at 0 ?M')"
      by (simp add: intervals_substeps_def symplec4_spec_substeps_def symplec4_spec_block_def
            qp_apply_substeps_osc qp_osc_drift qp_osc_kick osc_symplec4_one_def)
    finally show "(st_mem s4 0, st_mem s4 1) = osc_symplec4_one 1 (2, 0)"
      by (simp add: qp_at_def osc_store_def)
    have "drift_kick_frame 2 osc_drift osc_kick" by (simp add: osc_drift_kick_frame)
    from apply_substeps_frame [OF this, of 2 0 ?L ?M'] y4 [rule_format, of 2]
    show "st_mem s4 2 = 12" by simp
  qed
  moreover have "st_mem s4 105 = 12 / st_mem s4 0"
    using b4 [rule_format, of 2] calculation by simp
  ultimately show ?thesis
    using s6 sl s4 by blast
qed

subsection \<open>The searches on the oscillator\<close>

lemma scaled_square_sum_two:
  "scaled_square_sum 2 delta scale2 m =
     m delta * m delta / m scale2 + m (delta + 1) * m (delta + 1) / m (scale2 + 1)"
proof -
  have "{0..<2::int} = {0, 1}" by auto
  then show ?thesis by (simp add: scaled_square_sum_def)
qed

lemma osc_scale:
  "symplec4_estimate_scale 2 0 0 0 unit_scaling 26 28 osc_store =
     osc_store(26 := 1, 27 := 1, 28 := 4, 29 := 4)"
  "leapfrog_estimate_scale 2 0 0 0 unit_scaling 26 28 osc_store =
     osc_store(26 := 1, 27 := 1, 28 := 4, 29 := 4)"
  by (simp_all add: symplec4_estimate_scale_def leapfrog_estimate_scale_def unit_scaling_def
        Let_def for_loop.simps cong: let_weak_cong)

lemma osc_symplec4_trial_keeps:
  assumes "x < 20 \<or> 26 \<le> x"
  shows "symplec4_estimate_trial osc_drift osc_kick 2 0 10 diff_metric 20 22 24 dt m x = m x"
proof -
  have "drift_kick_frame 2 osc_drift osc_kick" by (simp add: osc_drift_kick_frame)
  from symplec4_estimate_iter_frame [OF this diff_metric_frame, of x 20 22 24 0 10 28 dt 0 m] assms
  show ?thesis by (auto simp: symplec4_estimate_iter_err)
qed

lemma osc_symplec4_trial_sum:
  assumes "qp_at 0 m = (1, 0)" "m 28 = 4" "m 29 = 4"
  shows "scaled_square_sum 2 24 28
           (symplec4_estimate_trial osc_drift osc_kick 2 0 10 diff_metric 20 22 24 dt m) =
         (let a = osc_symplec4_one dt (1, 0); b = osc_symplec4_two (dt / 2) (1, 0);
              d0 = fst a - fst b; d1 = snd a - snd b
          in d0 * d0 / 4 + d1 * d1 / 4)"
proof -
  let ?T = "symplec4_estimate_trial osc_drift osc_kick 2 0 10 diff_metric 20 22 24 dt m"
  have "?T 24 = fst (qp_at 24 ?T)" "?T (24 + 1) = snd (qp_at 24 ?T)"
    by (simp_all add: qp_at_def)
  then have "?T 24 = fst (osc_symplec4_one dt (1, 0)) - fst (osc_symplec4_two (dt / 2) (1, 0))"
    "?T (24 + 1) = snd (osc_symplec4_one dt (1, 0)) - snd (osc_symplec4_two (dt / 2) (1, 0))"
    by (simp_all only: osc_symplec4_trial_delta assms(1) fst_conv snd_conv)
  moreover have "?T 28 = 4" "?T (28 + 1) = 4"
    using assms(2,3) by (simp_all add: osc_symplec4_trial_keeps)
  ultimately show ?thesis
    by (simp only: scaled_square_sum_two Let_def)
qed

lemma small_squares:
  fixes d0 d1 :: real
  assumes "\<bar>d0\<bar> \<le> 1" "\<bar>d1\<bar> \<le> 1"
  shows "0 \<le> d0 * d0 / 4 + d1 * d1 / 4" "d0 * d0 / 4 + d1 * d1 / 4 \<le> 1 / 2"
    "d0 \<noteq> 0 \<Longrightarrow> 0 < d0 * d0 / 4 + d1 * d1 / 4"
proof -
  have "d0 * d0 \<le> 1" "d1 * d1 \<le> 1"
    using assms abs_square_le_1 [of d0] abs_square_le_1 [of d1] by (simp_all add: power2_eq_square)
  moreover have "0 \<le> d0 * d0" "0 \<le> d1 * d1" by simp_all
  ultimately show "0 \<le> d0 * d0 / 4 + d1 * d1 / 4" "d0 * d0 / 4 + d1 * d1 / 4 \<le> 1 / 2"
    by linarith+
  assume "d0 \<noteq> 0"
  then have "0 < d0 * d0" by (simp add: power2_eq_square [symmetric])
  with \<open>0 \<le> d1 * d1\<close> show "0 < d0 * d0 / 4 + d1 * d1 / 4" by linarith
qed

lemma osc_symplec4_first_delta:
  "let a = osc_symplec4_one 1 (1, 0); b = osc_symplec4_two (1 / 2) (1, 0);
       d0 = fst a - fst b; d1 = snd a - snd b
   in d0 \<noteq> 0 \<and> \<bar>d0\<bar> \<le> 1 \<and> \<bar>d1\<bar> \<le> 1"
  by (simp add: Let_def osc_symplec4_one_def osc_symplec4_two_def osc_drift_qp_def osc_kick_qp_def
        s4_c1_def s4_c2_def s4_c3_def s4_c4_def s4_c41_def s4_d1_def s4_d2_def s4_d3_def
        cong: let_weak_cong)

lemma osc_symplec4_second_delta:
  "let a = osc_symplec4_one (1 / 2) (1, 0); b = osc_symplec4_two (1 / 2 / 2) (1, 0);
       d0 = fst a - fst b; d1 = snd a - snd b
   in \<bar>d0\<bar> \<le> 1 \<and> \<bar>d1\<bar> \<le> 1"
  by (simp add: Let_def osc_symplec4_one_def osc_symplec4_two_def osc_drift_qp_def osc_kick_qp_def
        s4_c1_def s4_c2_def s4_c3_def s4_c4_def s4_c41_def s4_d1_def s4_d2_def s4_d3_def
        cong: let_weak_cong)

lemma osc_leapfrog_trial:
  "leapfrog_estimate_trial osc_drift osc_kick 2 0 0 diff_metric 20 22 24 1
     (osc_store(26 := 1, 27 := 1, 28 := 4, 29 := 4)) =
   osc_store(26 := 1, 27 := 1, 28 := 4, 29 := 4, 20 := 1 / 2, 21 := - 1, 22 := 17 / 32,
     23 := - 7 / 8, 24 := - 1 / 32, 25 := - 1 / 8)"
  by (simp add: leapfrog_estimate_trial_def Let_def for_loop.simps osc_drift_def osc_kick_def
        diff_metric_def osc_store_def fun_eq_iff cong: let_weak_cong)

lemma osc_leapfrog_first_pass:
  "leapfrog_estimate_iter osc_drift osc_kick 2 0 0 diff_metric 20 22 24 28 1 err
     (osc_store(26 := 1, 27 := 1, 28 := 4, 29 := 4)) =
   (sqrt (17 / 8192),
    osc_store(26 := 1, 27 := 1, 28 := 4, 29 := 4, 20 := 1 / 2, 21 := - 1, 22 := 17 / 32,
      23 := - 7 / 8, 24 := - 1 / 32, 25 := - 1 / 8))"
  by (simp add: leapfrog_estimate_iter_err osc_leapfrog_trial scaled_square_sum_two)

lemma osc_leapfrog_search:
  "leapfrog_estimate_step osc_drift osc_kick 2 0 1 10 0 0 unit_scaling diff_metric
     20 22 24 26 28 osc_store =
   Some (1, osc_store(26 := 1, 27 := 1, 28 := 4, 29 := 4, 20 := 1 / 2, 21 := - 1, 22 := 17 / 32,
               23 := - 7 / 8, 24 := - 1 / 32, 25 := - 1 / 8))"
proof -
  let ?iter = "leapfrog_estimate_iter osc_drift osc_kick 2 0 0 diff_metric 20 22 24 28"
  let ?m0 = "osc_store(26 := 1, 27 := 1, 28 := 4, 29 := 4)"
  let ?m1 = "osc_store(26 := 1, 27 := 1, 28 := 4, 29 := 4, 20 := 1 / 2, 21 := - 1, 22 := 17 / 32,
               23 := - 7 / 8, 24 := - 1 / 32, 25 := - 1 / 8)"
  have t: "osc_store 10 = 0" by (simp add: osc_store_def)
  have "estimate_continue 1 (2, 2, ?m0)"
    by (simp add: estimate_continue_def below_max_dt_reduce_def MAX_DT_REDUCE_def)
  moreover have "estimate_pass ?iter (2, 2, ?m0) = (1, sqrt (17 / 8192), ?m1)"
    by (simp add: estimate_pass_def osc_leapfrog_first_pass)
  ultimately have "estimate_loop ?iter 1 2 2 ?m0 = estimate_loop ?iter 1 1 (sqrt (17 / 8192)) ?m1"
    by (rule estimate_loop_pass)
  also have "\<dots> = Some (1, ?m1)"
    by (rule estimate_loop_stop) (simp add: estimate_continue_def)
  finally show ?thesis
    using t by (simp add: leapfrog_estimate_step_def osc_scale)
qed

lemma osc_symplec4_first_sum:
  "0 < scaled_square_sum 2 24 28
         (symplec4_estimate_trial osc_drift osc_kick 2 0 10 diff_metric 20 22 24 1
            (osc_store(26 := 1, 27 := 1, 28 := 4, 29 := 4)))"
  "scaled_square_sum 2 24 28
     (symplec4_estimate_trial osc_drift osc_kick 2 0 10 diff_metric 20 22 24 1
        (osc_store(26 := 1, 27 := 1, 28 := 4, 29 := 4))) \<le> 1 / 2"
proof -
  let ?m0 = "osc_store(26 := 1, 27 := 1, 28 := 4, 29 := 4)"
  define d0 where
    "d0 = fst (osc_symplec4_one 1 (1, 0)) - fst (osc_symplec4_two (1 / 2) (1, 0))"
  define d1 where
    "d1 = snd (osc_symplec4_one 1 (1, 0)) - snd (osc_symplec4_two (1 / 2) (1, 0))"
  from osc_symplec4_first_delta have d: "\<bar>d0\<bar> \<le> 1" "\<bar>d1\<bar> \<le> 1" "d0 \<noteq> 0"
    unfolding Let_def d0_def d1_def by blast+
  have m0: "qp_at 0 ?m0 = (1, 0)" "?m0 28 = 4" "?m0 29 = 4"
    by (simp_all add: qp_at_def osc_store_def)
  have "scaled_square_sum 2 24 28
         (symplec4_estimate_trial osc_drift osc_kick 2 0 10 diff_metric 20 22 24 1 ?m0) =
        d0 * d0 / 4 + d1 * d1 / 4"
    unfolding osc_symplec4_trial_sum [OF m0] Let_def d0_def d1_def ..
  with small_squares(2) [OF d(1,2)] small_squares(3) [OF d]
  show "0 < scaled_square_sum 2 24 28
         (symplec4_estimate_trial osc_drift osc_kick 2 0 10 diff_metric 20 22 24 1 ?m0)"
    "scaled_square_sum 2 24 28
       (symplec4_estimate_trial osc_drift osc_kick 2 0 10 diff_metric 20 22 24 1 ?m0) \<le> 1 / 2"
    by simp_all
qed

lemma osc_symplec4_search:
  "\<exists>m'. symplec4_estimate_step osc_drift osc_kick 2 0 1 10 0 0 unit_scaling diff_metric
           20 22 24 26 28 osc_store = Some (1 / 2, m')"
proof -
  let ?iter = "symplec4_estimate_iter osc_drift osc_kick 2 0 10 diff_metric 20 22 24 28"
  let ?trial = "symplec4_estimate_trial osc_drift osc_kick 2 0 10 diff_metric 20 22 24"
  define m0 where "m0 = osc_store(26 := 1, 27 := 1, 28 := 4, 29 := 4)"
  define m1 where "m1 = ?trial 1 m0"
  define m2 where "m2 = ?trial (1 / 2) m1"
  define S1 where "S1 = scaled_square_sum 2 24 28 m1"
  define S2 where "S2 = scaled_square_sum 2 24 28 m2"
  define err1 where "err1 = sqrt ((2 + S1) / 2)"
  define err2 where "err2 = sqrt ((err1 + S2) / 2)"
  have m0: "qp_at 0 m0 = (1, 0)" "m0 28 = 4" "m0 29 = 4"
    by (simp_all add: m0_def qp_at_def osc_store_def)
  then have m1: "qp_at 0 m1 = (1, 0)" "m1 28 = 4" "m1 29 = 4"
    by (simp_all add: m1_def qp_at_def osc_symplec4_trial_keeps)
  have S1: "0 < S1" "S1 \<le> 1 / 2"
    using osc_symplec4_first_sum by (simp_all add: S1_def m1_def m0_def)
  have S2: "0 \<le> S2" "S2 \<le> 1 / 2"
  proof -
    define d0 where
      "d0 = fst (osc_symplec4_one (1 / 2) (1, 0)) - fst (osc_symplec4_two (1 / 2 / 2) (1, 0))"
    define d1 where
      "d1 = snd (osc_symplec4_one (1 / 2) (1, 0)) - snd (osc_symplec4_two (1 / 2 / 2) (1, 0))"
    from osc_symplec4_second_delta have d: "\<bar>d0\<bar> \<le> 1" "\<bar>d1\<bar> \<le> 1"
      unfolding Let_def d0_def d1_def by blast+
    have "S2 = d0 * d0 / 4 + d1 * d1 / 4"
      unfolding S2_def m2_def osc_symplec4_trial_sum [OF m1] Let_def d0_def d1_def ..
    with small_squares(1,2) [OF d] show "0 \<le> S2" "S2 \<le> 1 / 2" by simp_all
  qed
  have e1: "1 < err1" using S1 by (simp add: err1_def)
  have "err1 \<le> 3 / 2"
    unfolding err1_def using S1 by (intro real_le_lsqrt) (simp_all add: power2_eq_square)
  with S2 have e2: "err2 \<le> 1" by (simp add: err2_def)
  have p1: "estimate_pass ?iter (2, 2, m0) = (1, err1, m1)"
    by (simp add: estimate_pass_def symplec4_estimate_iter_err err1_def S1_def m1_def)
  have p2: "estimate_pass ?iter (1, err1, m1) = (1 / 2, err2, m2)"
    by (simp add: estimate_pass_def symplec4_estimate_iter_err err2_def S2_def m2_def)
  have "estimate_continue 1 (2, 2, m0)"
    by (simp add: estimate_continue_def below_max_dt_reduce_def MAX_DT_REDUCE_def)
  from estimate_loop_pass [OF this p1]
  have "estimate_loop ?iter 1 2 2 m0 = estimate_loop ?iter 1 1 err1 m1" .
  also have "estimate_continue 1 (1, err1, m1)"
    using e1 by (simp add: estimate_continue_def below_max_dt_reduce_def MAX_DT_REDUCE_def)
  from estimate_loop_pass [OF this p2]
  have "estimate_loop ?iter 1 1 err1 m1 = estimate_loop ?iter 1 (1 / 2) err2 m2" .
  also have "\<dots> = Some (1 / 2, m2)"
    using e2 by (intro estimate_loop_stop) (simp add: estimate_continue_def)
  finally show ?thesis
    by (simp add: symplec4_estimate_step_def osc_scale m0_def)
qed

lemma osc_symplec4_first_error:
  "sqrt (scaled_square_sum 2 24 28
           (symplec4_estimate_trial osc_drift osc_kick 2 0 10 diff_metric 20 22 24 1
              (symplec4_estimate_scale 2 0 0 0 unit_scaling 26 28 osc_store)) / 2) \<le> 1"
  using osc_symplec4_first_sum by (simp add: osc_scale)

text \<open>
  Claim C4 fails in \<^verbatim>\<open>symplec4_estimate_step\<close>, by the accumulator that is not reset (the
  defect of claim C3): the loop's variable \<^verbatim>\<open>err\<close> is there the root of (the \<^verbatim>\<open>err\<close> before
  plus the sum of the pass) over \<open>dim\<close>, not the normalized error of the pass, and the loop
  goes on although the normalized error is at most 1. For the oscillator at \<open>q = 1\<close>,
  \<open>p = 0\<close>, with \<open>atol = rtol = 0\<close>, scaling 1 and output times \<open>0\<close> and \<open>1\<close>: the normalized
  error of the first pass (\<open>dt = 1\<close>) is at most 1, so that the search of the claim returns
  the initial step \<open>1\<close>; \<^verbatim>\<open>leapfrog_estimate_step\<close> does so, \<^verbatim>\<open>symplec4_estimate_step\<close> makes
  a second pass and returns \<open>1/2\<close>.
\<close>

theorem symplec4_search_extra_pass:
  "sqrt (scaled_square_sum 2 24 28
           (symplec4_estimate_trial osc_drift osc_kick 2 0 10 diff_metric 20 22 24 1
              (symplec4_estimate_scale 2 0 0 0 unit_scaling 26 28 osc_store)) / 2) \<le> 1 \<and>
   map_option fst (symplec4_estimate_step osc_drift osc_kick 2 0 1 10 0 0 unit_scaling diff_metric
                     20 22 24 26 28 osc_store) = Some (1 / 2) \<and>
   map_option fst (leapfrog_estimate_step osc_drift osc_kick 2 0 1 10 0 0 unit_scaling diff_metric
                     20 22 24 26 28 osc_store) = Some 1"
  using osc_symplec4_first_error osc_symplec4_search by (auto simp: osc_leapfrog_search)

lemma osc_symplec4_trial_scaled:
  "scaled_square_sum 2 24 28
     (symplec4_estimate_trial osc_drift osc_kick 2 0 10 diff_metric 20 22 24 dt
        (symplec4_estimate_scale 2 0 0 0 unit_scaling 26 28 osc_store)) =
   symplec4_estimate_trial osc_drift osc_kick 2 0 10 diff_metric 20 22 24 dt
     (symplec4_estimate_scale 2 0 0 0 unit_scaling 26 28 osc_store) 24 *
   symplec4_estimate_trial osc_drift osc_kick 2 0 10 diff_metric 20 22 24 dt
     (symplec4_estimate_scale 2 0 0 0 unit_scaling 26 28 osc_store) 24 / 4 +
   symplec4_estimate_trial osc_drift osc_kick 2 0 10 diff_metric 20 22 24 dt
     (symplec4_estimate_scale 2 0 0 0 unit_scaling 26 28 osc_store) 25 *
   symplec4_estimate_trial osc_drift osc_kick 2 0 10 diff_metric 20 22 24 dt
     (symplec4_estimate_scale 2 0 0 0 unit_scaling 26 28 osc_store) 25 / 4"
  by (simp add: scaled_square_sum_two osc_symplec4_trial_keeps osc_scale)

text \<open>
  Claim C2 fails in the code. The tolerance of component \<open>i\<close> is \<open>atol + rtol * scaling\<^sub>i\<close>
  in the claim and in the comments of the code (lines 108-109 and 204-205); lines 530
  and 602 compute \<open>exp atol + exp rtol * scaling\<^sub>i\<close>. With \<open>atol = rtol = 0\<close> and the scaling
  \<open>[1, 1]\<close> the claimed tolerance is \<open>0\<close>; the code's is \<open>2\<close>, its square \<open>4\<close> is what both
  searches store in \<open>scale2\<close>, and the squared differences of a pass are divided by it:
  for the oscillator at \<open>q = 1\<close>, \<open>p = 0\<close> the differences of the first leapfrog pass are
  \<open>-1/32\<close> and \<open>-1/8\<close>, and its error is the root of \<open>((1/32)\<^sup>2 / 4 + (1/8)\<^sup>2 / 4) / 2\<close>.
\<close>

theorem estimate_tolerance_exponentiated:
  "leapfrog_estimate_scale 2 0 0 0 unit_scaling 26 28 osc_store 26 = 1 \<and>
   leapfrog_estimate_scale 2 0 0 0 unit_scaling 26 28 osc_store 27 = 1 \<and>
   leapfrog_estimate_scale 2 0 0 0 unit_scaling 26 28 osc_store 28 = (exp 0 + exp 0 * 1)\<^sup>2 \<and>
   leapfrog_estimate_scale 2 0 0 0 unit_scaling 26 28 osc_store 29 = (exp 0 + exp 0 * 1)\<^sup>2 \<and>
   symplec4_estimate_scale 2 0 0 0 unit_scaling 26 28 osc_store 28 = (exp 0 + exp 0 * 1)\<^sup>2 \<and>
   symplec4_estimate_scale 2 0 0 0 unit_scaling 26 28 osc_store 29 = (exp 0 + exp 0 * 1)\<^sup>2 \<and>
   (exp 0 + exp 0 * 1)\<^sup>2 \<noteq> ((0::real) + 0 * 1)\<^sup>2 \<and>
   leapfrog_estimate_trial osc_drift osc_kick 2 0 0 diff_metric 20 22 24 1
     (leapfrog_estimate_scale 2 0 0 0 unit_scaling 26 28 osc_store) 24 = - 1 / 32 \<and>
   leapfrog_estimate_trial osc_drift osc_kick 2 0 0 diff_metric 20 22 24 1
     (leapfrog_estimate_scale 2 0 0 0 unit_scaling 26 28 osc_store) 25 = - 1 / 8 \<and>
   fst (leapfrog_estimate_iter osc_drift osc_kick 2 0 0 diff_metric 20 22 24 28 1 2
          (leapfrog_estimate_scale 2 0 0 0 unit_scaling 26 28 osc_store)) =
     sqrt (((- 1 / 32) * (- 1 / 32) / 4 + (- 1 / 8) * (- 1 / 8) / 4) / 2) \<and>
   fst (symplec4_estimate_iter osc_drift osc_kick 2 0 10 diff_metric 20 22 24 28 1 2
          (symplec4_estimate_scale 2 0 0 0 unit_scaling 26 28 osc_store)) =
     sqrt ((2 +
            (symplec4_estimate_trial osc_drift osc_kick 2 0 10 diff_metric 20 22 24 1
               (symplec4_estimate_scale 2 0 0 0 unit_scaling 26 28 osc_store) 24 *
             symplec4_estimate_trial osc_drift osc_kick 2 0 10 diff_metric 20 22 24 1
               (symplec4_estimate_scale 2 0 0 0 unit_scaling 26 28 osc_store) 24 / 4 +
             symplec4_estimate_trial osc_drift osc_kick 2 0 10 diff_metric 20 22 24 1
               (symplec4_estimate_scale 2 0 0 0 unit_scaling 26 28 osc_store) 25 *
             symplec4_estimate_trial osc_drift osc_kick 2 0 10 diff_metric 20 22 24 1
               (symplec4_estimate_scale 2 0 0 0 unit_scaling 26 28 osc_store) 25 / 4)) / 2)"
proof -
  have "fst (symplec4_estimate_iter osc_drift osc_kick 2 0 10 diff_metric 20 22 24 28 1 2
          (symplec4_estimate_scale 2 0 0 0 unit_scaling 26 28 osc_store)) =
     sqrt ((2 + scaled_square_sum 2 24 28
             (symplec4_estimate_trial osc_drift osc_kick 2 0 10 diff_metric 20 22 24 1
               (symplec4_estimate_scale 2 0 0 0 unit_scaling 26 28 osc_store))) / 2)"
    by (simp add: symplec4_estimate_iter_err)
  then show ?thesis
    unfolding osc_symplec4_trial_scaled
    by (simp add: osc_scale(2) osc_leapfrog_trial osc_leapfrog_first_pass)
       (simp add: osc_scale(1))
qed

end
